theory Spec2Isabelle
  imports Main "HOL-Library.Sublist"
begin

section \<open>Strings and JavaScript values\<close>

text \<open>
  JavaScript strings are modelled as HOL strings: a list of 8-bit code units. Every
  literal the program compares against is ASCII. Code units above 255 are outside the
  model.
\<close>

definition startsWith :: "string \<Rightarrow> string \<Rightarrow> bool" where
  \<comment> \<open>\<open>s.startsWith(p)\<close>\<close>
  "startsWith s p = (take (length p) s = p)"

fun includesStr :: "string \<Rightarrow> string \<Rightarrow> bool" where
  \<comment> \<open>\<open>s.includes(p)\<close>\<close>
  "includesStr [] p = (p = [])"
| "includesStr (c # cs) p = (startsWith (c # cs) p \<or> includesStr cs p)"

fun join :: "string \<Rightarrow> string list \<Rightarrow> string" where
  \<comment> \<open>\<open>xs.join(sep)\<close>\<close>
  "join sep [] = []"
| "join sep [x] = x"
| "join sep (x # y # ys) = x @ sep @ join sep (y # ys)"

definition isWhiteSpace :: "char \<Rightarrow> bool" where
  \<comment> \<open>the characters \<open>trim()\<close> strips and \<open>\s\<close> matches, among code units below 256:
      TAB, LF, VT, FF, CR, space and NBSP\<close>
  "isWhiteSpace c =
     (c \<in> set [CHR 0x09, CHR 0x0A, CHR 0x0B, CHR 0x0C, CHR 0x0D, CHR 0x20, CHR 0xA0])"

definition isLineTerminator :: "char \<Rightarrow> bool" where
  \<comment> \<open>what \<open>.\<close> in a regular expression does not match (below 256: LF and CR)\<close>
  "isLineTerminator c = (c = CHR 0x0A \<or> c = CHR 0x0D)"

definition trim :: "string \<Rightarrow> string" where
  "trim s = rev (dropWhile isWhiteSpace (rev (dropWhile isWhiteSpace s)))"

definition isDigit :: "char \<Rightarrow> bool" where
  "isDigit c = (c \<in> set ''0123456789'')"

definition digitValue :: "char \<Rightarrow> nat" where
  "digitValue c =
     (case map_of (zip ''0123456789'' [0, 1, 2, 3, 4, 5, 6, 7, 8, 9]) c of
        Some n \<Rightarrow> n | None \<Rightarrow> 0)"

definition parseInt :: "string \<Rightarrow> nat" where
  \<comment> \<open>\<open>parseInt(ds, 10)\<close> on a non-empty string of decimal digits (what the capture group
      \<open>(\d+)\<close> holds); exact as long as the value is below \<open>2^53\<close>\<close>
  "parseInt ds = foldl (\<lambda>n c. 10 * n + digitValue c) 0 ds"

definition digitChar :: "int \<Rightarrow> char" where
  "digitChar d = ''0123456789'' ! nat (d mod 10)"

function showDigits :: "int \<Rightarrow> string" where
  \<comment> \<open>the decimal digits of a non-negative integer\<close>
  "showDigits i = (if i < 10 then [digitChar i] else showDigits (i div 10) @ [digitChar i])"
  by pat_completeness auto
termination
  by (relation "measure nat") auto

declare showDigits.simps [simp del]

definition showInt :: "int \<Rightarrow> string" where
  \<comment> \<open>an integer in a template string, \<open>`${i}`\<close>\<close>
  "showInt i = (if i < 0 then CHR ''-'' # showDigits (- i) else showDigits i)"

definition showNat :: "nat \<Rightarrow> string" where
  \<comment> \<open>a non-negative integer in a template string\<close>
  "showNat n = showDigits (int n)"

definition toLowerAscii :: "char \<Rightarrow> char" where
  \<comment> \<open>case folding of the \<open>i\<close> flag, which on ASCII patterns only identifies A-Z with a-z\<close>
  "toLowerAscii c =
     (case map_of (zip ''ABCDEFGHIJKLMNOPQRSTUVWXYZ'' ''abcdefghijklmnopqrstuvwxyz'') c of
        Some d \<Rightarrow> d | None \<Rightarrow> c)"

definition includesIgnoreCase :: "string \<Rightarrow> string \<Rightarrow> bool" where
  \<comment> \<open>\<open>/pat/i.test(s)\<close> for a pattern of literal characters, \<open>pat\<close> given in lower case\<close>
  "includesIgnoreCase s pat = includesStr (map toLowerAscii s) pat"

text \<open>
  A value returned by \<open>JSON.parse\<close>. An object is the list of its own properties in the
  order \<open>Object.entries\<close> enumerates them (keys distinct). Of a number the program only
  ever tests whether it is zero, so integers stand for all numbers.
\<close>

datatype json =
    JNull
  | JBool bool
  | JNum int
  | JStr string
  | JArr "json list"
  | JObj "(string \<times> json) list"

fun truthy :: "json \<Rightarrow> bool" where
  "truthy JNull = False"
| "truthy (JBool b) = b"
| "truthy (JNum n) = (n \<noteq> 0)"
| "truthy (JStr s) = (s \<noteq> [])"
| "truthy (JArr xs) = True"
| "truthy (JObj kvs) = True"

fun getProp :: "json \<Rightarrow> string \<Rightarrow> json option" where
  \<comment> \<open>\<open>v[k]\<close> (and \<open>v?.[k]\<close> on null) for the property names the program reads: engines, node,
      dependencies, devDependencies, optionalDependencies, scripts, the script names and
      the package names of the framework tables. None of them is an index, \<open>length\<close> or
      a prototype method, so only an object can have one. \<open>None\<close> is \<open>undefined\<close>.\<close>
  "getProp (JObj kvs) k = map_of kvs k"
| "getProp v k = None"

definition truthyProp :: "json \<Rightarrow> string \<Rightarrow> bool" where
  \<comment> \<open>\<open>if (v[k])\<close>\<close>
  "truthyProp v k = (case getProp v k of None \<Rightarrow> False | Some x \<Rightarrow> truthy x)"

fun indexed :: "nat \<Rightarrow> 'a list \<Rightarrow> (string \<times> 'a) list" where
  "indexed i [] = []"
| "indexed i (x # xs) = (showNat i, x) # indexed (Suc i) xs"

fun objectEntries :: "json \<Rightarrow> (string \<times> json) list" where
  \<comment> \<open>\<open>Object.entries(v)\<close> for a truthy \<open>v\<close>\<close>
  "objectEntries (JObj kvs) = kvs"
| "objectEntries (JArr xs) = indexed 0 xs"
| "objectEntries (JStr s) = indexed 0 (map (\<lambda>c. JStr [c]) s)"
| "objectEntries v = []"

datatype js_error = TypeError

section \<open>The pre-flight compatibility checker (compatibilityChecker.ts)\<close>

datatype ProjectType =
  Nodejs | Static | Python | Rust | Go | Java | Php | Ruby | Dotnet | Other

fun projectTypeName :: "ProjectType \<Rightarrow> string" where
  "projectTypeName Nodejs = ''nodejs''"
| "projectTypeName Static = ''static''"
| "projectTypeName Python = ''python''"
| "projectTypeName Rust = ''rust''"
| "projectTypeName Go = ''go''"
| "projectTypeName Java = ''java''"
| "projectTypeName Php = ''php''"
| "projectTypeName Ruby = ''ruby''"
| "projectTypeName Dotnet = ''dotnet''"
| "projectTypeName Other = ''other''"

record CompatibilityReport =
  canRun :: bool
  issues :: "string list"
  warnings :: "string list"
  suggestions :: "string list"
  nodeVersion :: "string option"
  hasNativeDeps :: bool
  hasGitSshDeps :: bool
  frameworkDetected :: "string option"

definition NATIVE_PACKAGES :: "string list" where
  "NATIVE_PACKAGES =
     [''bcrypt'', ''sharp'', ''canvas'', ''sqlite3'', ''better-sqlite3'', ''node-sass'',
      ''node-gyp'', ''fsevents'', ''esbuild'', ''swc'', ''@swc/core'', ''lightningcss'',
      ''bufferutil'', ''utf-8-validate'', ''cpu-features'', ''sse4_crc32'', ''farmhash'',
      ''xxhash'', ''argon2'', ''libsodium'', ''sodium-native'', ''leveldown'', ''rocksdb'']"

definition PEER_DEP_TROUBLEMAKERS :: "string list" where
  "PEER_DEP_TROUBLEMAKERS =
     [''react'', ''react-dom'', ''@types/react'', ''@types/react-dom'', ''webpack'',
      ''babel-core'', ''@babel/core'', ''eslint'', ''prettier'', ''typescript'']"

definition FRAMEWORK_PATTERNS :: "(string \<times> string list) list" where
  \<comment> \<open>name and deps of each entry; \<open>devScript\<close> is never read\<close>
  "FRAMEWORK_PATTERNS =
     [(''Vite'', [''vite'']),
      (''Next.js'', [''next'']),
      (''Create React App'', [''react-scripts'']),
      (''Vue CLI'', [''@vue/cli-service'']),
      (''Nuxt'', [''nuxt'', ''nuxt3'']),
      (''Angular CLI'', [''@angular/cli'']),
      (''SvelteKit'', [''@sveltejs/kit'']),
      (''Remix'', [''@remix-run/dev'']),
      (''Astro'', [''astro'']),
      (''Gatsby'', [''gatsby'']),
      (''Parcel'', [''parcel'']),
      (''Webpack'', [''webpack'', ''webpack-cli'']),
      (''Express'', [''express'']),
      (''Fastify'', [''fastify'']),
      (''Koa'', [''koa'']),
      (''NestJS'', [''@nestjs/core''])]"

text \<open>
  A \<open>FileSystemTree\<close> maps names to nodes. A file node carries its contents as text
  (a \<open>Uint8Array\<close> is represented by what \<open>TextDecoder\<close> makes of it); a symlink node has
  a \<open>file\<close> property too, but no contents.
\<close>

datatype fsnode =
    FileNode string
  | SymlinkNode string
  | DirectoryNode "(string \<times> fsnode) list"

type_synonym FileSystemTree = "(string \<times> fsnode) list"

definition fileText :: "FileSystemTree \<Rightarrow> string \<Rightarrow> string option" where
  \<comment> \<open>the text the program decodes from \<open>tree[name]\<close> when that node has a \<open>file\<close> property;
      decoding the missing contents of a symlink gives the empty string\<close>
  "fileText tree name =
     (case map_of tree name of
        Some (FileNode contents) \<Rightarrow> Some contents
      | Some (SymlinkNode target) \<Rightarrow> Some []
      | _ \<Rightarrow> None)"

definition extractPackageJson :: "(string \<Rightarrow> json option) \<Rightarrow> FileSystemTree \<Rightarrow> json option" where
  \<comment> \<open>\<open>parse\<close> is \<open>JSON.parse\<close>, \<open>None\<close> where it throws; the \<open>catch\<close> turns that into null\<close>
  "extractPackageJson parse tree =
     (case fileText tree ''package.json'' of
        None \<Rightarrow> None
      | Some content \<Rightarrow> parse content)"

definition extractNodeVersion :: "FileSystemTree \<Rightarrow> json \<Rightarrow> json option" where
  \<comment> \<open>the result is typed \<open>string | undefined\<close>, but \<open>engines.node\<close> is whatever the manifest holds\<close>
  "extractNodeVersion tree pkg =
     (case (case getProp pkg ''engines'' of None \<Rightarrow> None | Some engines \<Rightarrow> getProp engines ''node'') of
        Some node \<Rightarrow>
          if truthy node then Some node
          else map_option (\<lambda>contents. JStr (trim contents)) (fileText tree ''.nvmrc'')
      | None \<Rightarrow> map_option (\<lambda>contents. JStr (trim contents)) (fileText tree ''.nvmrc''))"

record DepAnalysis =
  native :: "string list"
  peerTrouble :: "string list"
  gitSsh :: "string list"
  allDeps :: "string list"

definition isGitSshVersion :: "string \<Rightarrow> bool" where
  "isGitSshVersion version =
     (startsWith version ''git+ssh://'' \<or> startsWith version ''ssh://'' \<or> includesStr version ''git@'')"

fun analyzeEntries :: "(string \<times> json) list \<Rightarrow> DepAnalysis \<Rightarrow> js_error + DepAnalysis" where
  \<comment> \<open>the inner loop; \<open>version.startsWith\<close> throws a TypeError unless \<open>version\<close> is a string\<close>
  "analyzeEntries [] acc = Inr acc"
| "analyzeEntries ((name, version) # rest) acc =
     (case version of
        JStr v \<Rightarrow>
          analyzeEntries rest
            (acc\<lparr> allDeps := allDeps acc @ [name],
                  native := (if name \<in> set NATIVE_PACKAGES then native acc @ [name] else native acc),
                  peerTrouble :=
                    (if name \<in> set PEER_DEP_TROUBLEMAKERS then peerTrouble acc @ [name]
                     else peerTrouble acc),
                  gitSsh := (if isGitSshVersion v then gitSsh acc @ [name] else gitSsh acc) \<rparr>)
      | _ \<Rightarrow> Inl TypeError)"

fun analyzeSections :: "json \<Rightarrow> string list \<Rightarrow> DepAnalysis \<Rightarrow> js_error + DepAnalysis" where
  "analyzeSections pkg [] acc = Inr acc"
| "analyzeSections pkg (sec # rest) acc =
     (case getProp pkg sec of
        None \<Rightarrow> analyzeSections pkg rest acc
      | Some deps \<Rightarrow>
          if \<not> truthy deps then analyzeSections pkg rest acc
          else (case analyzeEntries (objectEntries deps) acc of
                  Inl e \<Rightarrow> Inl e
                | Inr acc' \<Rightarrow> analyzeSections pkg rest acc'))"

definition sections :: "string list" where
  "sections = [''dependencies'', ''devDependencies'', ''optionalDependencies'']"

definition analyzeDependencies :: "json \<Rightarrow> js_error + DepAnalysis" where
  "analyzeDependencies pkg =
     analyzeSections pkg sections \<lparr> native = [], peerTrouble = [], gitSsh = [], allDeps = [] \<rparr>"

definition detectFramework :: "string list \<Rightarrow> string option" where
  "detectFramework deps =
     map_option fst (find (\<lambda>framework. \<exists>dep \<in> set (snd framework). dep \<in> set deps) FRAMEWORK_PATTERNS)"

record NodeRequirement =
  minMajor :: "nat option"
  maxMajor :: "int option"
  exact :: "nat option"

definition optionalV :: "string \<Rightarrow> string" where
  \<comment> \<open>\<open>v?\<close>\<close>
  "optionalV s = (case s of c # cs \<Rightarrow> if c = CHR ''v'' then cs else s | [] \<Rightarrow> s)"

definition dotDigits :: "string \<Rightarrow> string option" where
  \<comment> \<open>\<open>\.\d+\<close> at the start of \<open>s\<close>: what is left after it\<close>
  "dotDigits s =
     (case s of
        c # cs \<Rightarrow>
          if c = CHR ''.'' \<and> takeWhile isDigit cs \<noteq> [] then Some (dropWhile isDigit cs) else None
      | [] \<Rightarrow> None)"

definition exactMatch :: "string \<Rightarrow> string option" where
  \<comment> \<open>\<open>/^v?(\d+)(?:\.\d+)?(?:\.\d+)?$/\<close>: the first group\<close>
  "exactMatch version =
     (let s = optionalV version; major = takeWhile isDigit s; rest = dropWhile isDigit s in
      if major = [] then None
      else if rest = [] then Some major
      else (case dotDigits rest of
              None \<Rightarrow> None
            | Some rest2 \<Rightarrow>
                if rest2 = [] \<or> dotDigits rest2 = Some [] then Some major else None))"

definition rangeMatch :: "string \<Rightarrow> string option" where
  \<comment> \<open>\<open>/^>=?\s*v?(\d+)/\<close>: the first group\<close>
  "rangeMatch version =
     (case version of
        c # cs \<Rightarrow>
          if c = CHR ''>'' then
            (let s1 = (case cs of d # ds \<Rightarrow> if d = CHR ''='' then ds else cs | [] \<Rightarrow> cs);
                 major = takeWhile isDigit (optionalV (dropWhile isWhiteSpace s1))
             in if major = [] then None else Some major)
          else None
      | [] \<Rightarrow> None)"

definition ltMatch :: "string \<Rightarrow> string option" where
  \<comment> \<open>\<open>/^<\s*v?(\d+)/\<close>: the first group\<close>
  "ltMatch version =
     (case version of
        c # cs \<Rightarrow>
          if c = CHR ''<'' then
            (let major = takeWhile isDigit (optionalV (dropWhile isWhiteSpace cs))
             in if major = [] then None else Some major)
          else None
      | [] \<Rightarrow> None)"

definition noRequirement :: NodeRequirement where
  "noRequirement = \<lparr> minMajor = None, maxMajor = None, exact = None \<rparr>"

definition parseNodeVersionRequirement :: "string \<Rightarrow> NodeRequirement" where
  "parseNodeVersionRequirement version =
     (case exactMatch version of
        Some m \<Rightarrow> noRequirement\<lparr> exact := Some (parseInt m) \<rparr>
      | None \<Rightarrow>
          (case rangeMatch version of
             Some m \<Rightarrow> noRequirement\<lparr> minMajor := Some (parseInt m) \<rparr>
           | None \<Rightarrow>
               (case ltMatch version of
                  Some m \<Rightarrow> noRequirement\<lparr> maxMajor := Some (int (parseInt m) - 1) \<rparr>
                | None \<Rightarrow> noRequirement)))"

definition initialReport :: CompatibilityReport where
  "initialReport =
     \<lparr> canRun = True, issues = [], warnings = [], suggestions = [], nodeVersion = None,
       hasNativeDeps = False, hasGitSshDeps = False, frameworkDetected = None \<rparr>"

definition webContainerNodeVersion :: nat where
  "webContainerNodeVersion = 18"

definition isAbove :: "nat option \<Rightarrow> nat \<Rightarrow> bool" where
  \<comment> \<open>\<open>x && x > bound\<close> for an optional number\<close>
  "isAbove x bound = (case x of None \<Rightarrow> False | Some n \<Rightarrow> n \<noteq> 0 \<and> n > bound)"

definition isBelow :: "nat option \<Rightarrow> nat \<Rightarrow> bool" where
  \<comment> \<open>\<open>x && x < bound\<close> for an optional number\<close>
  "isBelow x bound = (case x of None \<Rightarrow> False | Some n \<Rightarrow> n \<noteq> 0 \<and> n < bound)"

definition versionWarnings :: "string \<Rightarrow> string list" where
  \<comment> \<open>what the three \<open>if\<close>s of the version check push to \<open>report.warnings\<close>\<close>
  "versionWarnings version =
     (let req = parseNodeVersionRequirement version in
      (if isAbove (minMajor req) webContainerNodeVersion
       then [''Project requires Node.js '' @ version @ '', WebContainers run Node 18''] else []) @
      (if isAbove (exact req) webContainerNodeVersion
       then [''Project targets Node.js '' @ showNat (the (exact req)) @ '', WebContainers run Node 18'']
       else []) @
      (if isBelow (exact req) 14
       then [''Project targets old Node.js '' @ showNat (the (exact req)) @ '' - some APIs may differ'']
       else []))"

definition checkNodeVersion ::
  "FileSystemTree \<Rightarrow> json \<Rightarrow> CompatibilityReport \<Rightarrow> js_error + CompatibilityReport" where
  \<comment> \<open>"Check Node.js version requirements": \<open>version.match\<close> throws a TypeError when the
      truthy \<open>report.nodeVersion\<close> is not a string\<close>
  "checkNodeVersion tree pkg report =
     (case extractNodeVersion tree pkg of
        None \<Rightarrow> Inr (report\<lparr> nodeVersion := None \<rparr>)
      | Some (JStr version) \<Rightarrow>
          if version = [] then Inr (report\<lparr> nodeVersion := Some version \<rparr>)
          else Inr (report\<lparr> nodeVersion := Some version,
                            warnings := warnings report @ versionWarnings version \<rparr>)
      | Some v \<Rightarrow> if truthy v then Inl TypeError else Inr report)"

definition nativeStep :: "string list \<Rightarrow> CompatibilityReport \<Rightarrow> CompatibilityReport" where
  "nativeStep nativeNames report =
     (if length nativeNames > 0 then
        report\<lparr> hasNativeDeps := True,
                warnings := warnings report @
                  [''Native packages detected: '' @ join '', '' (take 3 nativeNames) @
                   (if length nativeNames > 3 then ''...'' else [])],
                suggestions := suggestions report @
                  [''Some packages may not work - they require native compilation''] \<rparr>
      else report)"

definition gitSshStep :: "string list \<Rightarrow> CompatibilityReport \<Rightarrow> CompatibilityReport" where
  "gitSshStep gs report =
     (if length gs > 0 then
        report\<lparr> hasGitSshDeps := True,
                canRun := False,
                issues := issues report @
                  [''Git+SSH dependencies not supported: '' @ join '', '' gs],
                suggestions := suggestions report @
                  [''Replace git+ssh dependencies with npm packages or HTTPS URLs''] \<rparr>
      else report)"

definition peerStep :: "string list \<Rightarrow> CompatibilityReport \<Rightarrow> CompatibilityReport" where
  "peerStep pt report =
     (if length pt \<ge> 3 then
        report\<lparr> suggestions := suggestions report @
                  [''May need --legacy-peer-deps if install fails''] \<rparr>
      else report)"

definition devScriptNames :: "string list" where
  "devScriptNames = [''dev'', ''start'', ''serve'', ''develop'']"

definition scriptsStep :: "json \<Rightarrow> CompatibilityReport \<Rightarrow> CompatibilityReport" where
  "scriptsStep pkg report =
     (case getProp pkg ''scripts'' of
        None \<Rightarrow>
          report\<lparr> warnings := warnings report @ [''No scripts in package.json''],
                  suggestions := suggestions report @
                    [''Add a 'dev' or 'start' script to run the project''] \<rparr>
      | Some scripts \<Rightarrow>
          if \<not> truthy scripts then
            report\<lparr> warnings := warnings report @ [''No scripts in package.json''],
                    suggestions := suggestions report @
                      [''Add a 'dev' or 'start' script to run the project''] \<rparr>
          else if \<not> (\<exists>s \<in> set devScriptNames. truthyProp scripts s) then
            report\<lparr> warnings := warnings report @ [''No dev/start script found''],
                    suggestions := suggestions report @
                      [''Add a 'dev' or 'start' script to package.json''] \<rparr>
          else report)"

definition noManifestReport :: CompatibilityReport where
  "noManifestReport =
     initialReport\<lparr> warnings := [''No package.json found - may not be a Node.js project''] \<rparr>"

definition checkManifest ::
  "FileSystemTree \<Rightarrow> json \<Rightarrow> js_error + CompatibilityReport" where
  \<comment> \<open>\<open>checkCompatibility\<close> from "Check Node.js version requirements" on\<close>
  "checkManifest tree pkg =
     (case checkNodeVersion tree pkg initialReport of
        Inl e \<Rightarrow> Inl e
      | Inr report \<Rightarrow>
          (case analyzeDependencies pkg of
             Inl e \<Rightarrow> Inl e
           | Inr d \<Rightarrow>
               Inr (scriptsStep pkg
                     ((peerStep (peerTrouble d) (gitSshStep (gitSsh d) (nativeStep (native d) report)))
                        \<lparr> frameworkDetected := detectFramework (allDeps d) \<rparr>))))"

definition checkCompatibility ::
  "(string \<Rightarrow> json option) \<Rightarrow> FileSystemTree \<Rightarrow> ProjectType \<Rightarrow> js_error + CompatibilityReport" where
  \<comment> \<open>\<open>Inl\<close> is an exception leaving the function\<close>
  "checkCompatibility parse tree projectType =
     (if projectType \<noteq> Nodejs then
        (if projectType = Static then
           Inr (initialReport\<lparr> suggestions := [''Static site will be served with Express''] \<rparr>)
         else
           Inr (initialReport\<lparr> canRun := False,
                  issues := [projectTypeName projectType @ '' projects cannot run in WebContainers''],
                  suggestions := [''Use cloud deployment for full execution''] \<rparr>))
      else
        (case extractPackageJson parse tree of
           None \<Rightarrow> Inr noManifestReport
         | Some pkg \<Rightarrow> if \<not> truthy pkg then Inr noManifestReport else checkManifest tree pkg))"

record DevServerConfig =
  args :: "string list"
  env :: "(string \<times> string) list option"

definition getDevServerConfig :: "string option \<Rightarrow> DevServerConfig" where
  "getDevServerConfig framework =
     (if framework = Some ''Vite'' then
        \<lparr> args = [''run'', ''dev'', ''--'', ''--host'', ''0.0.0.0''], env = None \<rparr>
      else if framework = Some ''Create React App'' then
        \<lparr> args = [''run'', ''start''],
          env = Some [(''HOST'', ''0.0.0.0''), (''PORT'', ''3000''), (''BROWSER'', ''none'')] \<rparr>
      else if framework = Some ''Next.js'' then
        \<lparr> args = [''run'', ''dev'', ''--'', ''-H'', ''0.0.0.0''],
          env = Some [(''NEXT_TELEMETRY_DISABLED'', ''1'')] \<rparr>
      else if framework = Some ''Vue CLI'' then
        \<lparr> args = [''run'', ''serve'', ''--'', ''--host'', ''0.0.0.0''], env = None \<rparr>
      else if framework = Some ''Angular CLI'' then
        \<lparr> args = [''run'', ''start'', ''--'', ''--host'', ''0.0.0.0''], env = None \<rparr>
      else if framework = Some ''Nuxt'' then
        \<lparr> args = [''run'', ''dev'', ''--'', ''--host'', ''0.0.0.0''],
          env = Some [(''NUXT_TELEMETRY_DISABLED'', ''1'')] \<rparr>
      else if framework = Some ''SvelteKit'' then
        \<lparr> args = [''run'', ''dev'', ''--'', ''--host'', ''0.0.0.0''], env = None \<rparr>
      else if framework = Some ''Remix'' then
        \<lparr> args = [''run'', ''dev''], env = None \<rparr>
      else if framework = Some ''Astro'' then
        \<lparr> args = [''run'', ''dev'', ''--'', ''--host'', ''0.0.0.0''], env = None \<rparr>
      else if framework = Some ''Gatsby'' then
        \<lparr> args = [''run'', ''develop'', ''--'', ''-H'', ''0.0.0.0''],
          env = Some [(''GATSBY_TELEMETRY_DISABLED'', ''1'')] \<rparr>
      else
        \<lparr> args = [''run'', ''dev''], env = None \<rparr>)"

subsection \<open>What a manifest declares\<close>

fun isJStr :: "json \<Rightarrow> bool" where
  "isJStr (JStr s) = True"
| "isJStr v = False"

definition sectionEntries :: "json \<Rightarrow> string \<Rightarrow> (string \<times> json) list" where
  \<comment> \<open>the name/version pairs the scan visits in one section\<close>
  "sectionEntries pkg sec =
     (case getProp pkg sec of
        None \<Rightarrow> []
      | Some deps \<Rightarrow> if truthy deps then objectEntries deps else [])"

definition declaredDeps :: "json \<Rightarrow> (string \<times> json) list" where
  \<comment> \<open>every declared package with its version, over the three sections in order\<close>
  "declaredDeps pkg = concat (map (sectionEntries pkg) sections)"

definition isGitSshEntry :: "string \<times> json \<Rightarrow> bool" where
  "isGitSshEntry e = (case snd e of JStr v \<Rightarrow> isGitSshVersion v | _ \<Rightarrow> False)"

definition wellTypedManifest :: "FileSystemTree \<Rightarrow> json \<Rightarrow> bool" where
  \<comment> \<open>the manifest has the types the checker's casts take for granted: every declared
      version is a string, and so is the Node version, if there is one\<close>
  "wellTypedManifest tree pkg =
     ((case extractNodeVersion tree pkg of None \<Rightarrow> True | Some v \<Rightarrow> isJStr v) \<and>
      list_all (\<lambda>e. isJStr (snd e)) (declaredDeps pkg))"

definition gitSshIssue :: "string list \<Rightarrow> string" where
  "gitSshIssue names = ''Git+SSH dependencies not supported: '' @ join '', '' names"

subsection \<open>Example manifests\<close>

definition svnSshText :: string where
  "svnSshText = ''{\"dependencies\":{\"a\":\"svn+ssh://host/repo\"},\"scripts\":{\"dev\":\"vite\"}}''"

definition svnSshManifest :: json where
  "svnSshManifest =
     JObj [(''dependencies'', JObj [(''a'', JStr ''svn+ssh://host/repo'')]),
           (''scripts'', JObj [(''dev'', JStr ''vite'')])]"

definition gitSshText :: string where
  "gitSshText =
     ''{\"dependencies\":{\"leftpad\":\"git+ssh://git@github.com/x/y.git\",\"vite\":\"^5.0.0\"},\"devDependencies\":{\"tool\":\"ssh://host/tool.git\"}}''"

definition gitSshManifest :: json where
  "gitSshManifest =
     JObj [(''dependencies'',
             JObj [(''leftpad'', JStr ''git+ssh://git@github.com/x/y.git''),
                   (''vite'', JStr ''^5.0.0'')]),
           (''devDependencies'', JObj [(''tool'', JStr ''ssh://host/tool.git'')])]"

definition numericVersionText :: string where
  "numericVersionText = ''{\"dependencies\":{\"left-pad\":1}}''"

definition numericVersionManifest :: json where
  "numericVersionManifest = JObj [(''dependencies'', JObj [(''left-pad'', JNum 1)])]"

definition numericEngineText :: string where
  "numericEngineText = ''{\"engines\":{\"node\":18}}''"

definition numericEngineManifest :: json where
  "numericEngineManifest = JObj [(''engines'', JObj [(''node'', JNum 18)])]"

definition exampleParse :: "string \<Rightarrow> json option" where
  \<comment> \<open>\<open>JSON.parse\<close> on the example texts; it throws on every other text used below\<close>
  "exampleParse =
     map_of [(svnSshText, svnSshManifest), (gitSshText, gitSshManifest),
             (numericVersionText, numericVersionManifest),
             (numericEngineText, numericEngineManifest)]"

definition manifestTree :: "string \<Rightarrow> FileSystemTree" where
  \<comment> \<open>a repository holding just a package.json with the given text\<close>
  "manifestTree content = [(''package.json'', FileNode content)]"

subsection \<open>The shapes of version strings\<close>

definition digits :: "string \<Rightarrow> bool" where
  \<comment> \<open>\<open>N\<close>: one or more decimal digits\<close>
  "digits d = (d \<noteq> [] \<and> list_all isDigit d)"

definition noDigitAhead :: "string \<Rightarrow> bool" where
  "noDigitAhead rest = (case rest of [] \<Rightarrow> True | c # cs \<Rightarrow> \<not> isDigit c)"

definition optV :: "string \<Rightarrow> bool" where
  \<comment> \<open>\<open>v?\<close>\<close>
  "optV p = (p = [] \<or> p = ''v'')"

definition minorPatch :: "string \<Rightarrow> bool" where
  \<comment> \<open>at most two further components \<open>.N\<close>\<close>
  "minorPatch s =
     (s = [] \<or> (\<exists>d2. digits d2 \<and> s = ''.'' @ d2) \<or>
      (\<exists>d2 d3. digits d2 \<and> digits d3 \<and> s = ''.'' @ d2 @ ''.'' @ d3))"

definition engineText :: string where
  "engineText = ''{\"engines\":{\"node\":\">=20\"},\"dependencies\":{\"vite\":\"^5.0.0\"},\"scripts\":{\"dev\":\"vite\"}}''"

definition engineManifest :: json where
  "engineManifest =
     JObj [(''engines'', JObj [(''node'', JStr ''>=20'')]),
           (''dependencies'', JObj [(''vite'', JStr ''^5.0.0'')]),
           (''scripts'', JObj [(''dev'', JStr ''vite'')])]"

definition engineParse :: "string \<Rightarrow> json option" where
  \<comment> \<open>\<open>JSON.parse\<close> on \<open>engineText\<close>\<close>
  "engineParse = map_of [(engineText, engineManifest)]"

section \<open>The orchestrator (webcontainer.ts)\<close>

subsection \<open>Output classifiers\<close>

fun anywhere :: "(string \<Rightarrow> bool) \<Rightarrow> string \<Rightarrow> bool" where
  \<comment> \<open>an unanchored expression matches when it matches at some position\<close>
  "anywhere P [] = P []"
| "anywhere P (c # cs) = (P (c # cs) \<or> anywhere P cs)"

definition lit :: "string \<Rightarrow> (string \<Rightarrow> bool) \<Rightarrow> string \<Rightarrow> bool" where
  \<comment> \<open>the literal \<open>p\<close> here, then \<open>P\<close> on what follows\<close>
  "lit p P s = (startsWith s p \<and> P (drop (length p) s))"

definition digitHere :: "string \<Rightarrow> bool" where
  \<comment> \<open>\<open>\d+\<close> here\<close>
  "digitHere s = (case s of [] \<Rightarrow> False | c # cs \<Rightarrow> isDigit c)"

definition spacesThen :: "(string \<Rightarrow> bool) \<Rightarrow> string \<Rightarrow> bool" where
  \<comment> \<open>\<open>\s+\<close> here, then \<open>P\<close>, for a \<open>P\<close> that cannot start with white space\<close>
  "spacesThen P s =
     (case s of [] \<Rightarrow> False | c # cs \<Rightarrow> isWhiteSpace c \<and> P (dropWhile isWhiteSpace cs))"

fun anyThen :: "(string \<Rightarrow> bool) \<Rightarrow> string \<Rightarrow> bool" where
  \<comment> \<open>\<open>.*\<close> here, then \<open>P\<close>\<close>
  "anyThen P [] = P []"
| "anyThen P (c # cs) = (P (c # cs) \<or> (\<not> isLineTerminator c \<and> anyThen P cs))"

definition hasPeerDepError :: "string \<Rightarrow> bool" where
  "hasPeerDepError output =
     list_ex (includesIgnoreCase output)
       [''eresolve'', ''peer dep'', ''could not resolve dependency'',
        ''conflicting peer dependency'', ''unable to resolve dependency tree'']"

definition hasPostInstallError :: "string \<Rightarrow> bool" where
  "hasPostInstallError output =
     (list_ex (includesIgnoreCase output)
        [''postinstall'', ''node-pre-gyp'', ''node-gyp'', ''prebuild-install'']
      \<or> anywhere (lit ''enoent'' (anyThen (\<lambda>s. startsWith s ''binding.gyp''))) (map toLowerAscii output)
      \<or> includesIgnoreCase output ''gyp err!'')"

definition readyPatterns :: "(string \<Rightarrow> bool) list" where
  \<comment> \<open>the seven expressions, each on the lower-cased text (all carry the \<open>i\<close> flag); the
      seventh starts with the arrow U+279C, a code unit no modelled text holds\<close>
  "readyPatterns =
     [anywhere (lit ''localhost:'' digitHere),
      anywhere (lit ''127.0.0.1:'' digitHere),
      anywhere (lit ''listening on '' (\<lambda>s. digitHere s \<or> lit ''port '' digitHere s)),
      anywhere (lit ''server ''
        (\<lambda>s. list_ex (startsWith s) [''running'', ''started'', ''ready''] \<or>
              lit ''is '' (\<lambda>t. list_ex (startsWith t) [''running'', ''started'', ''ready'']) s)),
      anywhere (lit ''ready in '' digitHere),
      anywhere (lit ''local:'' (spacesThen (\<lambda>s. startsWith s ''http''))),
      (\<lambda>s. False)]"

definition matchesReadyPattern :: "string \<Rightarrow> bool" where
  "matchesReadyPattern data = list_ex (\<lambda>pattern. pattern (map toLowerAscii data)) readyPatterns"

subsection \<open>Reading the manifest\<close>

definition hasGitSshDependencies :: "json \<Rightarrow> bool" where
  \<comment> \<open>skips every value that is not a string\<close>
  "hasGitSshDependencies pkg =
     list_ex (\<lambda>sec.
        case getProp pkg sec of
          None \<Rightarrow> False
        | Some deps \<Rightarrow> truthy deps \<and> list_ex isGitSshEntry (objectEntries deps))
       sections"

definition scriptsOf :: "json \<Rightarrow> json" where
  \<comment> \<open>\<open>pkg.scripts || {}\<close>\<close>
  "scriptsOf pkg =
     (case getProp pkg ''scripts'' of
        None \<Rightarrow> JObj []
      | Some s \<Rightarrow> if truthy s then s else JObj [])"

definition usableScript :: "json \<Rightarrow> string \<Rightarrow> bool" where
  \<comment> \<open>\<open>typeof value === "string" && value.trim().length > 0\<close>\<close>
  "usableScript scripts script =
     (case getProp scripts script of Some (JStr v) \<Rightarrow> trim v \<noteq> [] | _ \<Rightarrow> False)"

definition devScripts :: "string list" where
  "devScripts = [''dev'', ''start'', ''serve'', ''develop'', ''watch'']"

fun firstUsable :: "json \<Rightarrow> string list \<Rightarrow> string option" where
  \<comment> \<open>the \<open>for\<close> loop of \<open>findDevScript\<close>\<close>
  "firstUsable scripts [] = None"
| "firstUsable scripts (script # rest) =
     (if usableScript scripts script then Some script else firstUsable scripts rest)"

definition findDevScript :: "json option \<Rightarrow> string option" where
  \<comment> \<open>the argument is what \<open>readJsonFile(container, "package.json")\<close> returned, \<open>None\<close> for null\<close>
  "findDevScript read =
     (case read of
        None \<Rightarrow> None
      | Some pkg \<Rightarrow> if \<not> truthy pkg then None else firstUsable (scriptsOf pkg) devScripts)"

subsection \<open>Framework detection\<close>

record FrameworkConfig = DevServerConfig +
  name :: "string option"

definition depsValue :: "json \<Rightarrow> string \<Rightarrow> json option" where
  \<comment> \<open>\<open>deps[k]\<close> for \<open>deps = { ...pkg.dependencies, ...pkg.devDependencies }\<close>: the later
      spread wins\<close>
  "depsValue pkg k =
     (case (case getProp pkg ''devDependencies'' of None \<Rightarrow> None | Some dd \<Rightarrow> getProp dd k) of
        Some v \<Rightarrow> Some v
      | None \<Rightarrow> (case getProp pkg ''dependencies'' of None \<Rightarrow> None | Some d \<Rightarrow> getProp d k))"

definition hasDep :: "json \<Rightarrow> string \<Rightarrow> bool" where
  \<comment> \<open>\<open>if (deps[k])\<close>\<close>
  "hasDep pkg k = (case depsValue pkg k of None \<Rightarrow> False | Some v \<Rightarrow> truthy v)"

definition devScriptName :: "json \<Rightarrow> string option" where
  "devScriptName pkg = find (\<lambda>s. truthyProp (scriptsOf pkg) s) devScriptNames"

definition baseArgs :: "json \<Rightarrow> string list" where
  "baseArgs pkg = (case devScriptName pkg of Some s \<Rightarrow> [''run'', s] | None \<Rightarrow> [''run'', ''dev''])"

definition detectFrameworkConfig :: "json option \<Rightarrow> FrameworkConfig" where
  "detectFrameworkConfig read =
     (case read of
        None \<Rightarrow> \<lparr> args = [''run'', ''dev''], env = None, name = None \<rparr>
      | Some pkg \<Rightarrow>
          if \<not> truthy pkg then \<lparr> args = [''run'', ''dev''], env = None, name = None \<rparr>
          else if hasDep pkg ''vite'' then
            \<lparr> args = baseArgs pkg @ [''--'', ''--host'', ''0.0.0.0''], env = None,
              name = Some ''Vite'' \<rparr>
          else if hasDep pkg ''react-scripts'' then
            \<lparr> args = baseArgs pkg,
              env = Some [(''HOST'', ''0.0.0.0''), (''PORT'', ''3000''), (''BROWSER'', ''none'')],
              name = Some ''Create React App'' \<rparr>
          else if hasDep pkg ''next'' then
            \<lparr> args = baseArgs pkg @ [''--'', ''-H'', ''0.0.0.0''],
              env = Some [(''NEXT_TELEMETRY_DISABLED'', ''1'')], name = Some ''Next.js'' \<rparr>
          else if hasDep pkg ''@vue/cli-service'' then
            \<lparr> args = baseArgs pkg @ [''--'', ''--host'', ''0.0.0.0''], env = None,
              name = Some ''Vue CLI'' \<rparr>
          else if hasDep pkg ''@angular/cli'' \<or> hasDep pkg ''@angular-devkit/build-angular'' then
            \<lparr> args = baseArgs pkg @ [''--'', ''--host'', ''0.0.0.0''], env = None,
              name = Some ''Angular CLI'' \<rparr>
          else if hasDep pkg ''nuxt'' \<or> hasDep pkg ''nuxt3'' then
            \<lparr> args = baseArgs pkg @ [''--'', ''--host'', ''0.0.0.0''],
              env = Some [(''NUXT_TELEMETRY_DISABLED'', ''1'')], name = Some ''Nuxt'' \<rparr>
          else if hasDep pkg ''@sveltejs/kit'' then
            \<lparr> args = baseArgs pkg @ [''--'', ''--host'', ''0.0.0.0''], env = None,
              name = Some ''SvelteKit'' \<rparr>
          else if hasDep pkg ''@remix-run/dev'' then
            \<lparr> args = baseArgs pkg, env = None, name = Some ''Remix'' \<rparr>
          else if hasDep pkg ''astro'' then
            \<lparr> args = baseArgs pkg @ [''--'', ''--host'', ''0.0.0.0''], env = None,
              name = Some ''Astro'' \<rparr>
          else if hasDep pkg ''gatsby'' then
            \<lparr> args = baseArgs pkg @ [''--'', ''-H'', ''0.0.0.0''],
              env = Some [(''GATSBY_TELEMETRY_DISABLED'', ''1'')], name = Some ''Gatsby'' \<rparr>
          else if hasDep pkg ''parcel'' \<or> hasDep pkg ''parcel-bundler'' then
            \<lparr> args = baseArgs pkg @ [''--'', ''--host'', ''0.0.0.0''], env = None,
              name = Some ''Parcel'' \<rparr>
          else if hasDep pkg ''express'' \<or> hasDep pkg ''fastify'' \<or> hasDep pkg ''koa'' \<or>
                  hasDep pkg ''hapi'' then
            \<lparr> args = baseArgs pkg,
              env = Some [(''PORT'', ''3000''), (''HOST'', ''0.0.0.0'')],
              name = Some (if hasDep pkg ''express'' then ''Express''
                           else if hasDep pkg ''fastify'' then ''Fastify''
                           else if hasDep pkg ''koa'' then ''Koa'' else ''Hapi'') \<rparr>
          else if hasDep pkg ''webpack-dev-server'' then
            \<lparr> args = baseArgs pkg, env = Some [(''HOST'', ''0.0.0.0'')], name = Some ''Webpack'' \<rparr>
          else \<lparr> args = baseArgs pkg, env = None, name = None \<rparr>)"

subsection \<open>Callbacks, processes and the container\<close>

datatype ContainerStatus = Idle | Booting | Mounting | Installing | Running | Ready | Error

text \<open>
  Terminal text is either data a process wrote, passed through, or a line of the
  orchestrator's own. The latter are ANSI-coloured and start with symbols outside ASCII;
  a \<open>Notice\<close> gives their wording without the colour codes and symbols.
\<close>

datatype terminal = Data string | Notice string

text \<open>
  What a run does to the outside, in order: the four callbacks of \<open>ContainerCallbacks\<close>
  it invokes and the processes it asks the container to spawn (command, arguments,
  environment). \<open>createBufferedOutput\<close> may hold text back for some milliseconds and
  merge it with what follows, in the same order; an \<open>OnOutput\<close> stands where the text is
  written.
\<close>

datatype event =
    OnStatusChange ContainerStatus
  | OnOutput terminal
  | OnServerReady string
  | OnError string
  | Spawn string "string list" "(string \<times> string) list option"

text \<open>
  How \<open>runCommandWithTimeout\<close> ends: the process exits with a code, having passed some text
  to its \<open>onOutput\<close> (the process's output and the time-based hints), all of it before
  the exit is seen; or the promise rejects (a timeout, a failed spawn) with a message, after
  some text.
\<close>

datatype cmd_result = Exited int string | Rejected string string

text \<open>
  The container as \<open>startDevServer\<close> meets it: what the two reads of package.json return
  (\<open>None\<close> when the file is missing or does not parse), whether package-lock.json can be
  read, how each \<open>npm\<close> invocation of the install phase ends (the five invocations have
  five different argument lists), and whether spawning the dev server rejects.
\<close>

record Container =
  packageJson :: "json option"
  hasPackageLock :: bool
  runNpm :: "string list \<Rightarrow> cmd_result"
  packageJsonAfterInstall :: "json option"
  spawnRejects :: "string option"

subsection \<open>The install phase\<close>

record InstallState =
  installExitCode :: int
  installOutput :: string
  thrown :: "string option"
  trail :: "event list"

definition npmCi :: "string list" where
  "npmCi = [''ci'', ''--no-audit'', ''--no-fund'']"

definition npmInstall :: "string list" where
  "npmInstall = [''install'', ''--no-audit'', ''--no-fund'']"

definition npmLegacyPeerDeps :: "string list" where
  "npmLegacyPeerDeps = [''install'', ''--legacy-peer-deps'', ''--no-audit'', ''--no-fund'']"

definition npmForce :: "string list" where
  "npmForce = [''install'', ''--force'', ''--no-audit'', ''--no-fund'']"

definition npmIgnoreScripts :: "string list" where
  "npmIgnoreScripts =
     [''install'', ''--ignore-scripts'', ''--legacy-peer-deps'', ''--no-audit'', ''--no-fund'']"

definition attempt :: "Container \<Rightarrow> string list \<Rightarrow> bool \<Rightarrow> InstallState \<Rightarrow> InstallState" where
  \<comment> \<open>\<open>installExitCode = await runCommandWithTimeout(container, "npm", argv, sink, ...)\<close>;
      \<open>capture\<close> says the sink is \<open>captureOutput\<close>, which appends to \<open>installOutput\<close>, and
      not just \<open>print\<close>\<close>
  "attempt c argv capture st =
     (case runNpm c argv of
        Exited code out \<Rightarrow>
          st\<lparr> installExitCode := code,
               installOutput := (if capture then installOutput st @ out else installOutput st),
               trail := trail st @ [Spawn ''npm'' argv None, OnOutput (Data out)] \<rparr>
      | Rejected out message \<Rightarrow>
          st\<lparr> installOutput := (if capture then installOutput st @ out else installOutput st),
               thrown := Some message,
               trail := trail st @ [Spawn ''npm'' argv None, OnOutput (Data out)] \<rparr>)"

definition say :: "string \<Rightarrow> InstallState \<Rightarrow> InstallState" where
  \<comment> \<open>\<open>print(...)\<close> of a line of the orchestrator's own\<close>
  "say line st = st\<lparr> trail := trail st @ [OnOutput (Notice line)] \<rparr>"

definition strategy1 :: "Container \<Rightarrow> InstallState \<Rightarrow> InstallState" where
  "strategy1 c st =
     (if thrown st \<noteq> None then st
      else if hasPackageLock c then
        attempt c npmCi True (say ''Running npm ci (using package-lock.json)...'' st)
      else st)"

definition strategy2 :: "Container \<Rightarrow> InstallState \<Rightarrow> InstallState" where
  "strategy2 c st =
     (if thrown st \<noteq> None then st
      else if installExitCode st \<noteq> 0 then
        attempt c npmInstall True (say ''Running npm install...'' (st\<lparr> installOutput := [] \<rparr>))
      else st)"

definition strategy3 :: "Container \<Rightarrow> InstallState \<Rightarrow> InstallState" where
  "strategy3 c st =
     (if thrown st \<noteq> None then st
      else if installExitCode st \<noteq> 0 \<and> hasPeerDepError (installOutput st) then
        attempt c npmLegacyPeerDeps True
          ((say ''Peer dependency conflict detected, retrying with --legacy-peer-deps...'' st)
             \<lparr> installOutput := [] \<rparr>)
      else st)"

definition strategy4 :: "Container \<Rightarrow> InstallState \<Rightarrow> InstallState" where
  "strategy4 c st =
     (if thrown st \<noteq> None then st
      else if installExitCode st \<noteq> 0 then
        attempt c npmForce True
          ((say ''Install failed, trying with --force...'' st)\<lparr> installOutput := [] \<rparr>)
      else st)"

definition strategy5 :: "Container \<Rightarrow> InstallState \<Rightarrow> InstallState" where
  "strategy5 c st =
     (if thrown st \<noteq> None then st
      else if installExitCode st \<noteq> 0 \<and> hasPostInstallError (installOutput st) then
        attempt c npmIgnoreScripts False
          (say ''Postinstall script failed, trying with --ignore-scripts...'' st)
      else st)"

definition installPhase :: "Container \<Rightarrow> InstallState" where
  \<comment> \<open>from \<open>onStatusChange("installing")\<close> to the end of strategy 5; an exception skips
      everything up to the \<open>catch\<close>\<close>
  "installPhase c =
     strategy5 c (strategy4 c (strategy3 c (strategy2 c (strategy1 c
       \<lparr> installExitCode = - 1, installOutput = [], thrown = None,
         trail = [OnStatusChange Installing] \<rparr>))))"

fun spawnedArgs :: "event list \<Rightarrow> string list list" where
  \<comment> \<open>the argument lists of the \<open>npm\<close> processes spawned, in order\<close>
  "spawnedArgs [] = []"
| "spawnedArgs (Spawn cmd argv ev # rest) = argv # spawnedArgs rest"
| "spawnedArgs (e # rest) = spawnedArgs rest"

definition installAttempts :: "Container \<Rightarrow> string list list" where
  "installAttempts c = spawnedArgs (trail (installPhase c))"

definition exitedNonZero :: "cmd_result \<Rightarrow> bool" where
  "exitedNonZero r = (case r of Exited code out \<Rightarrow> code \<noteq> 0 | Rejected out message \<Rightarrow> False)"

definition exitedZero :: "cmd_result \<Rightarrow> bool" where
  "exitedZero r = (case r of Exited code out \<Rightarrow> code = 0 | Rejected out message \<Rightarrow> False)"

definition failedWith :: "(string \<Rightarrow> bool) \<Rightarrow> cmd_result \<Rightarrow> bool" where
  \<comment> \<open>exited non-zero, and the text of this attempt alone matches\<close>
  "failedWith classify r =
     (case r of Exited code out \<Rightarrow> code \<noteq> 0 \<and> classify out | Rejected out message \<Rightarrow> False)"

definition ladder :: "string list list" where
  "ladder = [npmCi, npmInstall, npmLegacyPeerDeps, npmForce, npmIgnoreScripts]"

subsection \<open>\<open>startDevServer\<close> up to the spawn of the dev server\<close>

record Setup =
  events :: "event list"
  serverSpawned :: bool

definition startDevServer :: "Container \<Rightarrow> Setup" where
  \<comment> \<open>the body of the \<open>try\<close> up to \<open>await container.spawn("npm", serverArgs, ...)\<close>, and the
      \<open>catch\<close>. \<open>serverArgs\<close> is \<open>frameworkConfig.args || ["run", devScript]\<close>, and an array
      is never falsy.\<close>
  "startDevServer c =
     (if (case packageJson c of None \<Rightarrow> False | Some pkg \<Rightarrow> truthy pkg \<and> hasGitSshDependencies pkg)
      then
        \<lparr> events =
            [OnStatusChange Error,
             OnError ''This project uses git+ssh dependencies (e.g. git@... or ssh://...). Those can't be installed in the in-browser container.'',
             OnOutput (Notice ''Unsupported dependency source detected (git+ssh).'')],
          serverSpawned = False \<rparr>
      else
        (let st = installPhase c in
         case thrown st of
           Some message \<Rightarrow>
             \<lparr> events = trail st @ [OnError message, OnStatusChange Error], serverSpawned = False \<rparr>
         | None \<Rightarrow>
             if installExitCode st \<noteq> 0 then
               \<lparr> events = trail st @
                   [OnError (''Dependency install failed (exit code '' @ showInt (installExitCode st) @
                             ''). Check terminal for details.''),
                    OnStatusChange Error],
                 serverSpawned = False \<rparr>
             else
               (case findDevScript (packageJsonAfterInstall c) of
                  None \<Rightarrow>
                    \<lparr> events = trail st @
                        [OnOutput (Notice ''Dependencies installed successfully!''),
                         OnError ''No dev/start script found in package.json. The project needs a 'dev', 'start', or 'serve' script.'',
                         OnStatusChange Error],
                      serverSpawned = False \<rparr>
                | Some devScript \<Rightarrow>
                    (let frameworkConfig = detectFrameworkConfig (packageJson c);
                         started = trail st @
                           [OnOutput (Notice ''Dependencies installed successfully!''),
                            OnStatusChange Running,
                            OnOutput (Notice (''Running npm '' @ join '' '' (args frameworkConfig) @
                              (case name frameworkConfig of
                                 Some n \<Rightarrow> if n = [] then [] else '' ('' @ n @ '' detected)''
                               | None \<Rightarrow> []) @ ''...'')),
                            Spawn ''npm'' (args frameworkConfig) (env frameworkConfig)]
                     in case spawnRejects c of
                          Some message \<Rightarrow>
                            \<lparr> events = started @ [OnError message, OnStatusChange Error],
                              serverSpawned = False \<rparr>
                        | None \<Rightarrow> \<lparr> events = started, serverSpawned = True \<rparr>))))"

subsection \<open>The listeners of a run\<close>

text \<open>
  The closure state of one call of \<open>startDevServer\<close>: the latch, whether the 45 second
  timer is pending, how many 2 second grace timers are pending, and the callbacks invoked
  so far. JavaScript runs each listener to its end before the next, so a run is the
  sequence of the signals it receives.
\<close>

record RunState =
  serverReadyFired :: bool
  serverReadyTimeout :: bool
  graceTimers :: nat
  emitted :: "event list"

datatype signal =
    ServerReady int string
  | ServerOutput string
  | GraceTimer
  | ReadyTimeout
  | ServerExit int

definition emit :: "event list \<Rightarrow> RunState \<Rightarrow> RunState" where
  "emit es st = st\<lparr> emitted := emitted st @ es \<rparr>"

definition isLoopback :: "string \<Rightarrow> bool" where
  "isLoopback url = (startsWith url ''http://localhost'' \<or> startsWith url ''http://127.0.0.1'')"

definition handleServerReady :: "string \<Rightarrow> int \<Rightarrow> RunState \<Rightarrow> RunState" where
  \<comment> \<open>of \<open>startDevServer\<close>\<close>
  "handleServerReady url port st =
     (if serverReadyFired st then st
      else if isLoopback url then
        emit [OnOutput (Notice (''Detected localhost URL ('' @ url @ '') - waiting for external URL...''))] st
      else
        emit [OnOutput (Notice (''Server ready'' @
                (if port \<noteq> 0 then '' on port '' @ showInt port else []))),
              OnServerReady url,
              OnStatusChange Ready]
          (st\<lparr> serverReadyFired := True, serverReadyTimeout := False \<rparr>))"

definition onServerOutput :: "string \<Rightarrow> RunState \<Rightarrow> RunState" where
  \<comment> \<open>the \<open>write\<close> of the stream the server's output is piped to\<close>
  "onServerOutput chunk st =
     (let st1 = emit [OnOutput (Data chunk)] st in
      if \<not> serverReadyFired st1 \<and> matchesReadyPattern chunk
      then st1\<lparr> graceTimers := Suc (graceTimers st1) \<rparr>
      else st1)"

definition onGraceTimer :: "RunState \<Rightarrow> RunState" where
  \<comment> \<open>a pending 2 second timer fires\<close>
  "onGraceTimer st =
     (if graceTimers st = 0 then st
      else
        (let st1 = st\<lparr> graceTimers := graceTimers st - 1 \<rparr> in
         if \<not> serverReadyFired st1 then
           emit [OnOutput (Notice ''Server appears ready but no external URL detected yet...''),
                 OnOutput (Notice ''Waiting for WebContainer to expose the port...'')] st1
         else st1))"

definition onReadyTimeout :: "RunState \<Rightarrow> RunState" where
  \<comment> \<open>the 45 second timer fires, unless it was cleared\<close>
  "onReadyTimeout st =
     (if \<not> serverReadyTimeout st then st
      else
        (let st1 = st\<lparr> serverReadyTimeout := False \<rparr> in
         if \<not> serverReadyFired st1 then
           emit [OnOutput (Notice ''Server is taking longer than expected to expose a URL...''),
                 OnOutput (Notice ''Try these in the terminal:''),
                 OnOutput (Notice ''For Vite: npm run dev -- --host 0.0.0.0''),
                 OnOutput (Notice ''For CRA: HOST=0.0.0.0 npm start''),
                 OnOutput (Notice ''Check the terminal output above for errors.'')] st1
         else st1))"

definition onServerExit :: "int \<Rightarrow> RunState \<Rightarrow> RunState" where
  \<comment> \<open>\<open>serverProcess.exit.then((code) => ...)\<close>\<close>
  "onServerExit code st =
     (let st1 = st\<lparr> serverReadyTimeout := False \<rparr> in
      if code \<noteq> 0 \<and> \<not> serverReadyFired st1 then
        emit [OnError (''Dev server exited with code '' @ showInt code @ ''. Check terminal for details.''),
              OnStatusChange Error] st1
      else st1)"

fun devSignal :: "signal \<Rightarrow> RunState \<Rightarrow> RunState" where
  "devSignal (ServerReady port url) st = handleServerReady url port st"
| "devSignal (ServerOutput chunk) st = onServerOutput chunk st"
| "devSignal GraceTimer st = onGraceTimer st"
| "devSignal ReadyTimeout st = onReadyTimeout st"
| "devSignal (ServerExit code) st = onServerExit code st"

text \<open>
  A whole run of \<open>startDevServer\<close>. The server-ready listener is registered first, so a
  server-ready event can arrive at any \<open>await\<close> of the set-up; the other listeners and
  the 45 second timer exist once the dev server is spawned. A schedule says, step by step,
  whether the set-up goes on to its next callback or a signal is delivered. (The set-up
  neither reads the latch nor shares anything else with the listeners.)
\<close>

datatype action = Advance | Deliver signal

record Run =
  pending :: "event list"
  spawned :: bool
  listening :: bool
  state :: RunState

definition initialRunState :: RunState where
  "initialRunState =
     \<lparr> serverReadyFired = False, serverReadyTimeout = False, graceTimers = 0, emitted = [] \<rparr>"

definition startRun :: "Container \<Rightarrow> Run" where
  "startRun c =
     \<lparr> pending = events (startDevServer c), spawned = serverSpawned (startDevServer c),
       listening = False, state = initialRunState \<rparr>"

fun isServerReady :: "signal \<Rightarrow> bool" where
  "isServerReady (ServerReady port url) = True"
| "isServerReady s = False"

fun runStep :: "Run \<Rightarrow> action \<Rightarrow> Run" where
  "runStep r Advance =
     (case pending r of
        [] \<Rightarrow> r
      | e # rest \<Rightarrow>
          if rest = [] \<and> spawned r then
            r\<lparr> pending := [], listening := True,
                state := (emit [e] (state r))\<lparr> serverReadyTimeout := True \<rparr> \<rparr>
          else r\<lparr> pending := rest, state := emit [e] (state r) \<rparr>)"
| "runStep r (Deliver s) =
     (if isServerReady s \<or> listening r then r\<lparr> state := devSignal s (state r) \<rparr> else r)"

definition runDevServer :: "Container \<Rightarrow> action list \<Rightarrow> event list" where
  \<comment> \<open>the callbacks and spawns of a run under a schedule\<close>
  "runDevServer c schedule = emitted (state (foldl runStep (startRun c) schedule))"

definition readyNotifications :: "event list \<Rightarrow> nat" where
  \<comment> \<open>how often \<open>onServerReady\<close> was called\<close>
  "readyNotifications es = length (filter (\<lambda>e. case e of OnServerReady url \<Rightarrow> True | _ \<Rightarrow> False) es)"

definition readyTransitions :: "event list \<Rightarrow> nat" where
  \<comment> \<open>how often \<open>onStatusChange("ready")\<close> was called\<close>
  "readyTransitions es = length (filter (\<lambda>e. e = OnStatusChange Ready) es)"

subsection \<open>The listeners of \<open>serveStaticSite\<close>\<close>

text \<open>
  The same closure state; \<open>graceTimers\<close> counts the pending 500 millisecond timers and
  \<open>serverReadyTimeout\<close> is the 30 second timer. All listeners are attached after the
  static server is spawned.
\<close>

definition staticHandleServerReady :: "string \<Rightarrow> int \<Rightarrow> RunState \<Rightarrow> RunState" where
  \<comment> \<open>\<open>handleServerReady\<close> of \<open>serveStaticSite\<close>: no test of the URL\<close>
  "staticHandleServerReady url port st =
     (if serverReadyFired st then st
      else
        emit [OnOutput (Notice (''Static server ready'' @
                (if port \<noteq> 0 then '' on port '' @ showInt port else []))),
              OnServerReady url,
              OnStatusChange Ready]
          (st\<lparr> serverReadyFired := True, serverReadyTimeout := False \<rparr>))"

definition staticReadyPattern :: "string \<Rightarrow> bool" where
  \<comment> \<open>\<open>/available on|listening/i\<close>\<close>
  "staticReadyPattern data =
     (includesIgnoreCase data ''available on'' \<or> includesIgnoreCase data ''listening'')"

definition staticOnOutput :: "string \<Rightarrow> RunState \<Rightarrow> RunState" where
  "staticOnOutput chunk st =
     (let st1 = emit [OnOutput (Data chunk)] st in
      if \<not> serverReadyFired st1 \<and> staticReadyPattern chunk
      then st1\<lparr> graceTimers := Suc (graceTimers st1) \<rparr>
      else st1)"

definition staticOnGraceTimer :: "RunState \<Rightarrow> RunState" where
  \<comment> \<open>a pending 500 millisecond timer fires\<close>
  "staticOnGraceTimer st =
     (if graceTimers st = 0 then st
      else
        (let st1 = st\<lparr> graceTimers := graceTimers st - 1 \<rparr> in
         if \<not> serverReadyFired st1 then staticHandleServerReady ''http://localhost:3000'' 3000 st1
         else st1))"

definition staticOnReadyTimeout :: "RunState \<Rightarrow> RunState" where
  "staticOnReadyTimeout st =
     (if \<not> serverReadyTimeout st then st
      else
        (let st1 = st\<lparr> serverReadyTimeout := False \<rparr> in
         if \<not> serverReadyFired st1 then
           emit [OnOutput (Notice ''Static server taking longer than expected...'')] st1
         else st1))"

definition staticOnServerExit :: "int \<Rightarrow> RunState \<Rightarrow> RunState" where
  "staticOnServerExit code st =
     (let st1 = st\<lparr> serverReadyTimeout := False \<rparr> in
      if code \<noteq> 0 \<and> \<not> serverReadyFired st1 then
        emit [OnError (''Static server exited with code '' @ showInt code @ ''.''),
              OnStatusChange Error] st1
      else st1)"

fun staticSignal :: "signal \<Rightarrow> RunState \<Rightarrow> RunState" where
  "staticSignal (ServerReady port url) st = staticHandleServerReady url port st"
| "staticSignal (ServerOutput chunk) st = staticOnOutput chunk st"
| "staticSignal GraceTimer st = staticOnGraceTimer st"
| "staticSignal ReadyTimeout st = staticOnReadyTimeout st"
| "staticSignal (ServerExit code) st = staticOnServerExit code st"

definition staticListening :: RunState where
  \<comment> \<open>\<open>serveStaticSite\<close> once the server is spawned and the listeners are attached\<close>
  "staticListening = initialRunState\<lparr> serverReadyTimeout := True \<rparr>"

subsection \<open>Tear-down\<close>

text \<open>
  The module's variables. A handle is known by a number; of the container it is also
  recorded whether its own \<open>teardown()\<close> throws, which is for the library to say.
\<close>

record WebContainer =
  handle :: nat
  teardownThrows :: bool

record Session =
  webcontainerInstance :: "WebContainer option"
  bootPromise :: "nat option"
  shellProcess :: "nat option"
  shellWriter :: "nat option"
  shellOutputCallback :: "nat option"

datatype effect = CloseWriter nat | TeardownContainer nat

record TeardownResult =
  after :: Session
  effects :: "effect list"
  threw :: bool

definition teardownWebContainer :: "Session \<Rightarrow> TeardownResult" where
  \<comment> \<open>\<open>shellWriter.close()\<close> is inside a \<open>try\<close> with an empty \<open>catch\<close>;
      \<open>webcontainerInstance.teardown()\<close> is not, and the two assignments after it are
      skipped when it throws\<close>
  "teardownWebContainer s =
     (let closed = (case shellWriter s of Some w \<Rightarrow> [CloseWriter w] | None \<Rightarrow> []);
          s1 = s\<lparr> shellWriter := None, shellProcess := None, shellOutputCallback := None \<rparr>
      in case webcontainerInstance s1 of
           None \<Rightarrow> \<lparr> after = s1, effects = closed, threw = False \<rparr>
         | Some container \<Rightarrow>
             if teardownThrows container then
               \<lparr> after = s1, effects = closed @ [TeardownContainer (handle container)],
                 threw = True \<rparr>
             else
               \<lparr> after = s1\<lparr> webcontainerInstance := None, bootPromise := None \<rparr>,
                 effects = closed @ [TeardownContainer (handle container)], threw = False \<rparr>)"

definition cleared :: Session where
  "cleared =
     \<lparr> webcontainerInstance = None, bootPromise = None, shellProcess = None,
       shellWriter = None, shellOutputCallback = None \<rparr>"

subsection \<open>Vocabulary of the properties\<close>

fun announcesReady :: "event \<Rightarrow> bool" where
  \<comment> \<open>one of the two halves of the ready notification\<close>
  "announcesReady (OnServerReady url) = True"
| "announcesReady (OnStatusChange status) = (status = Ready)"
| "announcesReady e = False"

fun loopbackOnly :: "action \<Rightarrow> bool" where
  \<comment> \<open>not a server-ready event with a URL other than a loopback one\<close>
  "loopbackOnly (Deliver (ServerReady port url)) = isLoopback url"
| "loopbackOnly a = True"

definition afterSignals :: "(signal \<Rightarrow> RunState \<Rightarrow> RunState) \<Rightarrow> RunState \<Rightarrow> signal list \<Rightarrow> RunState" where
  \<comment> \<open>the listeners' state after a sequence of signals\<close>
  "afterSignals handler st signals = foldl (\<lambda>s x. handler x s) st signals"

definition latched :: "RunState \<Rightarrow> bool" where
  \<comment> \<open>each half of the ready notification was emitted once if the latch has fired, and
      never otherwise\<close>
  "latched st \<longleftrightarrow>
     readyNotifications (emitted st) = (if serverReadyFired st then 1 else 0) \<and>
     readyTransitions (emitted st) = (if serverReadyFired st then 1 else 0)"

definition quiet :: "event list \<Rightarrow> bool" where
  \<comment> \<open>no event is a half of the ready notification\<close>
  "quiet es = list_all (\<lambda>e. \<not> announcesReady e) es"

definition runInvariant :: "Run \<Rightarrow> bool" where
  "runInvariant r \<longleftrightarrow> latched (state r) \<and> quiet (pending r)"

fun forwarded :: "signal \<Rightarrow> event list" where
  \<comment> \<open>the server's output is passed to the terminal whatever the latch says\<close>
  "forwarded (ServerOutput chunk) = [OnOutput (Data chunk)]"
| "forwarded s = []"

definition viteSchedule :: "action list" where
  \<comment> \<open>the set-up runs to the spawn (eight callbacks and spawns); then a loopback event, an
      event with an outside URL, a chunk of output that matches a ready pattern, the same
      event again, the grace timer, and the exit of the server with code 1\<close>
  "viteSchedule =
     replicate 8 Advance @
     [Deliver (ServerReady 5173 ''http://localhost:5173''),
      Deliver (ServerReady 5173 ''https://k3.local-credentialless.webcontainer.io''),
      Deliver (ServerOutput ''  Local:   http://localhost:5173/''),
      Deliver (ServerReady 5173 ''https://k3.local-credentialless.webcontainer.io''),
      Deliver GraceTimer,
      Deliver (ServerExit 1)]"

definition readyState :: RunState where
  \<comment> \<open>the listeners' state once an outside URL has latched\<close>
  "readyState =
     handleServerReady ''https://k3.local-credentialless.webcontainer.io'' 5173
       (initialRunState\<lparr> serverReadyTimeout := True \<rparr>)"

definition ladderAttempts :: "Container \<Rightarrow> string list list" where
  \<comment> \<open>the ladder in words: the lockfile-aware command if there is a lockfile; then, each only
      after a non-zero exit of the attempt before it, the plain command, the legacy-peer-deps
      command if the plain attempt's own text shows a peer conflict, the forced command, and
      the ignore-scripts command if the forced attempt's own text shows a failed build\<close>
  "ladderAttempts c =
     (if hasPackageLock c then [npmCi] else []) @
     (if hasPackageLock c \<and> \<not> exitedNonZero (runNpm c npmCi) then []
      else
        [npmInstall] @
        (if \<not> exitedNonZero (runNpm c npmInstall) then []
         else
           (if failedWith hasPeerDepError (runNpm c npmInstall) then [npmLegacyPeerDeps] else []) @
           (if failedWith hasPeerDepError (runNpm c npmInstall) \<and>
               \<not> exitedNonZero (runNpm c npmLegacyPeerDeps) then []
            else
              [npmForce] @
              (if failedWith hasPostInstallError (runNpm c npmForce) then [npmIgnoreScripts]
               else []))))"

definition reachesScriptLookup :: "Container \<Rightarrow> bool" where
  \<comment> \<open>the pre-flight test passes and the install phase ends with exit code 0\<close>
  "reachesScriptLookup c \<longleftrightarrow>
     \<not> (case packageJson c of None \<Rightarrow> False | Some pkg \<Rightarrow> truthy pkg \<and> hasGitSshDependencies pkg) \<and>
     thrown (installPhase c) = None \<and> installExitCode (installPhase c) = 0"

definition firstOf :: "('a \<Rightarrow> bool) \<Rightarrow> 'a list \<Rightarrow> 'a \<Rightarrow> bool" where
  \<comment> \<open>\<open>x\<close> is the first element of the list, in its order, that satisfies \<open>P\<close>\<close>
  "firstOf P xs x \<longleftrightarrow>
     (\<exists>before rest. xs = before @ x # rest \<and> P x \<and> (\<forall>y \<in> set before. \<not> P y))"

definition noScriptError :: string where
  "noScriptError =
     ''No dev/start script found in package.json. The project needs a 'dev', 'start', or 'serve' script.''"

definition teardownSafe :: "Session \<Rightarrow> bool" where
  \<comment> \<open>the library's \<open>teardown()\<close> of the live container, if there is one, does not throw\<close>
  "teardownSafe s =
     (case webcontainerInstance s of None \<Rightarrow> True | Some container \<Rightarrow> \<not> teardownThrows container)"

definition bootingSession :: Session where
  \<comment> \<open>\<open>bootWebContainer\<close> has set \<open>bootPromise\<close> and awaits it; a shell is not running\<close>
  "bootingSession =
     \<lparr> webcontainerInstance = None, bootPromise = Some 1, shellProcess = None,
       shellWriter = None, shellOutputCallback = None \<rparr>"

definition liveSession :: Session where
  \<comment> \<open>a booted container with an interactive shell\<close>
  "liveSession =
     \<lparr> webcontainerInstance = Some \<lparr> handle = 7, teardownThrows = False \<rparr>, bootPromise = Some 1,
       shellProcess = Some 2, shellWriter = Some 3, shellOutputCallback = Some 4 \<rparr>"

definition hardcodedScript :: "string \<Rightarrow> string option" where
  \<comment> \<open>the script name \<open>getDevServerConfig\<close> writes into the arguments of each framework it
      knows\<close>
  "hardcodedScript framework =
     map_of [(''Vite'', ''dev''), (''Create React App'', ''start''), (''Next.js'', ''dev''),
             (''Vue CLI'', ''serve''), (''Angular CLI'', ''start''), (''Nuxt'', ''dev''),
             (''SvelteKit'', ''dev''), (''Remix'', ''dev''), (''Astro'', ''dev''),
             (''Gatsby'', ''develop'')] framework"

definition scriptWritten :: "string option \<Rightarrow> string" where
  \<comment> \<open>the script name in the arguments \<open>getDevServerConfig\<close> returns: \<open>dev\<close> in the default
      case\<close>
  "scriptWritten framework =
     (case framework of
        None \<Rightarrow> ''dev''
      | Some f \<Rightarrow> (case hardcodedScript f of Some s \<Rightarrow> s | None \<Rightarrow> ''dev''))"

definition hostFrameworks :: "string list" where
  \<comment> \<open>the names for which \<open>getDevServerConfig\<close> appends \<open>-- --host 0.0.0.0\<close> and sets no
      environment\<close>
  "hostFrameworks = [''Vite'', ''Vue CLI'', ''Angular CLI'', ''SvelteKit'', ''Astro'']"

definition envFrameworks :: "string list" where
  \<comment> \<open>the names for which \<open>getDevServerConfig\<close> sets an environment of their own\<close>
  "envFrameworks = [''Create React App'', ''Next.js'', ''Nuxt'', ''Gatsby'']"

definition sameRow :: "string option \<Rightarrow> string option \<Rightarrow> bool" where
  \<comment> \<open>the name \<open>f\<close> has in \<open>getDevServerConfig\<close> the host arguments and the environment
      that the name \<open>g\<close> has in \<open>detectFrameworkConfig\<close>\<close>
  "sameRow f g =
     (f \<in> set (map Some hostFrameworks) \<and> g \<in> set (map Some (hostFrameworks @ [''Parcel''])) \<or>
      f \<in> set (map Some envFrameworks) \<and> g = f \<or>
      f \<notin> set (map Some (hostFrameworks @ envFrameworks)) \<and> (g = Some ''Remix'' \<or> g = None))"

definition expressText :: string where
  "expressText = ''{\"dependencies\":{\"express\":\"^4.18.2\"},\"scripts\":{\"start\":\"node index.js\"}}''"

definition expressManifest :: json where
  "expressManifest =
     JObj [(''dependencies'', JObj [(''express'', JStr ''^4.18.2'')]),
           (''scripts'', JObj [(''start'', JStr ''node index.js'')])]"

definition nestText :: string where
  "nestText = ''{\"dependencies\":{\"@nestjs/core\":\"^10.0.0\"},\"scripts\":{\"dev\":\"nest start --watch\"}}''"

definition nestManifest :: json where
  "nestManifest =
     JObj [(''dependencies'', JObj [(''@nestjs/core'', JStr ''^10.0.0'')]),
           (''scripts'', JObj [(''dev'', JStr ''nest start --watch'')])]"

definition viteText :: string where
  "viteText = ''{\"dependencies\":{\"vite\":\"^5.0.0\"},\"scripts\":{\"dev\":\"vite\"}}''"

subsection \<open>Example containers\<close>

definition viteManifest :: json where
  "viteManifest =
     JObj [(''dependencies'', JObj [(''vite'', JStr ''^5.0.0'')]),
           (''scripts'', JObj [(''dev'', JStr ''vite'')])]"

definition viteContainer :: Container where
  \<comment> \<open>a Vite project with a lockfile whose \<open>npm ci\<close> succeeds\<close>
  "viteContainer =
     \<lparr> packageJson = Some viteManifest, hasPackageLock = True,
       runNpm = (\<lambda>argv. Exited 0 ''added 12 packages''),
       packageJsonAfterInstall = Some viteManifest, spawnRejects = None \<rparr>"

definition watchManifest :: json where
  "watchManifest = JObj [(''scripts'', JObj [(''watch'', JStr ''tsc -w'')])]"

definition watchContainer :: Container where
  \<comment> \<open>a project whose only script is \<open>watch\<close>; no lockfile, \<open>npm install\<close> succeeds\<close>
  "watchContainer =
     \<lparr> packageJson = Some watchManifest, hasPackageLock = False,
       runNpm = (\<lambda>argv. Exited 0 ''up to date''),
       packageJsonAfterInstall = Some watchManifest, spawnRejects = None \<rparr>"

definition buildManifest :: json where
  "buildManifest = JObj [(''scripts'', JObj [(''build'', JStr ''tsc''), (''dev'', JStr ''  '')])]"

definition buildContainer :: Container where
  \<comment> \<open>a project with no usable dev script; no lockfile, \<open>npm install\<close> succeeds\<close>
  "buildContainer =
     \<lparr> packageJson = Some buildManifest, hasPackageLock = False,
       runNpm = (\<lambda>argv. Exited 0 ''up to date''),
       packageJsonAfterInstall = Some buildManifest, spawnRejects = None \<rparr>"

definition stubbornContainer :: Container where
  \<comment> \<open>every install attempt fails; the plain one reports a peer conflict, the forced one a
      failing node-gyp build\<close>
  "stubbornContainer =
     \<lparr> packageJson = Some viteManifest, hasPackageLock = True,
       runNpm = (\<lambda>argv.
         if argv = npmInstall then Exited 1 ''npm ERR! code ERESOLVE''
         else if argv = npmForce then Exited 1 ''gyp ERR! build error''
         else Exited 1 ''npm ERR!''),
       packageJsonAfterInstall = Some viteManifest, spawnRejects = None \<rparr>"

definition frameworkParse :: "string \<Rightarrow> json option" where
  \<comment> \<open>\<open>JSON.parse\<close> on the three texts\<close>
  "frameworkParse =
     map_of [(expressText, expressManifest), (viteText, viteManifest), (nestText, nestManifest)]"

section \<open>Properties of the pre-flight checker\<close>

subsection \<open>Strings\<close>

lemma startsWith_iff: "startsWith s p \<longleftrightarrow> (\<exists>b. s = p @ b)"
  unfolding startsWith_def
  by (metis append_eq_conv_conj append_take_drop_id)

lemma includesStr_iff: "includesStr s p \<longleftrightarrow> (\<exists>a b. s = a @ p @ b)"
proof (induction s)
  case Nil
  then show ?case by auto
next
  case (Cons c cs)
  show ?case
  proof
    assume "includesStr (c # cs) p"
    then consider "startsWith (c # cs) p" | "includesStr cs p" by auto
    then show "\<exists>a b. c # cs = a @ p @ b"
    proof cases
      case 1
      then obtain b where "c # cs = p @ b" using startsWith_iff by blast
      then have "c # cs = [] @ p @ b" by simp
      then show ?thesis by blast
    next
      case 2
      then obtain a b where "cs = a @ p @ b" using Cons.IH by blast
      then have "c # cs = (c # a) @ p @ b" by simp
      then show ?thesis by blast
    qed
  next
    assume "\<exists>a b. c # cs = a @ p @ b"
    then obtain a b where ab: "c # cs = a @ p @ b" by blast
    show "includesStr (c # cs) p"
    proof (cases a)
      case Nil
      with ab have "startsWith (c # cs) p" using startsWith_iff by auto
      then show ?thesis by simp
    next
      case (Cons x a')
      with ab have "cs = a' @ p @ b" by simp
      then have "includesStr cs p" using Cons.IH by blast
      then show ?thesis by simp
    qed
  qed
qed

lemma join_member: "x \<in> set xs \<Longrightarrow> \<exists>a b. join sep xs = a @ x @ b"
proof (induction sep xs rule: join.induct)
  case (1 sep)
  then show ?case by simp
next
  case (2 sep y)
  then have "join sep [y] = [] @ x @ []" by simp
  then show ?case by blast
next
  case (3 sep y z zs)
  show ?case
  proof (cases "x = y")
    case True
    then have "join sep (y # z # zs) = [] @ x @ (sep @ join sep (z # zs))" by simp
    then show ?thesis by blast
  next
    case False
    with 3 obtain a b where "join sep (z # zs) = a @ x @ b" by auto
    then have "join sep (y # z # zs) = (y @ sep @ a) @ x @ b" by simp
    then show ?thesis by blast
  qed
qed

lemma includesStr_join: "x \<in> set xs \<Longrightarrow> includesStr (pre @ join sep xs) x"
proof -
  assume "x \<in> set xs"
  then obtain a b where "join sep xs = a @ x @ b" using join_member by blast
  then have "pre @ join sep xs = (pre @ a) @ x @ b" by simp
  then show ?thesis unfolding includesStr_iff by blast
qed

subsection \<open>The dependency scan\<close>

lemma analyzeEntries_total:
  "list_all (\<lambda>e. isJStr (snd e)) es \<Longrightarrow> \<exists>acc'. analyzeEntries es acc = Inr acc'"
  by (induction es arbitrary: acc) (auto split: json.splits)

lemma analyzeEntries_strings:
  "analyzeEntries es acc = Inr acc' \<Longrightarrow> list_all (\<lambda>e. isJStr (snd e)) es"
  by (induction es arbitrary: acc) (auto split: json.splits)

lemma analyzeEntries_gitSsh:
  "analyzeEntries es acc = Inr acc' \<Longrightarrow>
   gitSsh acc' = gitSsh acc @ map fst (filter isGitSshEntry es)"
  by (induction es arbitrary: acc) (auto simp: isGitSshEntry_def split: json.splits)

lemma analyzeEntries_allDeps:
  "analyzeEntries es acc = Inr acc' \<Longrightarrow> allDeps acc' = allDeps acc @ map fst es"
  by (induction es arbitrary: acc) (auto split: json.splits)

lemma analyzeSections_total:
  "list_all (\<lambda>e. isJStr (snd e)) (concat (map (sectionEntries pkg) secs)) \<Longrightarrow>
   \<exists>acc'. analyzeSections pkg secs acc = Inr acc'"
proof (induction secs arbitrary: acc)
  case Nil
  then show ?case by simp
next
  case (Cons sec secs)
  from Cons.prems have here: "list_all (\<lambda>e. isJStr (snd e)) (sectionEntries pkg sec)"
    and rest: "list_all (\<lambda>e. isJStr (snd e)) (concat (map (sectionEntries pkg) secs))"
    by simp_all
  show ?case
  proof (cases "getProp pkg sec")
    case None
    then show ?thesis using Cons.IH [OF rest] by simp
  next
    case (Some deps)
    show ?thesis
    proof (cases "truthy deps")
      case False
      then show ?thesis using Some Cons.IH [OF rest] by simp
    next
      case True
      with Some here have "list_all (\<lambda>e. isJStr (snd e)) (objectEntries deps)"
        by (simp add: sectionEntries_def)
      then obtain acc1 where "analyzeEntries (objectEntries deps) acc = Inr acc1"
        using analyzeEntries_total by blast
      then show ?thesis using Some True Cons.IH [OF rest, of acc1] by simp
    qed
  qed
qed

lemma analyzeSections_result:
  "analyzeSections pkg secs acc = Inr acc' \<Longrightarrow>
   list_all (\<lambda>e. isJStr (snd e)) (concat (map (sectionEntries pkg) secs)) \<and>
   gitSsh acc' = gitSsh acc @ map fst (filter isGitSshEntry (concat (map (sectionEntries pkg) secs))) \<and>
   allDeps acc' = allDeps acc @ map fst (concat (map (sectionEntries pkg) secs))"
proof (induction secs arbitrary: acc)
  case Nil
  then show ?case by simp
next
  case (Cons sec secs)
  show ?case
  proof (cases "getProp pkg sec")
    case None
    then have "sectionEntries pkg sec = []" by (simp add: sectionEntries_def)
    moreover from None Cons.prems have "analyzeSections pkg secs acc = Inr acc'" by simp
    ultimately show ?thesis using Cons.IH by simp
  next
    case (Some deps)
    show ?thesis
    proof (cases "truthy deps")
      case False
      with Some have "sectionEntries pkg sec = []" by (simp add: sectionEntries_def)
      moreover from Some False Cons.prems have "analyzeSections pkg secs acc = Inr acc'" by simp
      ultimately show ?thesis using Cons.IH by simp
    next
      case True
      with Some have se: "sectionEntries pkg sec = objectEntries deps"
        by (simp add: sectionEntries_def)
      from Some True Cons.prems obtain acc1
        where a1: "analyzeEntries (objectEntries deps) acc = Inr acc1"
          and a2: "analyzeSections pkg secs acc1 = Inr acc'"
        by (auto split: sum.splits)
      show ?thesis
        using Cons.IH [OF a2] analyzeEntries_strings [OF a1] analyzeEntries_gitSsh [OF a1]
          analyzeEntries_allDeps [OF a1] se
        by simp
    qed
  qed
qed

lemma analyzeDependencies_total:
  "list_all (\<lambda>e. isJStr (snd e)) (declaredDeps pkg) \<Longrightarrow> \<exists>d. analyzeDependencies pkg = Inr d"
  unfolding analyzeDependencies_def declaredDeps_def by (rule analyzeSections_total)

lemma analyzeDependencies_result:
  assumes "analyzeDependencies pkg = Inr d"
  shows "list_all (\<lambda>e. isJStr (snd e)) (declaredDeps pkg)"
    and "gitSsh d = map fst (filter isGitSshEntry (declaredDeps pkg))"
    and "allDeps d = map fst (declaredDeps pkg)"
  using analyzeSections_result [OF assms [unfolded analyzeDependencies_def]]
  by (simp_all add: declaredDeps_def)

subsection \<open>The steps of the report\<close>

lemma extractNodeVersion_cases:
  "extractNodeVersion tree pkg = Some v \<Longrightarrow> isJStr v \<or> truthy v"
  by (auto simp: extractNodeVersion_def split: option.splits if_splits)

lemma checkNodeVersion_total:
  "(case extractNodeVersion tree pkg of None \<Rightarrow> True | Some v \<Rightarrow> isJStr v) \<longleftrightarrow>
   (\<exists>r. checkNodeVersion tree pkg report = Inr r)"
  using extractNodeVersion_cases [of tree pkg]
  by (cases "extractNodeVersion tree pkg")
     (auto simp: checkNodeVersion_def split: json.splits)

lemma checkNodeVersion_frame:
  assumes "checkNodeVersion tree pkg report = Inr r"
  shows "canRun r = canRun report" "issues r = issues report"
    "suggestions r = suggestions report" "hasNativeDeps r = hasNativeDeps report"
    "hasGitSshDeps r = hasGitSshDeps report" "frameworkDetected r = frameworkDetected report"
  using assms
  by (auto simp: checkNodeVersion_def split: option.splits json.splits if_splits)

lemma checkNodeVersion_warnings:
  assumes "checkNodeVersion tree pkg report = Inr r"
  shows "warnings r = warnings report @
           (case extractNodeVersion tree pkg of Some (JStr v) \<Rightarrow> versionWarnings v | _ \<Rightarrow> [])"
proof (cases "extractNodeVersion tree pkg")
  case None
  with assms show ?thesis by (auto simp: checkNodeVersion_def)
next
  case (Some v)
  show ?thesis
  proof (cases v)
    case (JStr s)
    have "versionWarnings [] = []" by code_simp
    with assms Some JStr show ?thesis
      by (cases "s = []") (auto simp: checkNodeVersion_def)
  qed (use assms Some in \<open>auto simp: checkNodeVersion_def split: if_splits\<close>)
qed

lemma nativeStep_frame:
  "canRun (nativeStep nv r) = canRun r" "issues (nativeStep nv r) = issues r"
  "hasGitSshDeps (nativeStep nv r) = hasGitSshDeps r"
  "\<exists>ws. warnings (nativeStep nv r) = warnings r @ ws"
  "\<exists>ss. suggestions (nativeStep nv r) = suggestions r @ ss"
  by (simp_all add: nativeStep_def)

lemma peerStep_frame:
  "canRun (peerStep pt r) = canRun r" "issues (peerStep pt r) = issues r"
  "hasGitSshDeps (peerStep pt r) = hasGitSshDeps r"
  "warnings (peerStep pt r) = warnings r"
  "\<exists>ss. suggestions (peerStep pt r) = suggestions r @ ss"
  by (simp_all add: peerStep_def)

lemma scriptsStep_frame:
  "canRun (scriptsStep pkg r) = canRun r" "issues (scriptsStep pkg r) = issues r"
  "hasGitSshDeps (scriptsStep pkg r) = hasGitSshDeps r"
  "frameworkDetected (scriptsStep pkg r) = frameworkDetected r"
  "\<exists>ws. warnings (scriptsStep pkg r) = warnings r @ ws"
  "\<exists>ss. suggestions (scriptsStep pkg r) = suggestions r @ ss"
  by (simp_all add: scriptsStep_def split: option.splits)

lemma gitSshStep_effect:
  "canRun (gitSshStep gs r) = (if gs = [] then canRun r else False)"
  "issues (gitSshStep gs r) = (if gs = [] then issues r else issues r @ [gitSshIssue gs])"
  "hasGitSshDeps (gitSshStep gs r) = (if gs = [] then hasGitSshDeps r else True)"
  "warnings (gitSshStep gs r) = warnings r"
  "suggestions (gitSshStep gs r) =
     (if gs = [] then suggestions r
      else suggestions r @ [''Replace git+ssh dependencies with npm packages or HTTPS URLs''])"
  by (simp_all add: gitSshStep_def gitSshIssue_def)

lemma frameworkDetected_frame:
  "canRun (r\<lparr> frameworkDetected := f \<rparr>) = canRun r"
  "issues (r\<lparr> frameworkDetected := f \<rparr>) = issues r"
  "hasGitSshDeps (r\<lparr> frameworkDetected := f \<rparr>) = hasGitSshDeps r"
  "warnings (r\<lparr> frameworkDetected := f \<rparr>) = warnings r"
  "suggestions (r\<lparr> frameworkDetected := f \<rparr>) = suggestions r"
  by simp_all

lemma checkManifest_total:
  "wellTypedManifest tree pkg \<longleftrightarrow> (\<exists>r. checkManifest tree pkg = Inr r)"
proof
  assume wt: "wellTypedManifest tree pkg"
  then obtain r1 where "checkNodeVersion tree pkg initialReport = Inr r1"
    using checkNodeVersion_total [of tree pkg initialReport] by (auto simp: wellTypedManifest_def)
  moreover from wt obtain d where "analyzeDependencies pkg = Inr d"
    using analyzeDependencies_total by (auto simp: wellTypedManifest_def)
  ultimately show "\<exists>r. checkManifest tree pkg = Inr r" by (simp add: checkManifest_def)
next
  assume "\<exists>r. checkManifest tree pkg = Inr r"
  then obtain r1 d where "checkNodeVersion tree pkg initialReport = Inr r1"
    and "analyzeDependencies pkg = Inr d"
    by (auto simp: checkManifest_def split: sum.splits)
  then show "wellTypedManifest tree pkg"
    using checkNodeVersion_total [of tree pkg initialReport] analyzeDependencies_result(1)
    by (auto simp: wellTypedManifest_def)
qed

lemma checkManifest_report:
  assumes "checkManifest tree pkg = Inr r"
  shows "canRun r = (filter isGitSshEntry (declaredDeps pkg) = [])"
    and "hasGitSshDeps r = (filter isGitSshEntry (declaredDeps pkg) \<noteq> [])"
    and "issues r = (if filter isGitSshEntry (declaredDeps pkg) = [] then []
                     else [gitSshIssue (map fst (filter isGitSshEntry (declaredDeps pkg)))])"
    and "frameworkDetected r = detectFramework (map fst (declaredDeps pkg))"
    and "filter isGitSshEntry (declaredDeps pkg) \<noteq> [] \<Longrightarrow>
         ''Replace git+ssh dependencies with npm packages or HTTPS URLs'' \<in> set (suggestions r)"
    and "\<exists>ws. warnings r =
           (case extractNodeVersion tree pkg of Some (JStr v) \<Rightarrow> versionWarnings v | _ \<Rightarrow> []) @ ws"
proof -
  from assms obtain r1 d where r1: "checkNodeVersion tree pkg initialReport = Inr r1"
    and d: "analyzeDependencies pkg = Inr d"
    and r: "r = scriptsStep pkg
                     ((peerStep (peerTrouble d) (gitSshStep (gitSsh d) (nativeStep (native d) r1)))
                        \<lparr> frameworkDetected := detectFramework (allDeps d) \<rparr>)"
    by (auto simp: checkManifest_def split: sum.splits)
  note fr = checkNodeVersion_frame [OF r1]
  note dd = analyzeDependencies_result [OF d]
  have init: "canRun initialReport" "issues initialReport = []" "\<not> hasGitSshDeps initialReport"
    "warnings initialReport = []"
    by (simp_all add: initialReport_def)
  show "canRun r = (filter isGitSshEntry (declaredDeps pkg) = [])"
    unfolding r scriptsStep_frame frameworkDetected_frame peerStep_frame gitSshStep_effect
      nativeStep_frame
    using fr dd init by simp
  show "hasGitSshDeps r = (filter isGitSshEntry (declaredDeps pkg) \<noteq> [])"
    unfolding r scriptsStep_frame frameworkDetected_frame peerStep_frame gitSshStep_effect
      nativeStep_frame
    using fr dd init by simp
  show "issues r = (if filter isGitSshEntry (declaredDeps pkg) = [] then []
                     else [gitSshIssue (map fst (filter isGitSshEntry (declaredDeps pkg)))])"
    unfolding r scriptsStep_frame frameworkDetected_frame peerStep_frame gitSshStep_effect
      nativeStep_frame
    using fr dd init by simp
  show "frameworkDetected r = detectFramework (map fst (declaredDeps pkg))"
    unfolding r scriptsStep_frame using dd by simp
  show "''Replace git+ssh dependencies with npm packages or HTTPS URLs'' \<in> set (suggestions r)"
    if ne: "filter isGitSshEntry (declaredDeps pkg) \<noteq> []"
  proof -
    let ?r2 = "gitSshStep (gitSsh d) (nativeStep (native d) r1)"
    from ne dd have "gitSsh d \<noteq> []" by simp
    then have "''Replace git+ssh dependencies with npm packages or HTTPS URLs''
                 \<in> set (suggestions ?r2)"
      by (simp add: gitSshStep_effect)
    moreover obtain s3 where "suggestions (peerStep (peerTrouble d) ?r2) = suggestions ?r2 @ s3"
      using peerStep_frame(5) by blast
    moreover obtain s4 where "suggestions r =
        suggestions ((peerStep (peerTrouble d) ?r2)\<lparr> frameworkDetected := detectFramework (allDeps d) \<rparr>) @ s4"
      unfolding r using scriptsStep_frame(6) by blast
    ultimately show ?thesis by (simp add: frameworkDetected_frame)
  qed
  show "\<exists>ws. warnings r =
           (case extractNodeVersion tree pkg of Some (JStr v) \<Rightarrow> versionWarnings v | _ \<Rightarrow> []) @ ws"
  proof -
    let ?vw = "case extractNodeVersion tree pkg of Some (JStr v) \<Rightarrow> versionWarnings v | _ \<Rightarrow> []"
    have w1: "warnings r1 = ?vw"
      using checkNodeVersion_warnings [OF r1] init by simp
    obtain w2 where w2: "warnings (nativeStep (native d) r1) = warnings r1 @ w2"
      using nativeStep_frame(4) by blast
    let ?r3 = "(peerStep (peerTrouble d) (gitSshStep (gitSsh d) (nativeStep (native d) r1)))
                 \<lparr> frameworkDetected := detectFramework (allDeps d) \<rparr>"
    have w3: "warnings ?r3 = warnings r1 @ w2"
      by (simp add: frameworkDetected_frame peerStep_frame gitSshStep_effect w2)
    obtain w4 where "warnings r = warnings ?r3 @ w4"
      unfolding r using scriptsStep_frame(5) by blast
    with w3 w1 have "warnings r = ?vw @ (w2 @ w4)" by simp
    then show ?thesis by blast
  qed
qed

subsection \<open>The patterns of a Node version requirement\<close>

lemma digit_not_v: "isDigit c \<Longrightarrow> c \<noteq> CHR ''v''"
  by (auto simp: isDigit_def)

lemma digit_not_space: "isDigit c \<Longrightarrow> \<not> isWhiteSpace c"
  by (auto simp: isDigit_def isWhiteSpace_def)

lemma v_not_space: "\<not> isWhiteSpace CHR ''v''" "\<not> isDigit CHR ''v''" "\<not> isDigit CHR ''.''"
  "\<not> isDigit CHR ''>''" "\<not> isDigit CHR ''<''" "\<not> isDigit CHR ''=''"
  "\<not> isWhiteSpace CHR ''=''"
  by (simp_all add: isDigit_def isWhiteSpace_def)

lemma takeWhile_digits:
  "list_all isDigit d \<Longrightarrow> noDigitAhead rest \<Longrightarrow>
   takeWhile isDigit (d @ rest) = d \<and> dropWhile isDigit (d @ rest) = rest"
  by (induction d) (auto simp: noDigitAhead_def split: list.splits)

lemma optionalV_shape:
  assumes "optV p" "digits d"
  shows "optionalV (p @ d @ rest) = d @ rest"
proof -
  from assms(2) obtain c cs where d: "d = c # cs" and c: "isDigit c"
    by (cases d) (auto simp: digits_def)
  from assms(1) consider "p = []" | "p = ''v''" by (auto simp: optV_def)
  then show ?thesis
  proof cases
    case 1
    then show ?thesis using d digit_not_v [OF c] by (simp add: optionalV_def)
  next
    case 2
    then show ?thesis by (simp add: optionalV_def)
  qed
qed

lemma dropWhile_space_shape:
  assumes "list_all isWhiteSpace ws" "optV p" "digits d"
  shows "dropWhile isWhiteSpace (ws @ p @ d @ rest) = p @ d @ rest"
proof -
  from assms(3) obtain c cs where d: "d = c # cs" and c: "isDigit c"
    by (cases d) (auto simp: digits_def)
  have "dropWhile isWhiteSpace (p @ d @ rest) = p @ d @ rest"
    using assms(2) d digit_not_space [OF c] v_not_space(1) by (auto simp: optV_def)
  moreover have "dropWhile isWhiteSpace (ws @ p @ d @ rest) = dropWhile isWhiteSpace (p @ d @ rest)"
    using assms(1) by (induction ws) auto
  ultimately show ?thesis by simp
qed

lemma dotDigits_shape:
  assumes "digits d" "noDigitAhead rest"
  shows "dotDigits (''.'' @ d @ rest) = Some rest"
  using assms takeWhile_digits [of d rest]
  by (auto simp: dotDigits_def digits_def)

lemma minorPatch_noDigitAhead: "minorPatch s \<Longrightarrow> noDigitAhead s"
  by (auto simp: minorPatch_def noDigitAhead_def v_not_space)

lemma exactMatch_unfold:
  assumes "optionalV v = x" "takeWhile isDigit x = d" "dropWhile isDigit x = rest" "d \<noteq> []"
  shows "exactMatch v =
           (if rest = [] then Some d
            else (case dotDigits rest of None \<Rightarrow> None
                  | Some rest2 \<Rightarrow> if rest2 = [] \<or> dotDigits rest2 = Some [] then Some d else None))"
  using assms by (auto simp: exactMatch_def Let_def split: option.splits)

lemma exactMatch_shape:
  assumes "optV p" "digits d" "minorPatch s"
  shows "exactMatch (p @ d @ s) = Some d"
proof -
  have ov: "optionalV (p @ d @ s) = d @ s" using assms optionalV_shape by blast
  have tw: "takeWhile isDigit (d @ s) = d" "dropWhile isDigit (d @ s) = s"
    using takeWhile_digits [of d s] assms minorPatch_noDigitAhead by (auto simp: digits_def)
  have dne: "d \<noteq> []" using assms(2) by (simp add: digits_def)
  have nil: "noDigitAhead []" by (simp add: noDigitAhead_def)
  from assms(3) consider "s = []" | d2 where "digits d2" "s = ''.'' @ d2"
    | d2 d3 where "digits d2" "digits d3" "s = ''.'' @ d2 @ ''.'' @ d3"
    by (auto simp: minorPatch_def)
  then show ?thesis
  proof cases
    case 1
    then show ?thesis using exactMatch_unfold [OF ov tw dne] by simp
  next
    case 2
    then have "dotDigits s = Some []" using dotDigits_shape [of d2 "[]"] nil by simp
    moreover have "s \<noteq> []" using 2 by simp
    ultimately show ?thesis using exactMatch_unfold [OF ov tw dne] by simp
  next
    case 3
    have "noDigitAhead (''.'' @ d3)" by (simp add: noDigitAhead_def v_not_space)
    then have "dotDigits s = Some (''.'' @ d3)"
      using 3 dotDigits_shape [of d2 "''.'' @ d3"] by simp
    moreover have "dotDigits (''.'' @ d3) = Some []"
      using 3 dotDigits_shape [of d3 "[]"] nil by simp
    moreover have "s \<noteq> []" using 3 by simp
    ultimately show ?thesis using exactMatch_unfold [OF ov tw dne] by simp
  qed
qed

lemma exactMatch_comparator:
  "exactMatch (CHR ''>'' # s) = None" "exactMatch (CHR ''<'' # s) = None"
  by (simp_all add: exactMatch_def optionalV_def Let_def v_not_space)

lemma rangeMatch_lt: "rangeMatch (CHR ''<'' # s) = None"
  by (simp add: rangeMatch_def)

lemma rangeMatch_shape:
  assumes "cmp = ''>='' \<or> cmp = ''>''" "list_all isWhiteSpace ws" "optV p" "digits d"
    "noDigitAhead rest"
  shows "rangeMatch (cmp @ ws @ p @ d @ rest) = Some d"
proof -
  from assms(4) obtain c cs where d: "d = c # cs" and c: "isDigit c"
    by (cases d) (auto simp: digits_def)
  have hd_ne: "\<And>t. ws @ p @ d @ rest = CHR ''='' # t \<Longrightarrow> False"
  proof -
    fix t assume eq: "ws @ p @ d @ rest = CHR ''='' # t"
    show False
    proof (cases ws)
      case (Cons w ws')
      with eq assms(2) show False using v_not_space(7) by auto
    next
      case Nil
      with eq assms(3) d c show False using v_not_space(6) by (auto simp: optV_def)
    qed
  qed
  have s1: "(case ws @ p @ d @ rest of [] \<Rightarrow> ws @ p @ d @ rest
              | x # xs \<Rightarrow> if x = CHR ''='' then xs else ws @ p @ d @ rest) = ws @ p @ d @ rest"
    using hd_ne by (auto split: list.splits)
  have core: "takeWhile isDigit (optionalV (dropWhile isWhiteSpace (ws @ p @ d @ rest))) = d"
    using dropWhile_space_shape [OF assms(2,3,4)] optionalV_shape [OF assms(3,4)]
      takeWhile_digits [of d rest] assms(4,5) by (simp add: digits_def)
  have dne: "d \<noteq> []" using d by simp
  from assms(1) show ?thesis
  proof
    assume "cmp = ''>=''"
    then show ?thesis using core dne by (simp add: rangeMatch_def Let_def)
  next
    assume "cmp = ''>''"
    then have "rangeMatch (cmp @ ws @ p @ d @ rest) =
      (let s1 = (case ws @ p @ d @ rest of [] \<Rightarrow> ws @ p @ d @ rest
              | x # xs \<Rightarrow> if x = CHR ''='' then xs else ws @ p @ d @ rest);
           major = takeWhile isDigit (optionalV (dropWhile isWhiteSpace s1))
       in if major = [] then None else Some major)"
      by (simp add: rangeMatch_def)
    then show ?thesis unfolding s1 using core dne by (simp add: Let_def)
  qed
qed

lemma ltMatch_shape:
  assumes "list_all isWhiteSpace ws" "optV p" "digits d" "noDigitAhead rest"
  shows "ltMatch (''<'' @ ws @ p @ d @ rest) = Some d"
proof -
  have core: "takeWhile isDigit (optionalV (dropWhile isWhiteSpace (ws @ p @ d @ rest))) = d"
    using dropWhile_space_shape [OF assms(1,2,3)] optionalV_shape [OF assms(2,3)]
      takeWhile_digits [of d rest] assms(3,4) by (simp add: digits_def)
  have dne: "d \<noteq> []" using assms(3) by (simp add: digits_def)
  show ?thesis using core dne by (simp add: ltMatch_def Let_def)
qed

lemma parse_exact_shape:
  "optV p \<Longrightarrow> digits d \<Longrightarrow> minorPatch s \<Longrightarrow>
   parseNodeVersionRequirement (p @ d @ s) = noRequirement\<lparr> exact := Some (parseInt d) \<rparr>"
  by (simp add: parseNodeVersionRequirement_def exactMatch_shape)

lemma parse_range_shape:
  assumes "cmp = ''>='' \<or> cmp = ''>''" "list_all isWhiteSpace ws" "optV p" "digits d"
    "noDigitAhead rest"
  shows "parseNodeVersionRequirement (cmp @ ws @ p @ d @ rest) =
           noRequirement\<lparr> minMajor := Some (parseInt d) \<rparr>"
proof -
  have "exactMatch (cmp @ ws @ p @ d @ rest) = None"
    using assms(1) exactMatch_comparator(1) by auto
  then show ?thesis
    using rangeMatch_shape [OF assms] by (simp add: parseNodeVersionRequirement_def)
qed

lemma parse_lt_shape:
  assumes "list_all isWhiteSpace ws" "optV p" "digits d" "noDigitAhead rest"
  shows "parseNodeVersionRequirement (''<'' @ ws @ p @ d @ rest) =
           noRequirement\<lparr> maxMajor := Some (int (parseInt d) - 1) \<rparr>"
proof -
  have "exactMatch (''<'' @ ws @ p @ d @ rest) = None" "rangeMatch (''<'' @ ws @ p @ d @ rest) = None"
    using exactMatch_comparator(2) rangeMatch_lt by auto
  then show ?thesis
    using ltMatch_shape [OF assms] by (simp add: parseNodeVersionRequirement_def)
qed

lemma optionalV_split: "\<exists>p. optV p \<and> v = p @ optionalV v"
  by (cases v) (auto simp: optionalV_def optV_def)

lemma digit_run:
  "list_all isDigit (takeWhile isDigit x)" "noDigitAhead (dropWhile isDigit x)"
proof -
  show "list_all isDigit (takeWhile isDigit x)"
    by (induction x) simp_all
  show "noDigitAhead (dropWhile isDigit x)"
    by (induction x) (simp_all add: noDigitAhead_def)
qed

lemma space_run: "list_all isWhiteSpace (takeWhile isWhiteSpace x)"
  by (induction x) simp_all

lemma dotDigits_Some:
  assumes "dotDigits s = Some r"
  shows "\<exists>d. digits d \<and> s = ''.'' @ d @ r"
proof -
  from assms obtain cs where s: "s = CHR ''.'' # cs" and ne: "takeWhile isDigit cs \<noteq> []"
    and r: "r = dropWhile isDigit cs"
    by (auto simp: dotDigits_def split: list.splits if_splits)
  have "digits (takeWhile isDigit cs)" using ne digit_run(1) by (simp add: digits_def)
  moreover have "s = ''.'' @ takeWhile isDigit cs @ r" using s r by simp
  ultimately show ?thesis by blast
qed

lemma exactMatch_Some:
  assumes "exactMatch v = Some d"
  shows "\<exists>p s. v = p @ d @ s \<and> optV p \<and> digits d \<and> minorPatch s"
proof -
  obtain p where p: "optV p" "v = p @ optionalV v" using optionalV_split by blast
  define x where "x = optionalV v"
  define rest where "rest = dropWhile isDigit x"
  have dne: "takeWhile isDigit x \<noteq> []"
    using assms by (auto simp: exactMatch_def Let_def x_def split: if_splits)
  have eq: "exactMatch v =
           (if rest = [] then Some (takeWhile isDigit x)
            else (case dotDigits rest of None \<Rightarrow> None
                  | Some rest2 \<Rightarrow> if rest2 = [] \<or> dotDigits rest2 = Some [] then Some (takeWhile isDigit x) else None))"
    using exactMatch_unfold [of v x "takeWhile isDigit x" rest] dne by (simp add: x_def rest_def)
  have d: "d = takeWhile isDigit x"
    using assms eq by (auto split: if_splits option.splits)
  have dg: "digits d" using d dne digit_run(1) by (simp add: digits_def)
  have v: "v = p @ d @ rest" using p(2) d by (simp add: x_def rest_def)
  have "minorPatch rest"
  proof (cases "rest = []")
    case True
    then show ?thesis by (simp add: minorPatch_def)
  next
    case False
    with assms eq obtain rest2 where r2: "dotDigits rest = Some rest2"
      and fin: "rest2 = [] \<or> dotDigits rest2 = Some []"
      by (auto split: option.splits if_splits)
    from dotDigits_Some [OF r2] obtain d2 where d2: "digits d2" "rest = ''.'' @ d2 @ rest2" by blast
    from fin show ?thesis
    proof
      assume "rest2 = []"
      with d2 show ?thesis unfolding minorPatch_def by auto
    next
      assume "dotDigits rest2 = Some []"
      from dotDigits_Some [OF this] obtain d3 where "digits d3" "rest2 = ''.'' @ d3 @ []" by blast
      with d2 show ?thesis unfolding minorPatch_def by auto
    qed
  qed
  with v p(1) dg show ?thesis by blast
qed

lemma major_after_space:
  assumes "takeWhile isDigit (optionalV (dropWhile isWhiteSpace s)) = d" "d \<noteq> []"
  shows "\<exists>ws p rest. s = ws @ p @ d @ rest \<and> list_all isWhiteSpace ws \<and> optV p \<and> digits d \<and>
           noDigitAhead rest"
proof -
  define t where "t = dropWhile isWhiteSpace s"
  obtain p where p: "optV p" "t = p @ optionalV t" using optionalV_split by blast
  have "s = takeWhile isWhiteSpace s @ t" by (simp add: t_def)
  moreover have "optionalV t = d @ dropWhile isDigit (optionalV t)"
    using assms(1) takeWhile_dropWhile_id [of isDigit "optionalV t"] by (simp add: t_def)
  ultimately have "s = takeWhile isWhiteSpace s @ p @ d @ dropWhile isDigit (optionalV t)"
    using p(2) by simp
  moreover have "digits d" using assms digit_run(1) [of "optionalV t"] by (auto simp: digits_def t_def)
  ultimately show ?thesis using space_run p(1) digit_run(2) by blast
qed

lemma rangeMatch_Some:
  assumes "rangeMatch v = Some d"
  shows "\<exists>cmp ws p rest. v = cmp @ ws @ p @ d @ rest \<and> (cmp = ''>='' \<or> cmp = ''>'') \<and>
           list_all isWhiteSpace ws \<and> optV p \<and> digits d \<and> noDigitAhead rest"
proof -
  from assms obtain cs where v: "v = CHR ''>'' # cs"
    by (auto simp: rangeMatch_def split: list.splits if_splits)
  define s1 where "s1 = (case cs of d # ds \<Rightarrow> if d = CHR ''='' then ds else cs | [] \<Rightarrow> cs)"
  have cs: "cs = CHR ''='' # s1 \<or> cs = s1"
    by (auto simp: s1_def split: list.splits)
  have "rangeMatch v = (let major = takeWhile isDigit (optionalV (dropWhile isWhiteSpace s1))
             in if major = [] then None else Some major)"
    unfolding v s1_def by (simp add: rangeMatch_def Let_def)
  with assms have m: "takeWhile isDigit (optionalV (dropWhile isWhiteSpace s1)) = d" "d \<noteq> []"
    by (auto simp: Let_def split: if_splits)
  from major_after_space [OF m] obtain ws p rest where
    s: "s1 = ws @ p @ d @ rest" "list_all isWhiteSpace ws" "optV p" "digits d" "noDigitAhead rest"
    by blast
  from cs show ?thesis
  proof
    assume "cs = CHR ''='' # s1"
    then have "v = ''>='' @ ws @ p @ d @ rest" using v s(1) by simp
    with s show ?thesis by blast
  next
    assume "cs = s1"
    then have "v = ''>'' @ ws @ p @ d @ rest" using v s(1) by simp
    with s show ?thesis by blast
  qed
qed

lemma ltMatch_Some:
  assumes "ltMatch v = Some d"
  shows "\<exists>ws p rest. v = ''<'' @ ws @ p @ d @ rest \<and>
           list_all isWhiteSpace ws \<and> optV p \<and> digits d \<and> noDigitAhead rest"
proof -
  from assms obtain cs where v: "v = CHR ''<'' # cs"
    by (auto simp: ltMatch_def split: list.splits if_splits)
  with assms have m: "takeWhile isDigit (optionalV (dropWhile isWhiteSpace cs)) = d" "d \<noteq> []"
    by (auto simp: ltMatch_def Let_def split: if_splits)
  from major_after_space [OF m] obtain ws p rest where
    s: "cs = ws @ p @ d @ rest" "list_all isWhiteSpace ws" "optV p" "digits d" "noDigitAhead rest"
    by blast
  then have "v = ''<'' @ ws @ p @ d @ rest" using v by simp
  with s show ?thesis by blast
qed

lemma parse_exact_iff:
  "exact (parseNodeVersionRequirement v) = Some n \<longleftrightarrow>
     (\<exists>p d s. v = p @ d @ s \<and> optV p \<and> digits d \<and> minorPatch s \<and> n = parseInt d)"
proof
  assume "exact (parseNodeVersionRequirement v) = Some n"
  then obtain d where e: "exactMatch v = Some d" "n = parseInt d"
    by (auto simp: parseNodeVersionRequirement_def noRequirement_def split: option.splits)
  from exactMatch_Some [OF e(1)] obtain p s where
    s: "v = p @ d @ s \<and> optV p \<and> digits d \<and> minorPatch s"
    by (elim exE)
  show "\<exists>p d s. v = p @ d @ s \<and> optV p \<and> digits d \<and> minorPatch s \<and> n = parseInt d"
    using s e(2) by (intro exI [of _ p] exI [of _ d] exI [of _ s]) simp
next
  assume "\<exists>p d s. v = p @ d @ s \<and> optV p \<and> digits d \<and> minorPatch s \<and> n = parseInt d"
  then show "exact (parseNodeVersionRequirement v) = Some n"
    using parse_exact_shape by (auto simp: noRequirement_def)
qed

lemma parse_minMajor_iff:
  "minMajor (parseNodeVersionRequirement v) = Some n \<longleftrightarrow>
     (\<exists>cmp ws p d rest. v = cmp @ ws @ p @ d @ rest \<and> (cmp = ''>='' \<or> cmp = ''>'') \<and>
        list_all isWhiteSpace ws \<and> optV p \<and> digits d \<and> noDigitAhead rest \<and> n = parseInt d)"
proof
  assume "minMajor (parseNodeVersionRequirement v) = Some n"
  then obtain d where m: "rangeMatch v = Some d" "n = parseInt d"
    by (auto simp: parseNodeVersionRequirement_def noRequirement_def split: option.splits)
  from rangeMatch_Some [OF m(1)] obtain cmp ws p rest where
    s: "v = cmp @ ws @ p @ d @ rest \<and> (cmp = ''>='' \<or> cmp = ''>'') \<and>
        list_all isWhiteSpace ws \<and> optV p \<and> digits d \<and> noDigitAhead rest"
    by (elim exE)
  show "\<exists>cmp ws p d rest. v = cmp @ ws @ p @ d @ rest \<and> (cmp = ''>='' \<or> cmp = ''>'') \<and>
        list_all isWhiteSpace ws \<and> optV p \<and> digits d \<and> noDigitAhead rest \<and> n = parseInt d"
    using s m(2)
    by (intro exI [of _ cmp] exI [of _ ws] exI [of _ p] exI [of _ d] exI [of _ rest]) simp
next
  assume "\<exists>cmp ws p d rest. v = cmp @ ws @ p @ d @ rest \<and> (cmp = ''>='' \<or> cmp = ''>'') \<and>
        list_all isWhiteSpace ws \<and> optV p \<and> digits d \<and> noDigitAhead rest \<and> n = parseInt d"
  then obtain cmp ws p d rest where "v = cmp @ ws @ p @ d @ rest" "cmp = ''>='' \<or> cmp = ''>''"
        "list_all isWhiteSpace ws" "optV p" "digits d" "noDigitAhead rest" "n = parseInt d"
    by (elim exE conjE)
  then show "minMajor (parseNodeVersionRequirement v) = Some n"
    using parse_range_shape [of cmp ws p d rest] by (simp add: noRequirement_def)
qed

lemma parse_maxMajor_iff:
  "maxMajor (parseNodeVersionRequirement v) = Some m \<longleftrightarrow>
     (\<exists>ws p d rest. v = ''<'' @ ws @ p @ d @ rest \<and>
        list_all isWhiteSpace ws \<and> optV p \<and> digits d \<and> noDigitAhead rest \<and>
        m = int (parseInt d) - 1)"
proof
  assume "maxMajor (parseNodeVersionRequirement v) = Some m"
  then obtain d where l: "ltMatch v = Some d" "m = int (parseInt d) - 1"
    by (auto simp: parseNodeVersionRequirement_def noRequirement_def split: option.splits)
  from ltMatch_Some [OF l(1)] obtain ws p rest where
    s: "v = ''<'' @ ws @ p @ d @ rest \<and>
        list_all isWhiteSpace ws \<and> optV p \<and> digits d \<and> noDigitAhead rest"
    by (elim exE)
  show "\<exists>ws p d rest. v = ''<'' @ ws @ p @ d @ rest \<and>
        list_all isWhiteSpace ws \<and> optV p \<and> digits d \<and> noDigitAhead rest \<and>
        m = int (parseInt d) - 1"
    using s l(2)
    by (intro exI [of _ ws] exI [of _ p] exI [of _ d] exI [of _ rest]) simp
next
  assume "\<exists>ws p d rest. v = ''<'' @ ws @ p @ d @ rest \<and>
        list_all isWhiteSpace ws \<and> optV p \<and> digits d \<and> noDigitAhead rest \<and>
        m = int (parseInt d) - 1"
  then obtain ws p d rest where "v = ''<'' @ ws @ p @ d @ rest"
        "list_all isWhiteSpace ws" "optV p" "digits d" "noDigitAhead rest" "m = int (parseInt d) - 1"
    by (elim exE conjE)
  then show "maxMajor (parseNodeVersionRequirement v) = Some m"
    using parse_lt_shape [of ws p d rest] by (simp add: noRequirement_def)
qed

lemma parse_one_of:
  "minMajor (parseNodeVersionRequirement v) = Some n \<Longrightarrow> exact (parseNodeVersionRequirement v) = None"
  "exact (parseNodeVersionRequirement v) = Some n \<Longrightarrow> minMajor (parseNodeVersionRequirement v) = None"
  by (auto simp: parseNodeVersionRequirement_def noRequirement_def split: option.splits)

lemma versionWarnings_lower:
  "minMajor (parseNodeVersionRequirement v) = Some n \<Longrightarrow>
   versionWarnings v =
     (if n > 18 then [''Project requires Node.js '' @ v @ '', WebContainers run Node 18''] else [])"
  using parse_one_of(1) [of v n]
  by (simp add: versionWarnings_def Let_def isAbove_def isBelow_def webContainerNodeVersion_def)

lemma versionWarnings_exact:
  "exact (parseNodeVersionRequirement v) = Some n \<Longrightarrow> 0 < n \<Longrightarrow>
   versionWarnings v =
     (if n > 18 then [''Project targets Node.js '' @ showNat n @ '', WebContainers run Node 18'']
      else if n < 14 then [''Project targets old Node.js '' @ showNat n @ '' - some APIs may differ'']
      else [])"
  using parse_one_of(2) [of v n]
  by (simp add: versionWarnings_def Let_def isAbove_def isBelow_def webContainerNodeVersion_def)

lemma versionWarnings_none:
  "parseNodeVersionRequirement v = noRequirement \<Longrightarrow> versionWarnings v = []"
  by (simp add: versionWarnings_def Let_def isAbove_def isBelow_def noRequirement_def)

lemma checkNodeVersion_string:
  "extractNodeVersion tree pkg = Some (JStr v) \<Longrightarrow>
   checkNodeVersion tree pkg report =
     Inr (report\<lparr> nodeVersion := Some v, warnings := warnings report @ versionWarnings v \<rparr>)"
proof -
  have "versionWarnings [] = []" by code_simp
  moreover assume "extractNodeVersion tree pkg = Some (JStr v)"
  ultimately show ?thesis by (cases "v = []") (simp_all add: checkNodeVersion_def)
qed

lemma checkNodeVersion_absent:
  "extractNodeVersion tree pkg = None \<Longrightarrow>
   checkNodeVersion tree pkg report = Inr (report\<lparr> nodeVersion := None \<rparr>)"
  by (simp add: checkNodeVersion_def)


subsection \<open>Git and SSH dependencies (C1) and totality (C8)\<close>

lemma declaredDeps_truthy: "declaredDeps pkg \<noteq> [] \<Longrightarrow> truthy pkg"
  by (cases pkg) (simp_all add: declaredDeps_def sectionEntries_def sections_def)

lemma checkCompatibility_manifest:
  "extractPackageJson parse tree = Some pkg \<Longrightarrow> truthy pkg \<Longrightarrow>
   checkCompatibility parse tree Nodejs = checkManifest tree pkg"
  by (simp add: checkCompatibility_def)

text \<open>
  C1, as the code has it. Take a tree whose package.json parses to a manifest typed as the
  checker's casts assume, and a package declared in \<open>dependencies\<close>, \<open>devDependencies\<close> or
  \<open>optionalDependencies\<close> whose version string starts with \<open>git+ssh://\<close>, starts with
  \<open>ssh://\<close> or contains \<open>git@\<close>. Then \<open>checkCompatibility\<close> with project type nodejs returns
  a report with \<open>hasGitSshDeps\<close> set and \<open>canRun\<close> cleared, whose only issue is the Git+SSH
  issue, which names that package (so it names every offending package), and with the
  suggestion to replace such dependencies.
\<close>

theorem gitSsh_dependency_blocks:
  assumes manifest: "extractPackageJson parse tree = Some pkg"
    and typed: "wellTypedManifest tree pkg"
    and declared: "(pname, JStr version) \<in> set (declaredDeps pkg)"
    and ssh: "startsWith version ''git+ssh://'' \<or> startsWith version ''ssh://'' \<or>
              includesStr version ''git@''"
  shows "\<exists>r issue. checkCompatibility parse tree Nodejs = Inr r \<and>
           hasGitSshDeps r \<and> \<not> canRun r \<and> issues r = [issue] \<and>
           startsWith issue ''Git+SSH dependencies not supported: '' \<and>
           includesStr issue pname \<and>
           ''Replace git+ssh dependencies with npm packages or HTTPS URLs'' \<in> set (suggestions r)"
proof -
  from declared have "declaredDeps pkg \<noteq> []" by (cases "declaredDeps pkg") simp_all
  then have "truthy pkg" by (rule declaredDeps_truthy)
  with manifest have cc: "checkCompatibility parse tree Nodejs = checkManifest tree pkg"
    by (rule checkCompatibility_manifest)
  from typed obtain r where r: "checkManifest tree pkg = Inr r"
    using checkManifest_total by blast
  let ?bad = "filter isGitSshEntry (declaredDeps pkg)"
  from ssh have "isGitSshEntry (pname, JStr version)"
    by (simp add: isGitSshEntry_def isGitSshVersion_def)
  with declared have mem: "(pname, JStr version) \<in> set ?bad" by simp
  then have ne: "?bad \<noteq> []" by (cases ?bad) simp_all
  from mem have pn: "pname \<in> set (map fst ?bad)" by force
  note g = checkManifest_report [OF r]
  have "hasGitSshDeps r" "\<not> canRun r" using g(1,2) ne by simp_all
  moreover have "issues r = [gitSshIssue (map fst ?bad)]" using g(3) ne by simp
  moreover have "startsWith (gitSshIssue (map fst ?bad)) ''Git+SSH dependencies not supported: ''"
    unfolding startsWith_iff gitSshIssue_def by blast
  moreover have "includesStr (gitSshIssue (map fst ?bad)) pname"
    unfolding gitSshIssue_def using pn by (rule includesStr_join)
  moreover have "''Replace git+ssh dependencies with npm packages or HTTPS URLs'' \<in> set (suggestions r)"
    using g(5) ne by blast
  ultimately show ?thesis using cc r by auto
qed

text \<open>
  The theorem at a manifest with one \<open>git+ssh://\<close> and one \<open>ssh://\<close> dependency: the
  second one, in \<open>devDependencies\<close>, is named in the issue.
\<close>

theorem gitSsh_dependency_blocks_witness:
  "\<exists>r issue. checkCompatibility exampleParse (manifestTree gitSshText) Nodejs = Inr r \<and>
           hasGitSshDeps r \<and> \<not> canRun r \<and> issues r = [issue] \<and>
           startsWith issue ''Git+SSH dependencies not supported: '' \<and>
           includesStr issue ''tool'' \<and>
           ''Replace git+ssh dependencies with npm packages or HTTPS URLs'' \<in> set (suggestions r)"
proof -
  have h1: "extractPackageJson exampleParse (manifestTree gitSshText) = Some gitSshManifest"
    by code_simp
  have h2: "wellTypedManifest (manifestTree gitSshText) gitSshManifest"
    by code_simp
  have h3: "(''tool'', JStr ''ssh://host/tool.git'') \<in> set (declaredDeps gitSshManifest)"
    by code_simp
  have h4: "startsWith ''ssh://host/tool.git'' ''git+ssh://'' \<or>
            startsWith ''ssh://host/tool.git'' ''ssh://'' \<or>
            includesStr ''ssh://host/tool.git'' ''git@''"
    by code_simp
  show ?thesis by (rule gitSsh_dependency_blocks [OF h1 h2 h3 h4])
qed

text \<open>
  C1 as stated also covers a version that merely contains \<open>ssh://\<close>. The scan tests
  \<open>startsWith("ssh://")\<close>, so the version \<open>svn+ssh://host/repo\<close> passes: the report has
  \<open>canRun\<close> set, \<open>hasGitSshDeps\<close> cleared and no issue.
\<close>

theorem ssh_inside_version_counterexample:
  "includesStr ''svn+ssh://host/repo'' ''ssh://'' \<and>
   (''a'', JStr ''svn+ssh://host/repo'') \<in> set (declaredDeps svnSshManifest) \<and>
   extractPackageJson exampleParse (manifestTree svnSshText) = Some svnSshManifest \<and>
   checkCompatibility exampleParse (manifestTree svnSshText) Nodejs =
     Inr \<lparr> canRun = True, issues = [], warnings = [], suggestions = [], nodeVersion = None,
           hasNativeDeps = False, hasGitSshDeps = False, frameworkDetected = None \<rparr>"
  by code_simp

text \<open>
  C8: \<open>checkCompatibility\<close> is to return a report for every tree, never throwing. On a
  package.json that is valid JSON but gives a dependency the version \<open>1\<close>, or gives
  \<open>engines.node\<close> the number \<open>18\<close>, it throws a TypeError instead
  (\<open>version.startsWith\<close> and \<open>version.match\<close> are not functions of a number).
\<close>

theorem checkCompatibility_throws:
  "checkCompatibility exampleParse (manifestTree numericVersionText) Nodejs = Inl TypeError \<and>
   checkCompatibility exampleParse (manifestTree numericEngineText) Nodejs = Inl TypeError"
  by code_simp

text \<open>
  The part of C8 that holds: a package.json that does not parse gives the report of a tree
  without one, a single warning with every other field at its optimistic default.
\<close>

lemma checkCompatibility_unparsable:
  assumes "fileText tree ''package.json'' = Some content" "parse content = None"
    "map_of tree' ''package.json'' = None"
  shows "checkCompatibility parse tree projectType = checkCompatibility parse tree' projectType"
    and "checkCompatibility parse tree Nodejs = Inr noManifestReport"
    and "canRun noManifestReport \<and> length (warnings noManifestReport) = 1 \<and>
         issues noManifestReport = [] \<and> suggestions noManifestReport = []"
  using assms
  by (simp_all add: checkCompatibility_def extractPackageJson_def fileText_def
      noManifestReport_def initialReport_def)

subsection \<open>The Node version check (C6)\<close>

lemma later_steps_nodeVersion:
  "nodeVersion (nativeStep nv r) = nodeVersion r" "nodeVersion (gitSshStep gs r) = nodeVersion r"
  "nodeVersion (peerStep pt r) = nodeVersion r" "nodeVersion (scriptsStep pkg r) = nodeVersion r"
  by (simp_all add: nativeStep_def gitSshStep_def peerStep_def scriptsStep_def split: option.splits)

lemma checkManifest_nodeVersion:
  assumes "checkManifest tree pkg = Inr r"
  shows "nodeVersion r = (case extractNodeVersion tree pkg of Some (JStr v) \<Rightarrow> Some v | _ \<Rightarrow> None)"
proof -
  from assms obtain r1 d where r1: "checkNodeVersion tree pkg initialReport = Inr r1"
    and d: "analyzeDependencies pkg = Inr d"
    and r: "r = scriptsStep pkg
                     ((peerStep (peerTrouble d) (gitSshStep (gitSsh d) (nativeStep (native d) r1)))
                        \<lparr> frameworkDetected := detectFramework (allDeps d) \<rparr>)"
    by (auto simp: checkManifest_def split: sum.splits)
  have "nodeVersion r = nodeVersion r1"
    unfolding r by (simp add: later_steps_nodeVersion)
  moreover have "nodeVersion r1 =
      (case extractNodeVersion tree pkg of Some (JStr v) \<Rightarrow> Some v | _ \<Rightarrow> None)"
  proof (cases "extractNodeVersion tree pkg")
    case None
    then show ?thesis using r1 checkNodeVersion_absent [of tree pkg initialReport] by auto
  next
    case (Some nv)
    show ?thesis
    proof (cases nv)
      case (JStr v)
      then show ?thesis using Some r1 checkNodeVersion_string [of tree pkg v initialReport] by auto
    qed (use Some r1 in \<open>auto simp: checkNodeVersion_def initialReport_def split: if_splits\<close>)
  qed
  ultimately show ?thesis by simp
qed

text \<open>
  C6, as the code has it. The Node version requirement is parsed with three patterns, and
  each sets one number exactly on the strings of its shape:
  \<^item> exact: an optional \<open>v\<close>, \<open>N\<close> and at most two further components \<open>.N\<close>, to the end
    of the string, gives \<open>exact = N\<close>;
  \<^item> lower bound: \<open>>=\<close> or \<open>>\<close>, optional white space, an optional \<open>v\<close> and \<open>N\<close>, whatever
    follows, gives \<open>minMajor = N\<close>;
  \<^item> upper bound: \<open><\<close>, optional white space, an optional \<open>v\<close> and \<open>N\<close>, whatever follows,
    gives \<open>maxMajor = N - 1\<close>.

  A lower bound adds the one warning that the project requires this version when it is
  above 18 and nothing otherwise. An exact version \<open>N\<close> of at least 1 adds one warning when
  it is above 18, one when it is below 14 and none from 14 to 18; the warning carries
  \<open>N\<close>, which the model prints exactly below \<open>2^53\<close>. A string of none of the three
  shapes adds nothing. The version check stores the version string in \<open>nodeVersion\<close> and
  appends these warnings and nothing else; \<open>canRun\<close> and \<open>issues\<close> stay as they are, and in
  the report \<open>checkCompatibility\<close> returns for a manifest typed as its casts assume they
  are a function of the declared dependencies alone, with the warnings of the version
  check first among \<open>warnings\<close>. Nothing is said here of the warnings of an upper bound
  or of an exact version 0.
\<close>

theorem nodeVersion_requirement:
  "(exact (parseNodeVersionRequirement v) = Some n \<longleftrightarrow>
      (\<exists>p d s. v = p @ d @ s \<and> optV p \<and> digits d \<and> minorPatch s \<and> n = parseInt d)) \<and>
   (minMajor (parseNodeVersionRequirement v) = Some n \<longleftrightarrow>
      (\<exists>cmp ws p d rest. v = cmp @ ws @ p @ d @ rest \<and> (cmp = ''>='' \<or> cmp = ''>'') \<and>
         list_all isWhiteSpace ws \<and> optV p \<and> digits d \<and> noDigitAhead rest \<and> n = parseInt d)) \<and>
   (maxMajor (parseNodeVersionRequirement v) = Some m \<longleftrightarrow>
      (\<exists>ws p d rest. v = ''<'' @ ws @ p @ d @ rest \<and>
         list_all isWhiteSpace ws \<and> optV p \<and> digits d \<and> noDigitAhead rest \<and>
         m = int (parseInt d) - 1)) \<and>
   (minMajor (parseNodeVersionRequirement v) = Some n \<longrightarrow>
      versionWarnings v =
        (if n > 18 then [''Project requires Node.js '' @ v @ '', WebContainers run Node 18'']
         else [])) \<and>
   (exact (parseNodeVersionRequirement v) = Some n \<and> 0 < n \<longrightarrow>
      (versionWarnings v = [] \<longleftrightarrow> 14 \<le> n \<and> n \<le> 18) \<and> length (versionWarnings v) \<le> 1) \<and>
   (exact (parseNodeVersionRequirement v) = Some n \<and> 0 < n \<and> n < 2 ^ 53 \<longrightarrow>
      versionWarnings v =
        (if n > 18 then [''Project targets Node.js '' @ showNat n @ '', WebContainers run Node 18'']
         else if n < 14 then [''Project targets old Node.js '' @ showNat n @ '' - some APIs may differ'']
         else [])) \<and>
   (parseNodeVersionRequirement v = noRequirement \<longrightarrow> versionWarnings v = []) \<and>
   (extractNodeVersion tree pkg = Some (JStr v) \<longrightarrow>
      checkNodeVersion tree pkg report =
        Inr (report\<lparr> nodeVersion := Some v, warnings := warnings report @ versionWarnings v \<rparr>)) \<and>
   (extractNodeVersion tree pkg = None \<longrightarrow>
      checkNodeVersion tree pkg report = Inr (report\<lparr> nodeVersion := None \<rparr>)) \<and>
   (extractPackageJson parse tree' = Some pkg' \<and> truthy pkg' \<and> wellTypedManifest tree' pkg' \<longrightarrow>
      (\<exists>r' others. checkCompatibility parse tree' Nodejs = Inr r' \<and>
            canRun r' = (filter isGitSshEntry (declaredDeps pkg') = []) \<and>
            issues r' = (if filter isGitSshEntry (declaredDeps pkg') = [] then []
                         else [gitSshIssue (map fst (filter isGitSshEntry (declaredDeps pkg')))]) \<and>
            nodeVersion r' =
              (case extractNodeVersion tree' pkg' of Some (JStr nv) \<Rightarrow> Some nv | _ \<Rightarrow> None) \<and>
            warnings r' =
              (case extractNodeVersion tree' pkg' of Some (JStr nv) \<Rightarrow> versionWarnings nv | _ \<Rightarrow> [])
              @ others))"
proof (intro conjI impI)
  show "exact (parseNodeVersionRequirement v) = Some n \<longleftrightarrow>
      (\<exists>p d s. v = p @ d @ s \<and> optV p \<and> digits d \<and> minorPatch s \<and> n = parseInt d)"
    by (rule parse_exact_iff)
  show "minMajor (parseNodeVersionRequirement v) = Some n \<longleftrightarrow>
      (\<exists>cmp ws p d rest. v = cmp @ ws @ p @ d @ rest \<and> (cmp = ''>='' \<or> cmp = ''>'') \<and>
         list_all isWhiteSpace ws \<and> optV p \<and> digits d \<and> noDigitAhead rest \<and> n = parseInt d)"
    by (rule parse_minMajor_iff)
  show "maxMajor (parseNodeVersionRequirement v) = Some m \<longleftrightarrow>
      (\<exists>ws p d rest. v = ''<'' @ ws @ p @ d @ rest \<and>
         list_all isWhiteSpace ws \<and> optV p \<and> digits d \<and> noDigitAhead rest \<and>
         m = int (parseInt d) - 1)"
    by (rule parse_maxMajor_iff)
next
  assume "minMajor (parseNodeVersionRequirement v) = Some n"
  then show "versionWarnings v =
        (if n > 18 then [''Project requires Node.js '' @ v @ '', WebContainers run Node 18'']
         else [])"
    by (rule versionWarnings_lower)
next
  assume a: "exact (parseNodeVersionRequirement v) = Some n \<and> 0 < n"
  then show "versionWarnings v = [] \<longleftrightarrow> 14 \<le> n \<and> n \<le> 18"
    using versionWarnings_exact [of v n] by auto
  from a show "length (versionWarnings v) \<le> 1"
    using versionWarnings_exact [of v n] by auto
next
  assume "exact (parseNodeVersionRequirement v) = Some n \<and> 0 < n \<and> n < 2 ^ 53"
  then show "versionWarnings v =
        (if n > 18 then [''Project targets Node.js '' @ showNat n @ '', WebContainers run Node 18'']
         else if n < 14 then [''Project targets old Node.js '' @ showNat n @ '' - some APIs may differ'']
         else [])"
    using versionWarnings_exact [of v n] by blast
next
  assume "parseNodeVersionRequirement v = noRequirement"
  then show "versionWarnings v = []" by (rule versionWarnings_none)
next
  assume "extractNodeVersion tree pkg = Some (JStr v)"
  then show "checkNodeVersion tree pkg report =
        Inr (report\<lparr> nodeVersion := Some v, warnings := warnings report @ versionWarnings v \<rparr>)"
    by (rule checkNodeVersion_string)
next
  assume "extractNodeVersion tree pkg = None"
  then show "checkNodeVersion tree pkg report = Inr (report\<lparr> nodeVersion := None \<rparr>)"
    by (rule checkNodeVersion_absent)
next
  assume d: "extractPackageJson parse tree' = Some pkg' \<and> truthy pkg' \<and> wellTypedManifest tree' pkg'"
  then obtain r' where m: "checkManifest tree' pkg' = Inr r'"
    using checkManifest_total by blast
  with d have c: "checkCompatibility parse tree' Nodejs = Inr r'"
    using checkCompatibility_manifest [of parse tree' pkg'] by simp
  obtain others where w: "warnings r' =
      (case extractNodeVersion tree' pkg' of Some (JStr nv) \<Rightarrow> versionWarnings nv | _ \<Rightarrow> []) @ others"
    using checkManifest_report(6) [OF m] by blast
  show "\<exists>r' others. checkCompatibility parse tree' Nodejs = Inr r' \<and>
            canRun r' = (filter isGitSshEntry (declaredDeps pkg') = []) \<and>
            issues r' = (if filter isGitSshEntry (declaredDeps pkg') = [] then []
                         else [gitSshIssue (map fst (filter isGitSshEntry (declaredDeps pkg')))]) \<and>
            nodeVersion r' =
              (case extractNodeVersion tree' pkg' of Some (JStr nv) \<Rightarrow> Some nv | _ \<Rightarrow> None) \<and>
            warnings r' =
              (case extractNodeVersion tree' pkg' of Some (JStr nv) \<Rightarrow> versionWarnings nv | _ \<Rightarrow> [])
              @ others"
    using c checkManifest_report(1,3) [OF m] checkManifest_nodeVersion [OF m] w
    by (intro exI [of _ r'] exI [of _ others]) simp
qed


text \<open>
  The theorem at \<open>v18.2.0\<close>, \<open>>= 20.1 <22\<close>, \<open><16\<close> and at a manifest requiring
  \<open>>=20\<close>.
\<close>

theorem nodeVersion_requirement_witness:
  "exact (parseNodeVersionRequirement ''v18.2.0'') = Some 18 \<and>
   versionWarnings ''v18.2.0'' = [] \<and>
   minMajor (parseNodeVersionRequirement ''>= 20.1 <22'') = Some 20 \<and>
   versionWarnings ''>= 20.1 <22'' =
     [''Project requires Node.js >= 20.1 <22, WebContainers run Node 18''] \<and>
   maxMajor (parseNodeVersionRequirement ''<16'') = Some 15 \<and>
   checkNodeVersion (manifestTree engineText) engineManifest initialReport =
     Inr (initialReport\<lparr> nodeVersion := Some ''>=20'',
            warnings := [''Project requires Node.js >=20, WebContainers run Node 18''] \<rparr>) \<and>
   (\<exists>r' others. checkCompatibility engineParse (manifestTree engineText) Nodejs = Inr r' \<and>
      canRun r' \<and> issues r' = [] \<and> nodeVersion r' = Some ''>=20'' \<and>
      warnings r' = [''Project requires Node.js >=20, WebContainers run Node 18''] @ others)"
proof -
  note A = nodeVersion_requirement [where v = "''v18.2.0''" and n = 18]
  note B = nodeVersion_requirement [where v = "''>= 20.1 <22''" and n = 20]
  note C = nodeVersion_requirement [where v = "''<16''" and m = 15]
  note D = nodeVersion_requirement [where v = "''>=20''" and n = 20
      and tree = "manifestTree engineText" and pkg = engineManifest and report = initialReport
      and parse = engineParse and tree' = "manifestTree engineText" and pkg' = engineManifest]
  have n: "parseInt ''18'' = 18" "parseInt ''20'' = 20" "int (parseInt ''16'') - 1 = 15"
    by code_simp+
  have patch: "minorPatch ''.2.0''"
    unfolding minorPatch_def digits_def
    by (intro disjI2 exI [of _ "''2''"] exI [of _ "''0''"]) (simp add: isDigit_def)
  have a: "\<exists>p d s. ''v18.2.0'' = p @ d @ s \<and> optV p \<and> digits d \<and> minorPatch s \<and> 18 = parseInt d"
    using patch n(1)
    by (intro exI [of _ "''v''"] exI [of _ "''18''"] exI [of _ "''.2.0''"])
       (simp add: optV_def digits_def isDigit_def)
  have b: "\<exists>cmp ws p d rest. ''>= 20.1 <22'' = cmp @ ws @ p @ d @ rest \<and>
      (cmp = ''>='' \<or> cmp = ''>'') \<and> list_all isWhiteSpace ws \<and> optV p \<and> digits d \<and>
      noDigitAhead rest \<and> 20 = parseInt d"
    using n(2)
    by (intro exI [of _ "''>=''"] exI [of _ "'' ''"] exI [of _ "[]"] exI [of _ "''20''"]
          exI [of _ "''.1 <22''"])
       (simp add: optV_def digits_def isDigit_def isWhiteSpace_def noDigitAhead_def)
  have c: "\<exists>ws p d rest. ''<16'' = ''<'' @ ws @ p @ d @ rest \<and> list_all isWhiteSpace ws \<and>
      optV p \<and> digits d \<and> noDigitAhead rest \<and> 15 = int (parseInt d) - 1"
    using n(3)
    by (intro exI [of _ "[]"] exI [of _ "[]"] exI [of _ "''16''"] exI [of _ "[]"])
       (simp add: optV_def digits_def isDigit_def noDigitAhead_def)
  have d: "\<exists>cmp ws p d rest. ''>=20'' = cmp @ ws @ p @ d @ rest \<and>
      (cmp = ''>='' \<or> cmp = ''>'') \<and> list_all isWhiteSpace ws \<and> optV p \<and> digits d \<and>
      noDigitAhead rest \<and> 20 = parseInt d"
    using n(2)
    by (intro exI [of _ "''>=''"] exI [of _ "[]"] exI [of _ "[]"] exI [of _ "''20''"]
          exI [of _ "[]"])
       (simp add: optV_def digits_def isDigit_def noDigitAhead_def)
  have h1: "extractNodeVersion (manifestTree engineText) engineManifest = Some (JStr ''>=20'')"
    by code_simp
  have h2: "extractPackageJson engineParse (manifestTree engineText) = Some engineManifest \<and>
      truthy engineManifest \<and> wellTypedManifest (manifestTree engineText) engineManifest"
    by code_simp
  have g: "filter isGitSshEntry (declaredDeps engineManifest) = []" by code_simp
  have i: "warnings initialReport = []" by (simp add: initialReport_def)
  note c2' = conjunct2
  have c1: "exact (parseNodeVersionRequirement ''v18.2.0'') = Some 18"
    using A [THEN conjunct1] a by (rule iffD2)
  have c2: "versionWarnings ''v18.2.0'' = []"
    using A [THEN c2', THEN c2', THEN c2', THEN c2', THEN conjunct1] c1 by simp
  have c3: "minMajor (parseNodeVersionRequirement ''>= 20.1 <22'') = Some 20"
    using B [THEN c2', THEN conjunct1] b by (rule iffD2)
  have c4: "versionWarnings ''>= 20.1 <22'' =
     [''Project requires Node.js >= 20.1 <22, WebContainers run Node 18'']"
    using B [THEN c2', THEN c2', THEN c2', THEN conjunct1] c3 by simp
  have c5: "maxMajor (parseNodeVersionRequirement ''<16'') = Some 15"
    using C [THEN c2', THEN c2', THEN conjunct1] c by (rule iffD2)
  have "minMajor (parseNodeVersionRequirement ''>=20'') = Some 20"
    using D [THEN c2', THEN conjunct1] d by (rule iffD2)
  then have w: "versionWarnings ''>=20'' =
     [''Project requires Node.js >=20, WebContainers run Node 18'']"
    using D [THEN c2', THEN c2', THEN c2', THEN conjunct1] by simp
  have c6: "checkNodeVersion (manifestTree engineText) engineManifest initialReport =
     Inr (initialReport\<lparr> nodeVersion := Some ''>=20'',
            warnings := [''Project requires Node.js >=20, WebContainers run Node 18''] \<rparr>)"
    using D [THEN c2', THEN c2', THEN c2', THEN c2', THEN c2', THEN c2', THEN c2', THEN conjunct1]
      h1 w i by simp
  have c7: "\<exists>r' others. checkCompatibility engineParse (manifestTree engineText) Nodejs = Inr r' \<and>
      canRun r' \<and> issues r' = [] \<and> nodeVersion r' = Some ''>=20'' \<and>
      warnings r' = [''Project requires Node.js >=20, WebContainers run Node 18''] @ others"
    using D [THEN c2', THEN c2', THEN c2', THEN c2', THEN c2', THEN c2', THEN c2', THEN c2',
        THEN c2', THEN mp, OF h2]
    by (simp add: h1 g w)
  from c1 c2 c3 c4 c5 c6 c7 show ?thesis by (intro conjI)
qed

text \<open>
  The two cases the theorem leaves out. The upper bound is parsed but \<open>checkCompatibility\<close>
  reads \<open>minMajor\<close> and \<open>exact\<close> only, and the tests \<open>exact && ...\<close> take the number 0 for
  an absent one: neither \<open><16\<close> nor \<open>0.10.48\<close> gets a warning.
\<close>

lemma unread_requirement:
  "maxMajor (parseNodeVersionRequirement ''<16'') = Some 15 \<and>
   versionWarnings ''<16'' = [] \<and>
   exact (parseNodeVersionRequirement ''0.10.48'') = Some 0 \<and>
   versionWarnings ''0.10.48'' = []"
  by code_simp

text \<open>
  C6 as stated gives the exact pattern as \<open>v?N(.N)*\<close>. The expression allows two further
  components only: \<open>20.0.0\<close> is the exact version 20 and gets its warning, while
  \<open>20.0.0.1\<close> matches none of the three patterns, so that nothing is recorded and no
  warning is produced.
\<close>

theorem four_component_version_counterexample:
  "exact (parseNodeVersionRequirement ''20.0.0'') = Some 20 \<and>
   versionWarnings ''20.0.0'' = [''Project targets Node.js 20, WebContainers run Node 18''] \<and>
   parseNodeVersionRequirement ''20.0.0.1'' = noRequirement \<and>
   versionWarnings ''20.0.0.1'' = []"
  by code_simp

section \<open>Properties of the orchestrator\<close>

subsection \<open>The latch\<close>

lemma readyNotifications_append [simp]:
  "readyNotifications (xs @ ys) = readyNotifications xs + readyNotifications ys"
  by (simp add: readyNotifications_def)

lemma readyTransitions_append [simp]:
  "readyTransitions (xs @ ys) = readyTransitions xs + readyTransitions ys"
  by (simp add: readyTransitions_def)

lemma ready_counts_simps [simp]:
  "readyNotifications [] = 0" "readyTransitions [] = 0"
  "readyNotifications (OnServerReady url # es) = Suc (readyNotifications es)"
  "readyNotifications (OnOutput t # es) = readyNotifications es"
  "readyNotifications (OnStatusChange status # es) = readyNotifications es"
  "readyNotifications (OnError m # es) = readyNotifications es"
  "readyNotifications (Spawn cmd argv ev # es) = readyNotifications es"
  "readyTransitions (OnServerReady url # es) = readyTransitions es"
  "readyTransitions (OnOutput t # es) = readyTransitions es"
  "readyTransitions (OnStatusChange status # es) =
     (if status = Ready then Suc (readyTransitions es) else readyTransitions es)"
  "readyTransitions (OnError m # es) = readyTransitions es"
  "readyTransitions (Spawn cmd argv ev # es) = readyTransitions es"
  by (simp_all add: readyNotifications_def readyTransitions_def)

lemma quiet_counts:
  "\<not> announcesReady e \<Longrightarrow> readyNotifications [e] = 0 \<and> readyTransitions [e] = 0"
  by (cases e) auto

lemma handleServerReady_latched: "latched st \<Longrightarrow> latched (handleServerReady url port st)"
  by (simp add: latched_def handleServerReady_def emit_def)

lemma devSignal_latched: "latched st \<Longrightarrow> latched (devSignal s st)"
  by (cases s)
     (simp_all add: latched_def handleServerReady_def onServerOutput_def onGraceTimer_def
        onReadyTimeout_def onServerExit_def emit_def Let_def)

lemma staticSignal_latched: "latched st \<Longrightarrow> latched (staticSignal s st)"
  by (cases s)
     (simp_all add: latched_def staticHandleServerReady_def staticOnOutput_def
        staticOnGraceTimer_def staticOnReadyTimeout_def staticOnServerExit_def emit_def Let_def)

lemma afterSignals_latched:
  assumes step: "\<And>s st. latched st \<Longrightarrow> latched (handler s st)"
  shows "latched st \<Longrightarrow> latched (afterSignals handler st signals)"
  unfolding afterSignals_def
  by (induction signals arbitrary: st) (simp_all add: step)

lemma latched_initial: "latched initialRunState" "latched staticListening"
  by (simp_all add: latched_def initialRunState_def staticListening_def)

lemma quiet_append [simp]: "quiet (xs @ ys) \<longleftrightarrow> quiet xs \<and> quiet ys"
  by (simp add: quiet_def)

lemma quiet_counts_list: "quiet es \<Longrightarrow> readyNotifications es = 0 \<and> readyTransitions es = 0"
proof (induction es)
  case Nil
  then show ?case by simp
next
  case (Cons e es)
  then have "\<not> announcesReady e" "quiet es" by (simp_all add: quiet_def)
  with Cons.IH quiet_counts [of e] show ?case
    using readyNotifications_append [of "[e]" es] readyTransitions_append [of "[e]" es] by simp
qed

lemma attempt_quiet: "quiet (trail (attempt c argv capture st)) = quiet (trail st)"
  by (simp add: attempt_def quiet_def split: cmd_result.splits)

lemma say_quiet: "quiet (trail (say line st)) = quiet (trail st)"
  by (simp add: say_def quiet_def)

lemma say_installOutput:
  "trail ((say line st)\<lparr> installOutput := out \<rparr>) = trail (say line st)"
  "trail (say line (st\<lparr> installOutput := out \<rparr>)) = trail (say line st)"
  by (simp_all add: say_def)

lemma strategies_quiet:
  "quiet (trail st) \<Longrightarrow> quiet (trail (strategy1 c st))"
  "quiet (trail st) \<Longrightarrow> quiet (trail (strategy2 c st))"
  "quiet (trail st) \<Longrightarrow> quiet (trail (strategy3 c st))"
  "quiet (trail st) \<Longrightarrow> quiet (trail (strategy4 c st))"
  "quiet (trail st) \<Longrightarrow> quiet (trail (strategy5 c st))"
  by (simp_all add: strategy1_def strategy2_def strategy3_def strategy4_def strategy5_def
      attempt_quiet say_quiet say_installOutput)

lemma installPhase_quiet: "quiet (trail (installPhase c))"
  unfolding installPhase_def
  by (intro strategies_quiet) (simp add: quiet_def)

lemma startDevServer_quiet: "quiet (events (startDevServer c))"
  using installPhase_quiet [of c]
  by (simp add: startDevServer_def Let_def quiet_def split: option.splits)

lemma emit_quiet_latched: "\<not> announcesReady e \<Longrightarrow> latched st \<Longrightarrow> latched (emit [e] st)"
  using quiet_counts [of e] by (simp add: latched_def emit_def)

lemma timeout_latched: "latched st \<Longrightarrow> latched (st\<lparr> serverReadyTimeout := b \<rparr>)"
  by (simp add: latched_def)

lemma runStep_invariant: "runInvariant r \<Longrightarrow> runInvariant (runStep r a)"
proof (cases a)
  case Advance
  assume inv: "runInvariant r"
  show ?thesis
  proof (cases "pending r")
    case Nil
    with inv Advance show ?thesis by simp
  next
    case (Cons e rest)
    with inv have q: "\<not> announcesReady e" "quiet rest" and l: "latched (state r)"
      by (simp_all add: runInvariant_def quiet_def)
    from emit_quiet_latched [OF q(1) l] timeout_latched
    show ?thesis using Advance Cons q(2) by (simp add: runInvariant_def quiet_def)
  qed
next
  case (Deliver s)
  assume "runInvariant r"
  then show ?thesis using Deliver devSignal_latched by (simp add: runInvariant_def)
qed

lemma run_invariant: "runInvariant r \<Longrightarrow> runInvariant (foldl runStep r schedule)"
  by (induction schedule arbitrary: r) (simp_all add: runStep_invariant)

lemma startRun_invariant: "runInvariant (startRun c)"
  by (simp add: runInvariant_def startRun_def startDevServer_quiet latched_initial)

lemma runDevServer_latched: "latched (state (foldl runStep (startRun c) schedule))"
  using run_invariant [OF startRun_invariant] by (simp add: runInvariant_def)

lemma latched_bounds:
  "latched st \<Longrightarrow> readyNotifications (emitted st) \<le> 1 \<and> readyTransitions (emitted st) \<le> 1 \<and>
                 readyNotifications (emitted st) = readyTransitions (emitted st)"
  by (simp add: latched_def)

lemma fired_noop:
  "serverReadyFired st \<Longrightarrow> devSignal (ServerReady port url) st = st"
  "serverReadyFired st \<Longrightarrow> devSignal (ServerOutput chunk) st = emit [OnOutput (Data chunk)] st"
  "serverReadyFired st \<Longrightarrow> staticSignal (ServerReady port url) st = st"
  "serverReadyFired st \<Longrightarrow> staticSignal (ServerOutput chunk) st = emit [OnOutput (Data chunk)] st"
  by (simp_all add: handleServerReady_def onServerOutput_def staticHandleServerReady_def
      staticOnOutput_def emit_def Let_def)

subsection \<open>The ready notification (C3)\<close>

lemma fired_after:
  "serverReadyFired st \<Longrightarrow>
   serverReadyFired (devSignal s st) \<and> emitted (devSignal s st) = emitted st @ forwarded s"
  by (cases s)
     (simp_all add: handleServerReady_def onServerOutput_def onGraceTimer_def
        onReadyTimeout_def onServerExit_def emit_def Let_def)

lemma static_fired_after:
  "serverReadyFired st \<Longrightarrow>
   serverReadyFired (staticSignal s st) \<and> emitted (staticSignal s st) = emitted st @ forwarded s"
  by (cases s)
     (simp_all add: staticHandleServerReady_def staticOnOutput_def staticOnGraceTimer_def
        staticOnReadyTimeout_def staticOnServerExit_def emit_def Let_def)

text \<open>
  C3. In a run of \<open>startDevServer\<close>, whatever the container does and in whatever order the
  set-up proceeds and server-ready events, output chunks, timers and the exit of the server
  arrive, \<open>onServerReady\<close> is called at most once and \<open>onStatusChange("ready")\<close> is called at
  most once, and as often as \<open>onServerReady\<close>. The same holds for the listeners of
  \<open>serveStaticSite\<close>. Once the latch has fired, a server-ready event changes nothing at
  all, and no signal does more than pass the server's output on to the terminal.
\<close>

theorem ready_notification_once:
  "readyNotifications (runDevServer c schedule) \<le> 1 \<and>
   readyTransitions (runDevServer c schedule) \<le> 1 \<and>
   readyNotifications (runDevServer c schedule) = readyTransitions (runDevServer c schedule) \<and>
   readyNotifications (emitted (afterSignals staticSignal staticListening signals)) \<le> 1 \<and>
   readyTransitions (emitted (afterSignals staticSignal staticListening signals)) \<le> 1 \<and>
   readyNotifications (emitted (afterSignals staticSignal staticListening signals)) =
     readyTransitions (emitted (afterSignals staticSignal staticListening signals)) \<and>
   (serverReadyFired st \<longrightarrow>
      devSignal (ServerReady port url) st = st \<and>
      staticSignal (ServerReady port url) st = st \<and>
      serverReadyFired (devSignal s st) \<and> emitted (devSignal s st) = emitted st @ forwarded s \<and>
      serverReadyFired (staticSignal s st) \<and>
      emitted (staticSignal s st) = emitted st @ forwarded s)"
proof -
  have dev: "latched (state (foldl runStep (startRun c) schedule))"
    by (rule runDevServer_latched)
  have stat: "latched (afterSignals staticSignal staticListening signals)"
    using afterSignals_latched [of staticSignal, OF staticSignal_latched latched_initial(2)] .
  show ?thesis
    using latched_bounds [OF dev] latched_bounds [OF stat] fired_noop(1,3) fired_after
      static_fired_after
    by (simp add: runDevServer_def)
qed

text \<open>
  A Vite project: after a loopback event, an event with an outside URL and a matching
  chunk of output arrive one after the other, and the event arrives again; the ready
  notification is emitted exactly once.
\<close>

theorem ready_notification_once_witness:
  "readyNotifications (runDevServer viteContainer viteSchedule) = 1 \<and>
   readyTransitions (runDevServer viteContainer viteSchedule) = 1 \<and>
   readyNotifications (emitted (afterSignals staticSignal staticListening
      [ServerOutput ''Available on:'', ServerReady 3000 ''https://k3.webcontainer.io'', GraceTimer])) \<le> 1 \<and>
   devSignal (ServerReady 5173 ''https://k3.local-credentialless.webcontainer.io'') readyState = readyState \<and>
   staticSignal (ServerReady 5173 ''https://k3.local-credentialless.webcontainer.io'') readyState = readyState \<and>
   emitted (devSignal (ServerOutput ''ready in 300 ms'') readyState) =
     emitted readyState @ [OnOutput (Data ''ready in 300 ms'')]"
proof -
  note T = ready_notification_once [of viteContainer viteSchedule
      "[ServerOutput ''Available on:'', ServerReady 3000 ''https://k3.webcontainer.io'', GraceTimer]"
      readyState 5173 "''https://k3.local-credentialless.webcontainer.io''"
      "ServerOutput ''ready in 300 ms''"]
  have fired: "serverReadyFired readyState" by code_simp
  have once: "1 \<le> readyNotifications (runDevServer viteContainer viteSchedule)" by code_simp
  from T once have a: "readyNotifications (runDevServer viteContainer viteSchedule) = 1"
    "readyTransitions (runDevServer viteContainer viteSchedule) = 1"
    by linarith+
  from T fired a show ?thesis by simp
qed

subsection \<open>Loopback URLs (C4)\<close>

lemma loopback_step:
  "isLoopback url \<Longrightarrow>
   serverReadyFired (handleServerReady url port st) = serverReadyFired st \<and>
   readyNotifications (emitted (handleServerReady url port st)) = readyNotifications (emitted st) \<and>
   readyTransitions (emitted (handleServerReady url port st)) = readyTransitions (emitted st)"
  by (simp add: handleServerReady_def emit_def)

lemma loopback_then_outside:
  assumes "isLoopback url" "\<not> isLoopback url2" "\<not> serverReadyFired st"
  shows "serverReadyFired (handleServerReady url2 port (handleServerReady url port st))"
    and "emitted (handleServerReady url2 port (handleServerReady url port st)) =
           emitted st @
           [OnOutput (Notice (''Detected localhost URL ('' @ url @ '') - waiting for external URL...'')),
            OnOutput (Notice (''Server ready'' @ (if port \<noteq> 0 then '' on port '' @ showInt port else []))),
            OnServerReady url2, OnStatusChange Ready]"
  using assms by (simp_all add: handleServerReady_def emit_def)

lemma runStep_unfired:
  assumes "loopbackOnly a" "\<not> serverReadyFired (state r)"
  shows "\<not> serverReadyFired (state (runStep r a))"
proof (cases a)
  case Advance
  with assms(2) show ?thesis by (simp add: emit_def split: list.splits)
next
  case (Deliver s)
  with assms show ?thesis
    by (cases s)
       (simp_all add: handleServerReady_def onServerOutput_def onGraceTimer_def
          onReadyTimeout_def onServerExit_def emit_def Let_def)
qed

lemma run_unfired:
  "list_all loopbackOnly schedule \<Longrightarrow> \<not> serverReadyFired (state r) \<Longrightarrow>
   \<not> serverReadyFired (state (foldl runStep r schedule))"
  by (induction schedule arbitrary: r) (simp_all add: runStep_unfired)

lemma loopback_run:
  assumes "list_all loopbackOnly schedule"
  shows "readyNotifications (runDevServer c schedule) = 0 \<and>
         readyTransitions (runDevServer c schedule) = 0"
proof -
  have "\<not> serverReadyFired (state (startRun c))"
    by (simp add: startRun_def initialRunState_def)
  from run_unfired [OF assms this] runDevServer_latched [of c schedule]
  show ?thesis by (simp add: latched_def runDevServer_def)
qed

text \<open>
  C4, as the code has it, for \<open>startDevServer\<close>: a server-ready event whose URL starts with
  \<open>http://localhost\<close> or \<open>http://127.0.0.1\<close> leaves the latch as it is and emits no half
  of the ready notification; if the latch has not fired, a following event with another
  URL for the same port fires it and emits the notification with that URL; and a run all
  of whose server-ready events carry loopback URLs never emits the notification.
\<close>

theorem loopback_rejected:
  "(isLoopback url \<longrightarrow>
      serverReadyFired (handleServerReady url port st) = serverReadyFired st \<and>
      readyNotifications (emitted (handleServerReady url port st)) = readyNotifications (emitted st) \<and>
      readyTransitions (emitted (handleServerReady url port st)) = readyTransitions (emitted st)) \<and>
   (isLoopback url \<and> \<not> isLoopback url2 \<and> \<not> serverReadyFired st \<longrightarrow>
      serverReadyFired (handleServerReady url2 port (handleServerReady url port st)) \<and>
      emitted (handleServerReady url2 port (handleServerReady url port st)) =
        emitted st @
        [OnOutput (Notice (''Detected localhost URL ('' @ url @ '') - waiting for external URL...'')),
         OnOutput (Notice (''Server ready'' @ (if port \<noteq> 0 then '' on port '' @ showInt port else []))),
         OnServerReady url2, OnStatusChange Ready]) \<and>
   (list_all loopbackOnly schedule \<longrightarrow>
      readyNotifications (runDevServer c schedule) = 0 \<and>
      readyTransitions (runDevServer c schedule) = 0)"
  using loopback_step [of url port st] loopback_then_outside [of url url2 st port]
    loopback_run [of schedule c]
  by blast

text \<open>
  The theorem at \<open>http://localhost:5173\<close> followed by an outside URL for port 5173, and at
  a run of the Vite project that only ever sees loopback URLs.
\<close>

theorem loopback_rejected_witness:
  "\<not> serverReadyFired (handleServerReady ''http://localhost:5173'' 5173 initialRunState) \<and>
   readyNotifications (emitted (handleServerReady ''http://localhost:5173'' 5173 initialRunState)) = 0 \<and>
   serverReadyFired
     (handleServerReady ''https://k3.webcontainer.io'' 5173
        (handleServerReady ''http://localhost:5173'' 5173 initialRunState)) \<and>
   emitted
     (handleServerReady ''https://k3.webcontainer.io'' 5173
        (handleServerReady ''http://localhost:5173'' 5173 initialRunState)) =
     [OnOutput (Notice ''Detected localhost URL (http://localhost:5173) - waiting for external URL...''),
      OnOutput (Notice ''Server ready on port 5173''),
      OnServerReady ''https://k3.webcontainer.io'', OnStatusChange Ready] \<and>
   readyNotifications (runDevServer viteContainer
      (replicate 8 Advance @
       [Deliver (ServerReady 5173 ''http://localhost:5173''),
        Deliver (ServerOutput ''  Local:   http://localhost:5173/''),
        Deliver (ServerReady 5173 ''http://127.0.0.1:5173''), Deliver GraceTimer])) = 0"
proof -
  note T = loopback_rejected [of "''http://localhost:5173''" 5173 initialRunState
      "''https://k3.webcontainer.io''"
      "replicate 8 Advance @
       [Deliver (ServerReady 5173 ''http://localhost:5173''),
        Deliver (ServerOutput ''  Local:   http://localhost:5173/''),
        Deliver (ServerReady 5173 ''http://127.0.0.1:5173''), Deliver GraceTimer]" viteContainer]
  have h1: "isLoopback ''http://localhost:5173''" by code_simp
  have h2: "\<not> isLoopback ''https://k3.webcontainer.io''" by code_simp
  have h3: "\<not> serverReadyFired initialRunState" by code_simp
  have h4: "list_all loopbackOnly (replicate 8 Advance @
       [Deliver (ServerReady 5173 ''http://localhost:5173''),
        Deliver (ServerOutput ''  Local:   http://localhost:5173/''),
        Deliver (ServerReady 5173 ''http://127.0.0.1:5173''), Deliver GraceTimer])"
    by code_simp
  have n: "showInt 5173 = ''5173''" by code_simp
  have e: "emitted initialRunState = []" "readyNotifications [] = 0"
    by (simp_all add: initialRunState_def)
  from T h1 h2 h3 h4 n e show ?thesis by simp
qed

text \<open>
  C4 as stated includes the static-site path. The \<open>handleServerReady\<close> of
  \<open>serveStaticSite\<close> does not look at the URL (its own output fallback passes it
  \<open>http://localhost:3000\<close>): a server-ready event with a loopback URL fires the latch.
\<close>

theorem static_loopback_counterexample:
  "isLoopback ''http://localhost:3000'' \<and>
   serverReadyFired (staticSignal (ServerReady 3000 ''http://localhost:3000'') staticListening) \<and>
   emitted (staticSignal (ServerReady 3000 ''http://localhost:3000'') staticListening) =
     [OnOutput (Notice ''Static server ready on port 3000''),
      OnServerReady ''http://localhost:3000'', OnStatusChange Ready]"
  by code_simp

subsection \<open>The exit of the server (C7)\<close>

text \<open>
  C7. When the server process exits with a code other than zero while the latch has not
  fired, \<open>onError\<close> is called with a message carrying the exit code, then
  \<open>onStatusChange("error")\<close>, and nothing else; when it exits with code zero, or after the
  latch has fired, no callback is invoked at all. This is so in \<open>startDevServer\<close> and in
  \<open>serveStaticSite\<close>.
\<close>

theorem server_exit:
  "(code \<noteq> 0 \<and> \<not> serverReadyFired st \<longrightarrow>
      emitted (onServerExit code st) =
        emitted st @
        [OnError (''Dev server exited with code '' @ showInt code @ ''. Check terminal for details.''),
         OnStatusChange Error] \<and>
      emitted (staticOnServerExit code st) =
        emitted st @
        [OnError (''Static server exited with code '' @ showInt code @ ''.''),
         OnStatusChange Error]) \<and>
   (code = 0 \<or> serverReadyFired st \<longrightarrow>
      emitted (onServerExit code st) = emitted st \<and>
      emitted (staticOnServerExit code st) = emitted st)"
  by (simp add: onServerExit_def staticOnServerExit_def emit_def Let_def)

text \<open>
  Exit code 1 before and after the latch, and exit code 0, on both paths.
\<close>

theorem server_exit_witness:
  "emitted (onServerExit 1 (initialRunState\<lparr> serverReadyTimeout := True \<rparr>)) =
     [OnError ''Dev server exited with code 1. Check terminal for details.'', OnStatusChange Error] \<and>
   emitted (staticOnServerExit 1 staticListening) =
     [OnError ''Static server exited with code 1.'', OnStatusChange Error] \<and>
   emitted (onServerExit 1 readyState) = emitted readyState \<and>
   emitted (staticOnServerExit 1 readyState) = emitted readyState \<and>
   emitted (onServerExit 0 staticListening) = [] \<and>
   emitted (staticOnServerExit 0 staticListening) = []"
proof -
  note A = server_exit [of 1 "initialRunState\<lparr> serverReadyTimeout := True \<rparr>"]
  note B = server_exit [of 1 staticListening]
  note C = server_exit [of 1 readyState]
  note D = server_exit [of 0 staticListening]
  have h: "\<not> serverReadyFired (initialRunState\<lparr> serverReadyTimeout := True \<rparr>)"
    "\<not> serverReadyFired staticListening" "serverReadyFired readyState"
    "emitted (initialRunState\<lparr> serverReadyTimeout := True \<rparr>) = []"
    "emitted staticListening = []" "showInt 1 = ''1''"
    by code_simp+
  from A B C D h show ?thesis by simp
qed

subsection \<open>The install ladder (C2)\<close>

lemma spawnedArgs_append [simp]: "spawnedArgs (xs @ ys) = spawnedArgs xs @ spawnedArgs ys"
  by (induction xs rule: spawnedArgs.induct) simp_all

lemma say_fields [simp]:
  "installExitCode (say line st) = installExitCode st"
  "installOutput (say line st) = installOutput st"
  "thrown (say line st) = thrown st"
  "spawnedArgs (trail (say line st)) = spawnedArgs (trail st)"
  by (simp_all add: say_def)

lemma attempt_fields:
  "spawnedArgs (trail (attempt c argv capture st)) = spawnedArgs (trail st) @ [argv]"
  "thrown (attempt c argv capture st) =
     (case runNpm c argv of Exited code out \<Rightarrow> thrown st | Rejected out message \<Rightarrow> Some message)"
  "installExitCode (attempt c argv capture st) =
     (case runNpm c argv of Exited code out \<Rightarrow> code | Rejected out message \<Rightarrow> installExitCode st)"
  "installOutput (attempt c argv capture st) =
     (if capture
      then installOutput st @ (case runNpm c argv of Exited code out \<Rightarrow> out | Rejected out message \<Rightarrow> out)
      else installOutput st)"
  by (simp_all add: attempt_def split: cmd_result.splits)

text \<open>What the later strategies see of a state.\<close>

lemma strategy1_view:
  assumes "thrown st = None"
  shows "spawnedArgs (trail (strategy1 c st)) =
           spawnedArgs (trail st) @ (if hasPackageLock c then [npmCi] else [])"
    and "hasPackageLock c \<Longrightarrow> exitedNonZero (runNpm c npmCi) \<Longrightarrow>
           thrown (strategy1 c st) = None \<and> installExitCode (strategy1 c st) \<noteq> 0"
    and "hasPackageLock c \<Longrightarrow> \<not> exitedNonZero (runNpm c npmCi) \<Longrightarrow>
           thrown (strategy1 c st) \<noteq> None \<or> installExitCode (strategy1 c st) = 0"
    and "\<not> hasPackageLock c \<Longrightarrow> strategy1 c st = st"
  using assms
  by (auto simp: strategy1_def attempt_fields exitedNonZero_def split: cmd_result.splits)

lemma stopped:
  assumes "thrown st \<noteq> None \<or> installExitCode st = 0"
  shows "strategy2 c st = st" "strategy3 c st = st" "strategy4 c st = st" "strategy5 c st = st"
  using assms by (auto simp: strategy2_def strategy3_def strategy4_def strategy5_def)

lemma strategy2_view:
  assumes "thrown st = None" "installExitCode st \<noteq> 0"
  shows "spawnedArgs (trail (strategy2 c st)) = spawnedArgs (trail st) @ [npmInstall]"
    and "exitedNonZero (runNpm c npmInstall) \<Longrightarrow>
           thrown (strategy2 c st) = None \<and> installExitCode (strategy2 c st) \<noteq> 0 \<and>
           hasPeerDepError (installOutput (strategy2 c st)) =
             failedWith hasPeerDepError (runNpm c npmInstall)"
    and "\<not> exitedNonZero (runNpm c npmInstall) \<Longrightarrow>
           thrown (strategy2 c st) \<noteq> None \<or> installExitCode (strategy2 c st) = 0"
  using assms
  by (auto simp: strategy2_def attempt_fields exitedNonZero_def failedWith_def
      split: cmd_result.splits)

lemma strategy3_view:
  assumes "thrown st = None" "installExitCode st \<noteq> 0"
  shows "spawnedArgs (trail (strategy3 c st)) =
           spawnedArgs (trail st) @ (if hasPeerDepError (installOutput st) then [npmLegacyPeerDeps] else [])"
    and "hasPeerDepError (installOutput st) \<Longrightarrow> exitedNonZero (runNpm c npmLegacyPeerDeps) \<Longrightarrow>
           thrown (strategy3 c st) = None \<and> installExitCode (strategy3 c st) \<noteq> 0"
    and "hasPeerDepError (installOutput st) \<Longrightarrow> \<not> exitedNonZero (runNpm c npmLegacyPeerDeps) \<Longrightarrow>
           thrown (strategy3 c st) \<noteq> None \<or> installExitCode (strategy3 c st) = 0"
    and "\<not> hasPeerDepError (installOutput st) \<Longrightarrow> strategy3 c st = st"
  using assms
  by (auto simp: strategy3_def attempt_fields exitedNonZero_def split: cmd_result.splits)

lemma strategy4_view:
  assumes "thrown st = None" "installExitCode st \<noteq> 0"
  shows "spawnedArgs (trail (strategy4 c st)) = spawnedArgs (trail st) @ [npmForce]"
    and "thrown (strategy4 c st) = None \<and> installExitCode (strategy4 c st) \<noteq> 0 \<and>
         hasPostInstallError (installOutput (strategy4 c st))
         \<longleftrightarrow> failedWith hasPostInstallError (runNpm c npmForce)"
  using assms
  by (auto simp: strategy4_def attempt_fields failedWith_def split: cmd_result.splits)

lemma strategy5_view:
  "spawnedArgs (trail (strategy5 c st)) =
     spawnedArgs (trail st) @
     (if thrown st = None \<and> installExitCode st \<noteq> 0 \<and> hasPostInstallError (installOutput st)
      then [npmIgnoreScripts] else [])"
  by (simp add: strategy5_def attempt_fields)

lemma installAttempts_ladder: "installAttempts c = ladderAttempts c"
proof -
  define s0 :: InstallState where
    "s0 = \<lparr> installExitCode = - 1, installOutput = [], thrown = None,
            trail = [OnStatusChange Installing] \<rparr>"
  define s1 where "s1 = strategy1 c s0"
  define s2 where "s2 = strategy2 c s1"
  define s3 where "s3 = strategy3 c s2"
  define s4 where "s4 = strategy4 c s3"
  have phase: "installAttempts c = spawnedArgs (trail (strategy5 c s4))"
    by (simp add: installAttempts_def installPhase_def s0_def s1_def s2_def s3_def s4_def)
  have init: "thrown s0 = None" "installExitCode s0 \<noteq> 0" "spawnedArgs (trail s0) = []"
    by (simp_all add: s0_def)
  note v1 = strategy1_view [OF init(1), of c, folded s1_def]
  have a1: "spawnedArgs (trail s1) = (if hasPackageLock c then [npmCi] else [])"
    using v1(1) init(3) by simp
  show ?thesis
  proof (cases "hasPackageLock c \<and> \<not> exitedNonZero (runNpm c npmCi)")
    case True
    then have "thrown s1 \<noteq> None \<or> installExitCode s1 = 0" using v1(3) by blast
    then have "strategy5 c s4 = s1"
      using stopped [of s1 c] by (simp add: s2_def s3_def s4_def)
    then show ?thesis using phase a1 True by (simp add: ladderAttempts_def)
  next
    case False
    then have go1: "thrown s1 = None" "installExitCode s1 \<noteq> 0"
      using v1(2,4) init by (cases "hasPackageLock c"; simp)+
    note v2 = strategy2_view [OF go1, of c, folded s2_def]
    have a2: "spawnedArgs (trail s2) = (if hasPackageLock c then [npmCi] else []) @ [npmInstall]"
      using v2(1) a1 by simp
    show ?thesis
    proof (cases "exitedNonZero (runNpm c npmInstall)")
      case nz: False
      then have "thrown s2 \<noteq> None \<or> installExitCode s2 = 0" using v2(3) by blast
      then have "strategy5 c s4 = s2"
        using stopped [of s2 c] by (simp add: s3_def s4_def)
      then show ?thesis using phase a2 False nz by (simp add: ladderAttempts_def)
    next
      case nz: True
      then have go2: "thrown s2 = None" "installExitCode s2 \<noteq> 0"
        and peer: "hasPeerDepError (installOutput s2) = failedWith hasPeerDepError (runNpm c npmInstall)"
        using v2(2) by simp_all
      note v3 = strategy3_view [OF go2, of c, folded s3_def]
      have a3: "spawnedArgs (trail s3) =
          (if hasPackageLock c then [npmCi] else []) @ [npmInstall] @
          (if failedWith hasPeerDepError (runNpm c npmInstall) then [npmLegacyPeerDeps] else [])"
        using v3(1) a2 peer by simp
      show ?thesis
      proof (cases "failedWith hasPeerDepError (runNpm c npmInstall) \<and>
                    \<not> exitedNonZero (runNpm c npmLegacyPeerDeps)")
        case stop: True
        then have "thrown s3 \<noteq> None \<or> installExitCode s3 = 0" using v3(3) peer by blast
        then have "strategy5 c s4 = s3" using stopped [of s3 c] by (simp add: s4_def)
        then show ?thesis using phase a3 False nz stop by (simp add: ladderAttempts_def)
      next
        case stop: False
        have go3: "thrown s3 = None" "installExitCode s3 \<noteq> 0"
        proof -
          show "thrown s3 = None"
            using stop v3(2,4) peer go2 by (cases "failedWith hasPeerDepError (runNpm c npmInstall)") auto
          show "installExitCode s3 \<noteq> 0"
            using stop v3(2,4) peer go2 by (cases "failedWith hasPeerDepError (runNpm c npmInstall)") auto
        qed
        note v4 = strategy4_view [OF go3, of c, folded s4_def]
        have "spawnedArgs (trail (strategy5 c s4)) =
            spawnedArgs (trail s3) @ [npmForce] @
            (if failedWith hasPostInstallError (runNpm c npmForce) then [npmIgnoreScripts] else [])"
          using v4 by (simp add: strategy5_view)
        then show ?thesis using phase a3 False nz stop by (simp add: ladderAttempts_def)
      qed
    qed
  qed
qed

lemma argv_distinct: "distinct ladder"
  by (simp add: ladder_def npmCi_def npmInstall_def npmLegacyPeerDeps_def npmForce_def
      npmIgnoreScripts_def)

lemma failedWith_exited: "failedWith classify r \<Longrightarrow> exitedNonZero r"
  by (simp add: failedWith_def exitedNonZero_def split: cmd_result.splits)

lemma exited_zero_nonzero: "exitedZero r \<Longrightarrow> \<not> exitedNonZero r"
  by (simp add: exitedZero_def exitedNonZero_def split: cmd_result.splits)

lemma argv_neq:
  "npmCi \<noteq> npmInstall" "npmCi \<noteq> npmLegacyPeerDeps" "npmCi \<noteq> npmForce"
  "npmCi \<noteq> npmIgnoreScripts" "npmInstall \<noteq> npmLegacyPeerDeps" "npmInstall \<noteq> npmForce"
  "npmInstall \<noteq> npmIgnoreScripts" "npmLegacyPeerDeps \<noteq> npmForce"
  "npmLegacyPeerDeps \<noteq> npmIgnoreScripts" "npmForce \<noteq> npmIgnoreScripts"
  using argv_distinct by (simp_all add: ladder_def)

lemma ladder_subseq: "subseq (ladderAttempts c) ladder"
  by (simp add: ladderAttempts_def ladder_def)

lemma ladder_butlast:
  "a \<in> set (butlast (ladderAttempts c)) \<Longrightarrow> exitedNonZero (runNpm c a)"
  using failedWith_exited [of hasPeerDepError "runNpm c npmInstall"]
    failedWith_exited [of hasPostInstallError "runNpm c npmForce"]
  by (auto simp: ladderAttempts_def split: if_splits)

lemma ladder_members:
  "npmCi \<in> set (ladderAttempts c) \<longleftrightarrow> hasPackageLock c"
  "npmInstall \<in> set (ladderAttempts c) \<longleftrightarrow>
     (hasPackageLock c \<longrightarrow> exitedNonZero (runNpm c npmCi))"
  "npmLegacyPeerDeps \<in> set (ladderAttempts c) \<longleftrightarrow>
     npmInstall \<in> set (ladderAttempts c) \<and> failedWith hasPeerDepError (runNpm c npmInstall)"
  "npmForce \<in> set (ladderAttempts c) \<longleftrightarrow>
     npmInstall \<in> set (ladderAttempts c) \<and> exitedNonZero (runNpm c npmInstall) \<and>
     (npmLegacyPeerDeps \<in> set (ladderAttempts c) \<longrightarrow> exitedNonZero (runNpm c npmLegacyPeerDeps))"
  "npmIgnoreScripts \<in> set (ladderAttempts c) \<longleftrightarrow>
     npmForce \<in> set (ladderAttempts c) \<and> failedWith hasPostInstallError (runNpm c npmForce)"
  using failedWith_exited [of hasPeerDepError "runNpm c npmInstall"] argv_neq
  by (auto simp: ladderAttempts_def)

lemma ladder_first_success:
  assumes "ladderAttempts c \<noteq> []" "exitedZero (runNpm c (hd (ladderAttempts c)))"
  shows "ladderAttempts c = [if hasPackageLock c then npmCi else npmInstall]"
  using assms exited_zero_nonzero
  by (cases "hasPackageLock c") (auto simp: ladderAttempts_def)

text \<open>
  C2. The install attempts of a run, in order, are taken from the ladder \<open>npm ci\<close>,
  \<open>npm install\<close>, \<open>npm install --legacy-peer-deps\<close>, \<open>npm install --force\<close>,
  \<open>npm install --ignore-scripts --legacy-peer-deps\<close> in that order, and every attempt but
  the last exited with a code other than zero. \<open>npm ci\<close> is attempted exactly when
  package-lock.json exists; the plain install exactly when there was no \<open>npm ci\<close> or it
  exited non-zero; the legacy-peer-deps install exactly when the plain install exited
  non-zero and the text of that attempt alone matches a peer-conflict pattern; the forced
  install exactly when the attempt before it (the legacy-peer-deps one if it ran, else the
  plain one) exited non-zero; the ignore-scripts install exactly when the forced install
  exited non-zero and the text of that attempt alone matches a native-build pattern. When
  the first attempt exits zero it is the only one: \<open>npm ci\<close> with a lockfile, the plain
  install without.
\<close>

theorem install_ladder:
  "subseq (installAttempts c) ladder \<and>
   (\<forall>a \<in> set (butlast (installAttempts c)). exitedNonZero (runNpm c a)) \<and>
   (npmCi \<in> set (installAttempts c) \<longleftrightarrow> hasPackageLock c) \<and>
   (npmInstall \<in> set (installAttempts c) \<longleftrightarrow>
      (hasPackageLock c \<longrightarrow> exitedNonZero (runNpm c npmCi))) \<and>
   (npmLegacyPeerDeps \<in> set (installAttempts c) \<longleftrightarrow>
      npmInstall \<in> set (installAttempts c) \<and> failedWith hasPeerDepError (runNpm c npmInstall)) \<and>
   (npmForce \<in> set (installAttempts c) \<longleftrightarrow>
      npmInstall \<in> set (installAttempts c) \<and> exitedNonZero (runNpm c npmInstall) \<and>
      (npmLegacyPeerDeps \<in> set (installAttempts c) \<longrightarrow>
         exitedNonZero (runNpm c npmLegacyPeerDeps))) \<and>
   (npmIgnoreScripts \<in> set (installAttempts c) \<longleftrightarrow>
      npmForce \<in> set (installAttempts c) \<and> failedWith hasPostInstallError (runNpm c npmForce)) \<and>
   (installAttempts c \<noteq> [] \<and> exitedZero (runNpm c (hd (installAttempts c))) \<longrightarrow>
      installAttempts c = [if hasPackageLock c then npmCi else npmInstall])"
  unfolding installAttempts_ladder
  using ladder_subseq [of c] ladder_butlast [of _ c] ladder_members [of c]
    ladder_first_success [of c]
  by blast
text \<open>
  A Vite project with a lockfile (one attempt, \<open>npm ci\<close>), a project without one (one
  attempt, the plain install), and a container on which every attempt fails, the plain one
  with ERESOLVE and the forced one with a node-gyp error (all five attempts).
\<close>

theorem install_ladder_witness:
  "installAttempts viteContainer = [npmCi] \<and>
   installAttempts watchContainer = [npmInstall] \<and>
   npmCi \<in> set (installAttempts stubbornContainer) \<and>
   npmInstall \<in> set (installAttempts stubbornContainer) \<and>
   npmLegacyPeerDeps \<in> set (installAttempts stubbornContainer) \<and>
   npmForce \<in> set (installAttempts stubbornContainer) \<and>
   npmIgnoreScripts \<in> set (installAttempts stubbornContainer) \<and>
   subseq (installAttempts stubbornContainer) ladder"
proof -
  note V = install_ladder [of viteContainer]
  note W = install_ladder [of watchContainer]
  note S = install_ladder [of stubbornContainer]
  have v: "installAttempts viteContainer \<noteq> [] \<and>
           exitedZero (runNpm viteContainer (hd (installAttempts viteContainer)))"
    "hasPackageLock viteContainer"
    by code_simp+
  have w: "installAttempts watchContainer \<noteq> [] \<and>
           exitedZero (runNpm watchContainer (hd (installAttempts watchContainer)))"
    "\<not> hasPackageLock watchContainer"
    by code_simp+
  have s: "hasPackageLock stubbornContainer"
    "exitedNonZero (runNpm stubbornContainer npmCi)"
    "exitedNonZero (runNpm stubbornContainer npmInstall)"
    "failedWith hasPeerDepError (runNpm stubbornContainer npmInstall)"
    "exitedNonZero (runNpm stubbornContainer npmLegacyPeerDeps)"
    "failedWith hasPostInstallError (runNpm stubbornContainer npmForce)"
    by code_simp+
  from V v have c1: "installAttempts viteContainer = [npmCi]" by simp
  from W w have c2: "installAttempts watchContainer = [npmInstall]" by simp
  from S s have c3: "npmCi \<in> set (installAttempts stubbornContainer)"
    "npmInstall \<in> set (installAttempts stubbornContainer)"
    "npmLegacyPeerDeps \<in> set (installAttempts stubbornContainer)"
    "npmForce \<in> set (installAttempts stubbornContainer)"
    "npmIgnoreScripts \<in> set (installAttempts stubbornContainer)"
    "subseq (installAttempts stubbornContainer) ladder"
    by blast+
  from c1 c2 c3 show ?thesis by blast
qed

subsection \<open>The dev script (C5)\<close>

lemma firstUsable_firstOf:
  "firstUsable scripts names = Some s \<longleftrightarrow> firstOf (usableScript scripts) names s"
proof (induction names)
  case Nil
  then show ?case by (simp add: firstOf_def)
next
  case (Cons n names)
  show ?case
  proof (cases "usableScript scripts n")
    case True
    have "firstOf (usableScript scripts) (n # names) s \<longleftrightarrow> s = n"
    proof
      assume "firstOf (usableScript scripts) (n # names) s"
      then obtain before rest where b: "n # names = before @ s # rest"
        and nb: "\<forall>y \<in> set before. \<not> usableScript scripts y"
        by (auto simp: firstOf_def)
      show "s = n"
      proof (cases before)
        case Nil
        with b show ?thesis by simp
      next
        case (Cons x xs)
        with b nb True show ?thesis by auto
      qed
    next
      assume "s = n"
      then have "n # names = [] @ s # names" by simp
      with True \<open>s = n\<close> show "firstOf (usableScript scripts) (n # names) s"
        unfolding firstOf_def by fastforce
    qed
    with True show ?thesis by auto
  next
    case False
    have "firstOf (usableScript scripts) (n # names) s \<longleftrightarrow> firstOf (usableScript scripts) names s"
    proof
      assume "firstOf (usableScript scripts) (n # names) s"
      then obtain before rest where b: "n # names = before @ s # rest"
        and us: "usableScript scripts s"
        and nb: "\<forall>y \<in> set before. \<not> usableScript scripts y"
        by (auto simp: firstOf_def)
      show "firstOf (usableScript scripts) names s"
      proof (cases before)
        case Nil
        with b us False show ?thesis by simp
      next
        case (Cons x xs)
        with b nb us have "names = xs @ s # rest" "\<forall>y \<in> set xs. \<not> usableScript scripts y" by auto
        with us show ?thesis unfolding firstOf_def by blast
      qed
    next
      assume "firstOf (usableScript scripts) names s"
      then obtain before rest where b: "names = before @ s # rest"
        and us: "usableScript scripts s"
        and nb: "\<forall>y \<in> set before. \<not> usableScript scripts y"
        by (auto simp: firstOf_def)
      from b have "n # names = (n # before) @ s # rest" by simp
      moreover from nb False have "\<forall>y \<in> set (n # before). \<not> usableScript scripts y" by simp
      ultimately show "firstOf (usableScript scripts) (n # names) s"
        using us unfolding firstOf_def by blast
    qed
    with False Cons.IH show ?thesis by simp
  qed
qed

lemma firstUsable_None:
  "firstUsable scripts names = None \<longleftrightarrow> (\<forall>s \<in> set names. \<not> usableScript scripts s)"
  by (induction names) simp_all

lemma find_firstOf: "find P xs = Some x \<longleftrightarrow> firstOf P xs x"
  unfolding firstOf_def find_Some_iff
proof
  assume "\<exists>i<length xs. P (xs ! i) \<and> x = xs ! i \<and> (\<forall>j<i. \<not> P (xs ! j))"
  then obtain i where i: "i < length xs" "P (xs ! i)" "x = xs ! i" "\<forall>j<i. \<not> P (xs ! j)"
    by blast
  have "xs = take i xs @ x # drop (Suc i) xs" using i(1,3) by (simp add: id_take_nth_drop)
  moreover have "\<forall>y \<in> set (take i xs). \<not> P y"
    using i(1,4) by (auto simp: in_set_conv_nth)
  ultimately show "\<exists>before rest. xs = before @ x # rest \<and> P x \<and> (\<forall>y\<in>set before. \<not> P y)"
    using i(2,3) by blast
next
  assume "\<exists>before rest. xs = before @ x # rest \<and> P x \<and> (\<forall>y\<in>set before. \<not> P y)"
  then obtain before rest where b: "xs = before @ x # rest" "P x" "\<forall>y\<in>set before. \<not> P y"
    by blast
  have "length before < length xs" using b(1) by simp
  moreover have "xs ! length before = x" using b(1) by simp
  moreover have "\<forall>j<length before. \<not> P (xs ! j)"
    using b(1,3) by (simp add: nth_append)
  ultimately show "\<exists>i<length xs. P (xs ! i) \<and> x = xs ! i \<and> (\<forall>j<i. \<not> P (xs ! j))"
    using b(2) by blast
qed

lemma baseArgs_length: "length (baseArgs pkg) = 2"
  by (simp add: baseArgs_def split: option.splits)

lemma detectFrameworkConfig_baseArgs:
  "truthy pkg \<Longrightarrow> take 2 (args (detectFrameworkConfig (Some pkg))) = baseArgs pkg"
  apply (simp only: detectFrameworkConfig_def option.case if_not_P if_True if_False simp_thms)
  apply (simp only: if_distrib [of args] if_distrib [of "take 2"] cong: if_cong)
  apply (simp add: baseArgs_length cong: if_cong)
  done

lemma startDevServer_no_script:
  assumes "reachesScriptLookup c" "findDevScript (packageJsonAfterInstall c) = None"
  shows "events (startDevServer c) =
           trail (installPhase c) @
           [OnOutput (Notice ''Dependencies installed successfully!''), OnError noScriptError,
            OnStatusChange Error]"
    and "\<not> serverSpawned (startDevServer c)"
  using assms by (simp_all add: startDevServer_def reachesScriptLookup_def noScriptError_def Let_def)

lemma startDevServer_script:
  assumes "reachesScriptLookup c" "findDevScript (packageJsonAfterInstall c) = Some s"
  shows "spawnedArgs (events (startDevServer c)) =
           installAttempts c @ [args (detectFrameworkConfig (packageJson c))]"
    and "OnStatusChange Running \<in> set (events (startDevServer c))"
  using assms
  by (simp_all add: startDevServer_def reachesScriptLookup_def Let_def installAttempts_def
      split: option.splits)



text \<open>
  C5, as the code has it. \<open>findDevScript\<close> returns the first of dev, start, serve, develop,
  watch, in that order, whose script is a string that is not blank. When the install has
  succeeded and there is no such script, the run ends with \<open>onError\<close> (no dev/start script
  found) and \<open>onStatusChange("error")\<close>, and spawns no process beyond the install attempts.
  When there is one, the dev server is spawned with the arguments of
  \<open>detectFrameworkConfig\<close>, which start with \<open>run\<close> and the first of dev, start, serve,
  develop whose script is truthy, or \<open>dev\<close> when none is.
\<close>

theorem dev_script_lookup:
  "(findDevScript (Some pkg) = Some s \<longleftrightarrow>
      truthy pkg \<and> firstOf (usableScript (scriptsOf pkg)) [''dev'', ''start'', ''serve'', ''develop'', ''watch''] s) \<and>
   (reachesScriptLookup c \<and> findDevScript (packageJsonAfterInstall c) = None \<longrightarrow>
      events (startDevServer c) =
        trail (installPhase c) @
        [OnOutput (Notice ''Dependencies installed successfully!''), OnError noScriptError,
         OnStatusChange Error] \<and>
      \<not> serverSpawned (startDevServer c) \<and>
      spawnedArgs (events (startDevServer c)) = installAttempts c) \<and>
   (reachesScriptLookup c \<and> findDevScript (packageJsonAfterInstall c) = Some s2 \<longrightarrow>
      spawnedArgs (events (startDevServer c)) =
        installAttempts c @ [args (detectFrameworkConfig (packageJson c))]) \<and>
   (truthy pkg2 \<longrightarrow>
      (\<exists>script. take 2 (args (detectFrameworkConfig (Some pkg2))) = [''run'', script] \<and>
         (firstOf (truthyProp (scriptsOf pkg2)) [''dev'', ''start'', ''serve'', ''develop''] script \<or>
          script = ''dev'' \<and>
          list_all (\<lambda>n. \<not> truthyProp (scriptsOf pkg2) n) [''dev'', ''start'', ''serve'', ''develop''])))"
proof (intro conjI impI)
  show "findDevScript (Some pkg) = Some s \<longleftrightarrow>
      truthy pkg \<and> firstOf (usableScript (scriptsOf pkg)) [''dev'', ''start'', ''serve'', ''develop'', ''watch''] s"
    using firstUsable_firstOf [of "scriptsOf pkg" devScripts s]
    by (simp add: findDevScript_def devScripts_def)
next
  assume a: "reachesScriptLookup c \<and> findDevScript (packageJsonAfterInstall c) = None"
  then show e: "events (startDevServer c) =
        trail (installPhase c) @
        [OnOutput (Notice ''Dependencies installed successfully!''), OnError noScriptError,
         OnStatusChange Error]"
    and "\<not> serverSpawned (startDevServer c)"
    using startDevServer_no_script [of c] by simp_all
  show "spawnedArgs (events (startDevServer c)) = installAttempts c"
    unfolding e by (simp add: installAttempts_def)
next
  assume "reachesScriptLookup c \<and> findDevScript (packageJsonAfterInstall c) = Some s2"
  then show "spawnedArgs (events (startDevServer c)) =
        installAttempts c @ [args (detectFrameworkConfig (packageJson c))]"
    using startDevServer_script(1) [of c s2] by simp
next
  assume t: "truthy pkg2"
  show "\<exists>script. take 2 (args (detectFrameworkConfig (Some pkg2))) = [''run'', script] \<and>
         (firstOf (truthyProp (scriptsOf pkg2)) [''dev'', ''start'', ''serve'', ''develop''] script \<or>
          script = ''dev'' \<and>
          list_all (\<lambda>n. \<not> truthyProp (scriptsOf pkg2) n) [''dev'', ''start'', ''serve'', ''develop''])"
  proof (cases "devScriptName pkg2")
    case None
    then have "\<forall>n \<in> set devScriptNames. \<not> truthyProp (scriptsOf pkg2) n"
      unfolding devScriptName_def find_None_iff by blast
    then have "list_all (\<lambda>n. \<not> truthyProp (scriptsOf pkg2) n) [''dev'', ''start'', ''serve'', ''develop'']"
      by (simp add: devScriptNames_def)
    moreover from None have "baseArgs pkg2 = [''run'', ''dev'']" by (simp add: baseArgs_def)
    ultimately show ?thesis using detectFrameworkConfig_baseArgs [OF t] by simp
  next
    case (Some script)
    then have "firstOf (truthyProp (scriptsOf pkg2)) [''dev'', ''start'', ''serve'', ''develop''] script"
      unfolding devScriptName_def devScriptNames_def find_firstOf .
    moreover from Some have "baseArgs pkg2 = [''run'', script]" by (simp add: baseArgs_def)
    ultimately show ?thesis using detectFrameworkConfig_baseArgs [OF t] by simp
  qed
qed

text \<open>
  A manifest with only a \<open>watch\<close> script; a project whose \<open>dev\<close> script is blank and that
  has no other of the five; the Vite project; a manifest with only a \<open>start\<close> script.
\<close>

theorem dev_script_lookup_witness:
  "findDevScript (Some watchManifest) = Some ''watch'' \<and>
   events (startDevServer buildContainer) =
     [OnStatusChange Installing, OnOutput (Notice ''Running npm install...''),
      Spawn ''npm'' npmInstall None, OnOutput (Data ''up to date''),
      OnOutput (Notice ''Dependencies installed successfully!''), OnError noScriptError,
      OnStatusChange Error] \<and>
   \<not> serverSpawned (startDevServer buildContainer) \<and>
   spawnedArgs (events (startDevServer buildContainer)) = [npmInstall] \<and>
   spawnedArgs (events (startDevServer viteContainer)) =
     [npmCi, [''run'', ''dev'', ''--'', ''--host'', ''0.0.0.0'']] \<and>
   (\<exists>script. take 2 (args (detectFrameworkConfig (Some expressManifest))) = [''run'', script] \<and>
      firstOf (truthyProp (scriptsOf expressManifest)) [''dev'', ''start'', ''serve'', ''develop''] script)"
proof -
  note A = dev_script_lookup [of watchManifest "''watch''" buildContainer _ expressManifest]
  note B = dev_script_lookup [of watchManifest "''watch''" viteContainer "''dev''" expressManifest]
  have h1: "findDevScript (Some watchManifest) = Some ''watch''" by code_simp
  have h2: "reachesScriptLookup buildContainer \<and>
            findDevScript (packageJsonAfterInstall buildContainer) = None"
    by code_simp
  have h3: "reachesScriptLookup viteContainer \<and>
            findDevScript (packageJsonAfterInstall viteContainer) = Some ''dev''"
    by code_simp
  have h4: "truthy expressManifest" by code_simp
  have e1: "trail (installPhase buildContainer) =
      [OnStatusChange Installing, OnOutput (Notice ''Running npm install...''),
       Spawn ''npm'' npmInstall None, OnOutput (Data ''up to date'')]"
    "installAttempts buildContainer = [npmInstall]"
    "installAttempts viteContainer = [npmCi]"
    "args (detectFrameworkConfig (packageJson viteContainer)) =
       [''run'', ''dev'', ''--'', ''--host'', ''0.0.0.0'']"
    by code_simp+
  have e2: "\<not> list_all (\<lambda>n. \<not> truthyProp (scriptsOf expressManifest) n)
               [''dev'', ''start'', ''serve'', ''develop'']"
    by code_simp
  from A h2 e1 have c1: "events (startDevServer buildContainer) =
     [OnStatusChange Installing, OnOutput (Notice ''Running npm install...''),
      Spawn ''npm'' npmInstall None, OnOutput (Data ''up to date''),
      OnOutput (Notice ''Dependencies installed successfully!''), OnError noScriptError,
      OnStatusChange Error]"
    "\<not> serverSpawned (startDevServer buildContainer)"
    "spawnedArgs (events (startDevServer buildContainer)) = [npmInstall]"
    by simp_all
  from B h3 e1 have c2: "spawnedArgs (events (startDevServer viteContainer)) =
     [npmCi, [''run'', ''dev'', ''--'', ''--host'', ''0.0.0.0'']]"
    by simp
  from A h4 e2 have c3: "\<exists>script. take 2 (args (detectFrameworkConfig (Some expressManifest))) = [''run'', script] \<and>
      firstOf (truthyProp (scriptsOf expressManifest)) [''dev'', ''start'', ''serve'', ''develop''] script"
    by blast
  from h1 c1 c2 c3 show ?thesis by blast
qed

text \<open>
  C5 as stated has the error whenever none of dev, start, serve, develop is declared. With
  only a \<open>watch\<close> script declared the lookup succeeds: the run goes to \<open>running\<close> and
  spawns a dev server, and reports no error.
\<close>

theorem watch_script_counterexample:
  "list_all (\<lambda>n. getProp (scriptsOf watchManifest) n = None) [''dev'', ''start'', ''serve'', ''develop''] \<and>
   packageJson watchContainer = Some watchManifest \<and>
   packageJsonAfterInstall watchContainer = Some watchManifest \<and>
   serverSpawned (startDevServer watchContainer) \<and>
   events (startDevServer watchContainer) =
     [OnStatusChange Installing, OnOutput (Notice ''Running npm install...''),
      Spawn ''npm'' [''install'', ''--no-audit'', ''--no-fund''] None, OnOutput (Data ''up to date''),
      OnOutput (Notice ''Dependencies installed successfully!''), OnStatusChange Running,
      OnOutput (Notice ''Running npm run dev...''),
      Spawn ''npm'' [''run'', ''dev''] None]"
  by code_simp

subsection \<open>Tear-down (C9)\<close>

text \<open>
  C9, as the code has it. If the library's own \<open>teardown()\<close> of the live container does not
  throw, \<open>teardownWebContainer\<close> does not throw and leaves the container instance, the shell
  process, the shell writer and the shell output callback cleared; a second call right
  after it does not throw, touches nothing and leaves the state as it is. The boot promise
  is cleared as well when a container instance was live (or there was no boot promise), and
  then the state is the fully cleared one. On the fully cleared state the call is a no-op.
\<close>

theorem teardown_idempotent:
  "(teardownSafe s \<longrightarrow>
      \<not> threw (teardownWebContainer s) \<and>
      webcontainerInstance (after (teardownWebContainer s)) = None \<and>
      shellProcess (after (teardownWebContainer s)) = None \<and>
      shellWriter (after (teardownWebContainer s)) = None \<and>
      shellOutputCallback (after (teardownWebContainer s)) = None \<and>
      teardownWebContainer (after (teardownWebContainer s)) =
        \<lparr> after = after (teardownWebContainer s), effects = [], threw = False \<rparr>) \<and>
   (teardownSafe s \<and> (webcontainerInstance s \<noteq> None \<or> bootPromise s = None) \<longrightarrow>
      after (teardownWebContainer s) = cleared) \<and>
   teardownWebContainer cleared = \<lparr> after = cleared, effects = [], threw = False \<rparr>"
  by (cases "webcontainerInstance s")
     (auto simp: teardownWebContainer_def teardownSafe_def cleared_def Let_def)

text \<open>
  A booted container with an interactive shell: the first call closes the writer and
  tears the container down, the second does nothing.
\<close>

theorem teardown_idempotent_witness:
  "\<not> threw (teardownWebContainer liveSession) \<and>
   after (teardownWebContainer liveSession) = cleared \<and>
   effects (teardownWebContainer liveSession) = [CloseWriter 3, TeardownContainer 7] \<and>
   teardownWebContainer (after (teardownWebContainer liveSession)) =
     \<lparr> after = cleared, effects = [], threw = False \<rparr> \<and>
   teardownWebContainer cleared = \<lparr> after = cleared, effects = [], threw = False \<rparr>"
proof -
  note T = teardown_idempotent [of liveSession]
  have h: "teardownSafe liveSession" "webcontainerInstance liveSession \<noteq> None"
    "effects (teardownWebContainer liveSession) = [CloseWriter 3, TeardownContainer 7]"
    by code_simp+
  from T h have "after (teardownWebContainer liveSession) = cleared" by blast
  with T h show ?thesis by simp
qed

text \<open>
  C9 as stated has the boot promise cleared after two calls in a row. The assignment
  \<open>bootPromise = null\<close> stands inside \<open>if (webcontainerInstance)\<close>: while the container is
  still booting, two calls leave the boot promise in place.
\<close>

theorem teardown_during_boot_counterexample:
  "teardownSafe bootingSession \<and>
   after (teardownWebContainer (after (teardownWebContainer bootingSession))) = bootingSession \<and>
   bootPromise (after (teardownWebContainer (after (teardownWebContainer bootingSession)))) = Some 1"
  by code_simp

subsection \<open>The two framework tables (C10)\<close>

lemma detectFrameworkConfig_table:
  assumes "truthy pkg"
  shows "(name (detectFrameworkConfig (Some pkg)) \<in>
            {Some ''Vite'', Some ''Vue CLI'', Some ''Angular CLI'', Some ''SvelteKit'',
             Some ''Astro'', Some ''Parcel''} \<and>
          args (detectFrameworkConfig (Some pkg)) = baseArgs pkg @ [''--'', ''--host'', ''0.0.0.0''] \<and>
          env (detectFrameworkConfig (Some pkg)) = None) \<or>
         (name (detectFrameworkConfig (Some pkg)) = Some ''Create React App'' \<and>
          args (detectFrameworkConfig (Some pkg)) = baseArgs pkg \<and>
          env (detectFrameworkConfig (Some pkg)) =
            Some [(''HOST'', ''0.0.0.0''), (''PORT'', ''3000''), (''BROWSER'', ''none'')]) \<or>
         (name (detectFrameworkConfig (Some pkg)) = Some ''Next.js'' \<and>
          args (detectFrameworkConfig (Some pkg)) = baseArgs pkg @ [''--'', ''-H'', ''0.0.0.0''] \<and>
          env (detectFrameworkConfig (Some pkg)) = Some [(''NEXT_TELEMETRY_DISABLED'', ''1'')]) \<or>
         (name (detectFrameworkConfig (Some pkg)) = Some ''Nuxt'' \<and>
          args (detectFrameworkConfig (Some pkg)) = baseArgs pkg @ [''--'', ''--host'', ''0.0.0.0''] \<and>
          env (detectFrameworkConfig (Some pkg)) = Some [(''NUXT_TELEMETRY_DISABLED'', ''1'')]) \<or>
         (name (detectFrameworkConfig (Some pkg)) \<in> {Some ''Remix'', None} \<and>
          args (detectFrameworkConfig (Some pkg)) = baseArgs pkg \<and>
          env (detectFrameworkConfig (Some pkg)) = None) \<or>
         (name (detectFrameworkConfig (Some pkg)) = Some ''Gatsby'' \<and>
          args (detectFrameworkConfig (Some pkg)) = baseArgs pkg @ [''--'', ''-H'', ''0.0.0.0''] \<and>
          env (detectFrameworkConfig (Some pkg)) = Some [(''GATSBY_TELEMETRY_DISABLED'', ''1'')]) \<or>
         (name (detectFrameworkConfig (Some pkg)) \<in>
            {Some ''Express'', Some ''Fastify'', Some ''Koa'', Some ''Hapi''} \<and>
          args (detectFrameworkConfig (Some pkg)) = baseArgs pkg \<and>
          env (detectFrameworkConfig (Some pkg)) = Some [(''PORT'', ''3000''), (''HOST'', ''0.0.0.0'')]) \<or>
         (name (detectFrameworkConfig (Some pkg)) = Some ''Webpack'' \<and>
          args (detectFrameworkConfig (Some pkg)) = baseArgs pkg \<and>
          env (detectFrameworkConfig (Some pkg)) = Some [(''HOST'', ''0.0.0.0'')])"
proof -
  define row where "row D \<longleftrightarrow>
         (name D \<in>
            {Some ''Vite'', Some ''Vue CLI'', Some ''Angular CLI'', Some ''SvelteKit'',
             Some ''Astro'', Some ''Parcel''} \<and>
          args D = baseArgs pkg @ [''--'', ''--host'', ''0.0.0.0''] \<and>
          env D = None) \<or>
         (name D = Some ''Create React App'' \<and>
          args D = baseArgs pkg \<and>
          env D =
            Some [(''HOST'', ''0.0.0.0''), (''PORT'', ''3000''), (''BROWSER'', ''none'')]) \<or>
         (name D = Some ''Next.js'' \<and>
          args D = baseArgs pkg @ [''--'', ''-H'', ''0.0.0.0''] \<and>
          env D = Some [(''NEXT_TELEMETRY_DISABLED'', ''1'')]) \<or>
         (name D = Some ''Nuxt'' \<and>
          args D = baseArgs pkg @ [''--'', ''--host'', ''0.0.0.0''] \<and>
          env D = Some [(''NUXT_TELEMETRY_DISABLED'', ''1'')]) \<or>
         (name D \<in> {Some ''Remix'', None} \<and>
          args D = baseArgs pkg \<and>
          env D = None) \<or>
         (name D = Some ''Gatsby'' \<and>
          args D = baseArgs pkg @ [''--'', ''-H'', ''0.0.0.0''] \<and>
          env D = Some [(''GATSBY_TELEMETRY_DISABLED'', ''1'')]) \<or>
         (name D \<in> {Some ''Express'', Some ''Fastify'', Some ''Koa'', Some ''Hapi''} \<and>
          args D = baseArgs pkg \<and>
          env D = Some [(''PORT'', ''3000''), (''HOST'', ''0.0.0.0'')]) \<or>
         (name D = Some ''Webpack'' \<and>
          args D = baseArgs pkg \<and>
          env D = Some [(''HOST'', ''0.0.0.0'')])" for D :: FrameworkConfig
  have "row (detectFrameworkConfig (Some pkg))"
    using assms
    apply (simp only: detectFrameworkConfig_def option.case if_not_P if_True if_False simp_thms)
    apply (simp only: if_distrib [of row] cong: if_cong)
    apply (simp add: row_def cong: if_cong)
    done
  then show ?thesis unfolding row_def .
qed

lemma getDevServerConfig_cases:
  obtains "f = Some ''Vite''" | "f = Some ''Create React App''" | "f = Some ''Next.js''"
    | "f = Some ''Vue CLI''" | "f = Some ''Angular CLI''" | "f = Some ''Nuxt''"
    | "f = Some ''SvelteKit''" | "f = Some ''Remix''" | "f = Some ''Astro''"
    | "f = Some ''Gatsby''"
    | "f \<notin> set (map Some (hostFrameworks @ envFrameworks @ [''Remix'']))"
  by (auto simp: hostFrameworks_def envFrameworks_def)

lemma agreement_iff:
  assumes "truthy pkg"
  shows "(args (getDevServerConfig f) = args (detectFrameworkConfig (Some pkg)) \<and>
          env (getDevServerConfig f) = env (detectFrameworkConfig (Some pkg))) \<longleftrightarrow>
         (baseArgs pkg = [''run'', scriptWritten f] \<and>
          sameRow f (name (detectFrameworkConfig (Some pkg))))"
proof -
  have "\<exists>b. baseArgs pkg = [''run'', b]"
    by (simp add: baseArgs_def split: option.splits)
  then obtain b where b: "baseArgs pkg = [''run'', b]" ..
  note rows = detectFrameworkConfig_table [OF assms, unfolded b]
  show ?thesis
  proof (cases f rule: getDevServerConfig_cases)
    case 1
    then show ?thesis using rows
      by (auto simp: b getDevServerConfig_def scriptWritten_def hardcodedScript_def sameRow_def
          hostFrameworks_def envFrameworks_def)
  next
    case 2
    then show ?thesis using rows
      by (auto simp: b getDevServerConfig_def scriptWritten_def hardcodedScript_def sameRow_def
          hostFrameworks_def envFrameworks_def)
  next
    case 3
    then show ?thesis using rows
      by (auto simp: b getDevServerConfig_def scriptWritten_def hardcodedScript_def sameRow_def
          hostFrameworks_def envFrameworks_def)
  next
    case 4
    then show ?thesis using rows
      by (auto simp: b getDevServerConfig_def scriptWritten_def hardcodedScript_def sameRow_def
          hostFrameworks_def envFrameworks_def)
  next
    case 5
    then show ?thesis using rows
      by (auto simp: b getDevServerConfig_def scriptWritten_def hardcodedScript_def sameRow_def
          hostFrameworks_def envFrameworks_def)
  next
    case 6
    then show ?thesis using rows
      by (auto simp: b getDevServerConfig_def scriptWritten_def hardcodedScript_def sameRow_def
          hostFrameworks_def envFrameworks_def)
  next
    case 7
    then show ?thesis using rows
      by (auto simp: b getDevServerConfig_def scriptWritten_def hardcodedScript_def sameRow_def
          hostFrameworks_def envFrameworks_def)
  next
    case 8
    then show ?thesis using rows
      by (auto simp: b getDevServerConfig_def scriptWritten_def hardcodedScript_def sameRow_def
          hostFrameworks_def envFrameworks_def)
  next
    case 9
    then show ?thesis using rows
      by (auto simp: b getDevServerConfig_def scriptWritten_def hardcodedScript_def sameRow_def
          hostFrameworks_def envFrameworks_def)
  next
    case 10
    then show ?thesis using rows
      by (auto simp: b getDevServerConfig_def scriptWritten_def hardcodedScript_def sameRow_def
          hostFrameworks_def envFrameworks_def)
  next
    case 11
    then have d: "getDevServerConfig f = \<lparr> args = [''run'', ''dev''], env = None \<rparr>"
      by (auto simp: getDevServerConfig_def hostFrameworks_def envFrameworks_def)
    from 11 have s: "scriptWritten f = ''dev''"
      by (cases f) (auto simp: scriptWritten_def hardcodedScript_def hostFrameworks_def
          envFrameworks_def)
    from 11 have r: "sameRow f g \<longleftrightarrow> g = Some ''Remix'' \<or> g = None" for g
      by (auto simp: sameRow_def hostFrameworks_def envFrameworks_def)
    show ?thesis using rows unfolding d s r by (auto simp: b)
  qed
qed


text \<open>
  C10, as the code has it. Take a manifest for which the checker returns a report. Then
  \<open>getDevServerConfig\<close> of the framework name in the report, which is what
  \<open>detectFramework\<close> finds among the declared dependencies, and \<open>detectFrameworkConfig\<close> of
  the manifest give the same arguments and the same environment if and only if
  \<^item> the script \<open>detectFrameworkConfig\<close> picks (the first truthy one of dev, start, serve,
    develop, and dev when there is none) is the script name \<open>getDevServerConfig\<close> writes
    for the reported name (dev for a name it has no case for), and
  \<^item> the two names stand for the same host arguments and environment in the two tables:
    the reported name is one of Vite, Vue CLI, Angular CLI, SvelteKit and Astro and
    \<open>detectFrameworkConfig\<close> names one of these or Parcel; or both name Create React App,
    both Next.js, both Nuxt or both Gatsby; or the reported name is Remix, a name
    \<open>getDevServerConfig\<close> has no case for, or none, and \<open>detectFrameworkConfig\<close> names
    Remix or nothing.
\<close>

theorem devServerConfig_agreement:
  assumes manifest: "extractPackageJson parse tree = Some pkg" "truthy pkg"
    and report: "checkCompatibility parse tree Nodejs = Inr r"
  shows "frameworkDetected r = detectFramework (map fst (declaredDeps pkg)) \<and>
         ((args (getDevServerConfig (frameworkDetected r)) = args (detectFrameworkConfig (Some pkg)) \<and>
           env (getDevServerConfig (frameworkDetected r)) = env (detectFrameworkConfig (Some pkg)))
          \<longleftrightarrow>
          (baseArgs pkg = [''run'', scriptWritten (frameworkDetected r)] \<and>
           sameRow (frameworkDetected r) (name (detectFrameworkConfig (Some pkg)))))"
proof
  from manifest report have "checkManifest tree pkg = Inr r"
    using checkCompatibility_manifest [of parse tree pkg] by simp
  then show "frameworkDetected r = detectFramework (map fst (declaredDeps pkg))"
    by (rule checkManifest_report(4))
  show "(args (getDevServerConfig (frameworkDetected r)) = args (detectFrameworkConfig (Some pkg)) \<and>
           env (getDevServerConfig (frameworkDetected r)) = env (detectFrameworkConfig (Some pkg)))
          \<longleftrightarrow>
          (baseArgs pkg = [''run'', scriptWritten (frameworkDetected r)] \<and>
           sameRow (frameworkDetected r) (name (detectFrameworkConfig (Some pkg))))"
    using manifest(2) by (rule agreement_iff)
qed

text \<open>
  The theorem at three manifests: a Vite project with a \<open>dev\<close> script, on which the two
  agree; a NestJS project with a \<open>dev\<close> script, which only the checker gives a name and
  on which the two agree all the same; and an Express project with a \<open>start\<close> script, on
  which they do not.
\<close>

theorem devServerConfig_agreement_witness:
  "args (getDevServerConfig (Some ''Vite'')) = args (detectFrameworkConfig (Some viteManifest)) \<and>
   env (getDevServerConfig (Some ''Vite'')) = env (detectFrameworkConfig (Some viteManifest)) \<and>
   detectFramework (map fst (declaredDeps nestManifest)) = Some ''NestJS'' \<and>
   name (detectFrameworkConfig (Some nestManifest)) = None \<and>
   args (getDevServerConfig (Some ''NestJS'')) = args (detectFrameworkConfig (Some nestManifest)) \<and>
   env (getDevServerConfig (Some ''NestJS'')) = env (detectFrameworkConfig (Some nestManifest)) \<and>
   \<not> (args (getDevServerConfig (Some ''Express'')) = args (detectFrameworkConfig (Some expressManifest)) \<and>
      env (getDevServerConfig (Some ''Express'')) = env (detectFrameworkConfig (Some expressManifest)))"
proof -
  define report where "report f =
      \<lparr> canRun = True, issues = [], warnings = [], suggestions = [], nodeVersion = None,
        hasNativeDeps = False, hasGitSshDeps = False, frameworkDetected = Some f \<rparr>" for f
  have fd: "frameworkDetected (report f) = Some f" for f by (simp add: report_def)
  have v1: "extractPackageJson frameworkParse (manifestTree viteText) = Some viteManifest"
    and v2: "truthy viteManifest"
    and v3: "checkCompatibility frameworkParse (manifestTree viteText) Nodejs = Inr (report ''Vite'')"
    and v4: "baseArgs viteManifest = [''run'', scriptWritten (Some ''Vite'')] \<and>
             sameRow (Some ''Vite'') (name (detectFrameworkConfig (Some viteManifest)))"
    unfolding report_def by code_simp+
  have n1: "extractPackageJson frameworkParse (manifestTree nestText) = Some nestManifest"
    and n2: "truthy nestManifest"
    and n3: "checkCompatibility frameworkParse (manifestTree nestText) Nodejs = Inr (report ''NestJS'')"
    and n4: "baseArgs nestManifest = [''run'', scriptWritten (Some ''NestJS'')] \<and>
             sameRow (Some ''NestJS'') (name (detectFrameworkConfig (Some nestManifest)))"
    and n5: "name (detectFrameworkConfig (Some nestManifest)) = None"
    unfolding report_def by code_simp+
  have e1: "extractPackageJson frameworkParse (manifestTree expressText) = Some expressManifest"
    and e2: "truthy expressManifest"
    and e3: "checkCompatibility frameworkParse (manifestTree expressText) Nodejs = Inr (report ''Express'')"
    and e4: "\<not> sameRow (Some ''Express'') (name (detectFrameworkConfig (Some expressManifest)))"
    unfolding report_def by code_simp+
  note V = devServerConfig_agreement [OF v1 v2 v3, unfolded fd]
  note N = devServerConfig_agreement [OF n1 n2 n3, unfolded fd]
  note E = devServerConfig_agreement [OF e1 e2 e3, unfolded fd]
  have a: "args (getDevServerConfig (Some ''Vite'')) = args (detectFrameworkConfig (Some viteManifest)) \<and>
   env (getDevServerConfig (Some ''Vite'')) = env (detectFrameworkConfig (Some viteManifest))"
    using V [THEN conjunct2] v4 by (rule iffD2)
  have b1: "detectFramework (map fst (declaredDeps nestManifest)) = Some ''NestJS''"
    using N [THEN conjunct1] by (rule sym)
  have b2: "args (getDevServerConfig (Some ''NestJS'')) = args (detectFrameworkConfig (Some nestManifest)) \<and>
   env (getDevServerConfig (Some ''NestJS'')) = env (detectFrameworkConfig (Some nestManifest))"
    using N [THEN conjunct2] n4 by (rule iffD2)
  have c: "\<not> (args (getDevServerConfig (Some ''Express'')) = args (detectFrameworkConfig (Some expressManifest)) \<and>
      env (getDevServerConfig (Some ''Express'')) = env (detectFrameworkConfig (Some expressManifest)))"
  proof
    assume "args (getDevServerConfig (Some ''Express'')) = args (detectFrameworkConfig (Some expressManifest)) \<and>
      env (getDevServerConfig (Some ''Express'')) = env (detectFrameworkConfig (Some expressManifest))"
    with E [THEN conjunct2]
    have "baseArgs expressManifest = [''run'', scriptWritten (Some ''Express'')] \<and>
          sameRow (Some ''Express'') (name (detectFrameworkConfig (Some expressManifest)))"
      by (rule iffD1)
    then have "sameRow (Some ''Express'') (name (detectFrameworkConfig (Some expressManifest)))" ..
    with e4 show False ..
  qed
  from a [THEN conjunct1] a [THEN conjunct2] b1 n5 b2 [THEN conjunct1] b2 [THEN conjunct2] c
  show ?thesis by (intro conjI)
qed

text \<open>
  C10 as stated holds for every manifest. For an Express project with a \<open>start\<close> script
  both name Express, but \<open>getDevServerConfig\<close> has no case for it and answers
  \<open>npm run dev\<close> without environment, where \<open>detectFrameworkConfig\<close> answers
  \<open>npm run start\<close> with \<open>PORT\<close> and \<open>HOST\<close> set.
\<close>

theorem express_config_counterexample:
  "args (getDevServerConfig (Some ''Express'')) \<noteq> args (detectFrameworkConfig (Some expressManifest)) \<and>
   env (getDevServerConfig (Some ''Express'')) \<noteq> env (detectFrameworkConfig (Some expressManifest)) \<and>
   checkCompatibility frameworkParse (manifestTree expressText) Nodejs =
     Inr \<lparr> canRun = True, issues = [], warnings = [], suggestions = [], nodeVersion = None,
           hasNativeDeps = False, hasGitSshDeps = False, frameworkDetected = Some ''Express'' \<rparr> \<and>
   extractPackageJson frameworkParse (manifestTree expressText) = Some expressManifest \<and>
   getDevServerConfig (Some ''Express'') = \<lparr> args = [''run'', ''dev''], env = None \<rparr> \<and>
   detectFrameworkConfig (Some expressManifest) =
     \<lparr> args = [''run'', ''start''], env = Some [(''PORT'', ''3000''), (''HOST'', ''0.0.0.0'')],
       name = Some ''Express'' \<rparr>"
  by code_simp


end
